theory Spec2Isabelle
  imports Main
begin

section \<open>Harvest and mirror scripts: fetch-funko-hp.js and fetch-villagers.js\<close>

text \<open>
  A shallow embedding of the two fetch scripts. JavaScript strings are modelled as
  \<open>string\<close>, one \<open>char\<close> per code unit (code units below 256). A JSON number is modelled
  by the text JavaScript prints for it. A value that may be \<open>undefined\<close> is a \<open>json option\<close>, \<open>None\<close> standing for
  \<open>undefined\<close>. A promise that never settles is the value \<open>None\<close> of an option-valued
  function; a rejected promise (or a thrown exception) is \<open>Inl\<close> of an error.
\<close>

subsection \<open>Strings\<close>

fun startsWith :: "string \<Rightarrow> string \<Rightarrow> bool" where
  "startsWith s [] = True"
| "startsWith [] (p # ps) = False"
| "startsWith (c # s) (p # ps) = (c = p \<and> startsWith s ps)"

definition endsWith :: "string \<Rightarrow> string \<Rightarrow> bool" where
  "endsWith s p = startsWith (rev s) (rev p)"

fun str_includes :: "string \<Rightarrow> string \<Rightarrow> bool" where
  "str_includes [] p = (p = [])"
| "str_includes (c # s) p = (startsWith (c # s) p \<or> str_includes s p)"

text \<open>White space and line terminators, as \<open>String.prototype.trim\<close> and the regular
  expression class \<open>\s\<close> take them, among the code units below 256.\<close>

definition WhiteSpace :: "char list" where
  "WhiteSpace = [CHR 0x09, CHR 0x0A, CHR 0x0B, CHR 0x0C, CHR 0x0D, CHR 0x20, CHR 0xA0]"

definition is_space :: "char \<Rightarrow> bool" where
  "is_space c = (c \<in> set WhiteSpace)"

definition trim :: "string \<Rightarrow> string" where
  "trim s = rev (dropWhile is_space (rev (dropWhile is_space s)))"

text \<open>Case folding of a case-insensitive regular expression without the \<open>u\<close> flag: only
  the ASCII letters fold onto ASCII letters.\<close>

definition toLowerAscii :: "char \<Rightarrow> char" where
  "toLowerAscii c =
     (case map_of (zip ''ABCDEFGHIJKLMNOPQRSTUVWXYZ'' ''abcdefghijklmnopqrstuvwxyz'') c of
        Some l \<Rightarrow> l
      | None \<Rightarrow> c)"

definition lower :: "string \<Rightarrow> string" where
  "lower s = map toLowerAscii s"

text \<open>\<open>s.replace(/%5F/g, '_')\<close>: every occurrence of the three characters, left to right.\<close>

fun replace_5F :: "string \<Rightarrow> string" where
  "replace_5F [] = []"
| "replace_5F (c # s) =
     (if startsWith (c # s) ''%5F'' then CHR ''_'' # replace_5F (drop 2 s)
      else c # replace_5F s)"

text \<open>\<open>s.replace(/_/g, ' ')\<close>.\<close>

definition underscores_to_spaces :: "string \<Rightarrow> string" where
  "underscores_to_spaces s = map (\<lambda>c. if c = CHR ''_'' then CHR '' '' else c) s"

text \<open>\<open>s.replace(/\.[^.]+$/, '')\<close>: the match starts at the last dot of \<open>s\<close>, and exists
  when that dot is not the last character.\<close>

definition strip_extension :: "string \<Rightarrow> string" where
  "strip_extension s =
     (let after = rev (takeWhile (\<lambda>c. c \<noteq> CHR ''.'') (rev s))
      in if CHR ''.'' \<in> set s \<and> after \<noteq> [] then take (length s - length after - 1) s else s)"

text \<open>\<open>s.replace(/\s+/g, '_')\<close>: every maximal run of white space becomes one underscore.\<close>

fun spaces_to_underscore :: "string \<Rightarrow> string" where
  "spaces_to_underscore [] = []"
| "spaces_to_underscore [c] = (if is_space c then ''_'' else [c])"
| "spaces_to_underscore (c # d # s) =
     (if is_space c then
        (if is_space d then spaces_to_underscore (d # s)
         else CHR ''_'' # spaces_to_underscore (d # s))
      else c # spaces_to_underscore (d # s))"

text \<open>Decimal digits of a number, as a template literal prints it.\<close>

fun show_nat :: "nat \<Rightarrow> string" where
  "show_nat n =
     (if n < 10 then [''0123456789'' ! n]
      else show_nat (n div 10) @ [''0123456789'' ! (n mod 10)])"

declare show_nat.simps [simp del]

subsection \<open>JSON values and the JavaScript operations the scripts apply to them\<close>

text \<open>The result of \<open>JSON.parse\<close>. An object holds its own properties in the order in
  which \<open>Object.values\<close> enumerates them, each key once. The scripts do two things with
  a number: they test whether it is zero, and they convert it to a string. A number is
  therefore given by the text that \<open>String(n)\<close> prints for it (\<open>0\<close>, \<open>-7\<close>, \<open>1.5\<close>,
  \<open>1e+21\<close>); only zero prints as \<open>0\<close>.\<close>

datatype json =
    JNull
  | JBool bool
  | JNum string
  | JStr string
  | JArr "json list"
  | JObj "(string \<times> json) list"

datatype error =
    TypeError
  | SyntaxError
  | RequestError string
  | HttpError nat
  | WriteError string

text \<open>\<open>err.message\<close>. The text of an engine's \<open>TypeError\<close> or \<open>SyntaxError\<close> is not part
  of the scripts; the error's name stands for it.\<close>

fun message :: "error \<Rightarrow> string" where
  "message TypeError = ''TypeError''"
| "message SyntaxError = ''SyntaxError''"
| "message (RequestError m) = m"
| "message (HttpError code) = ''HTTP '' @ show_nat code"
| "message (WriteError m) = m"

fun truthy :: "json \<Rightarrow> bool" where
  "truthy JNull = False"
| "truthy (JBool b) = b"
| "truthy (JNum n) = (n \<noteq> ''0'')"
| "truthy (JStr s) = (s \<noteq> [])"
| "truthy (JArr xs) = True"
| "truthy (JObj ps) = True"

definition truthy_opt :: "json option \<Rightarrow> bool" where
  "truthy_opt v = (case v of None \<Rightarrow> False | Some j \<Rightarrow> truthy j)"

text \<open>\<open>v.k\<close> for a value \<open>v\<close> that is neither \<open>null\<close> nor \<open>undefined\<close>, and a name \<open>k\<close> that
  no prototype defines (\<open>query\<close>, \<open>pages\<close>, \<open>continue\<close>, \<open>key\<close>, \<open>value\<close>, \<open>title\<close>,
  \<open>imageinfo\<close>, \<open>url\<close>): the own property of an object, \<open>undefined\<close> otherwise.\<close>

fun get_prop :: "json \<Rightarrow> string \<Rightarrow> json option" where
  "get_prop (JObj ps) k = map_of ps k"
| "get_prop _ k = None"

text \<open>\<open>v?.k\<close>: \<open>undefined\<close> when \<open>v\<close> is \<open>null\<close> or \<open>undefined\<close>.\<close>

definition opt_prop :: "json option \<Rightarrow> string \<Rightarrow> json option" where
  "opt_prop v k = (case v of None \<Rightarrow> None | Some j \<Rightarrow> get_prop j k)"

text \<open>\<open>v?.[0]\<close>: the first element of an array, the first character of a string, the
  property \<open>0\<close> of an object.\<close>

fun opt_index0 :: "json option \<Rightarrow> json option" where
  "opt_index0 (Some (JArr xs)) = (case xs of [] \<Rightarrow> None | x # _ \<Rightarrow> Some x)"
| "opt_index0 (Some (JStr s)) = (case s of [] \<Rightarrow> None | c # _ \<Rightarrow> Some (JStr [c]))"
| "opt_index0 (Some (JObj ps)) = map_of ps ''0''"
| "opt_index0 _ = None"

fun object_values :: "json \<Rightarrow> json list" where
  "object_values (JObj ps) = map snd ps"
| "object_values (JArr xs) = xs"
| "object_values (JStr s) = map (\<lambda>c. JStr [c]) s"
| "object_values _ = []"

text \<open>\<open>ToString\<close> of a JSON value. It throws a \<open>TypeError\<close> on an object whose own property
  \<open>toString\<close> hides the inherited method, since no JSON value is callable.\<close>

fun toString_throws :: "json \<Rightarrow> bool" where
  "toString_throws (JObj ps) = (''toString'' \<in> set (map fst ps))"
| "toString_throws (JArr xs) = list_ex toString_throws xs"
| "toString_throws _ = False"

fun intercalate :: "string \<Rightarrow> string list \<Rightarrow> string" where
  "intercalate sep [] = []"
| "intercalate sep [x] = x"
| "intercalate sep (x # y # ys) = x @ sep @ intercalate sep (y # ys)"

fun toString :: "json \<Rightarrow> string" where
  "toString JNull = ''null''"
| "toString (JBool b) = (if b then ''true'' else ''false'')"
| "toString (JNum n) = n"
| "toString (JStr s) = s"
| "toString (JArr xs) =
     intercalate '','' (map (\<lambda>x. if x = JNull then [] else toString x) xs)"
| "toString (JObj ps) = ''[object Object]''"

definition toString_opt :: "json option \<Rightarrow> error + string" where
  "toString_opt v =
     (case v of
        None \<Rightarrow> Inr ''undefined''
      | Some j \<Rightarrow> if toString_throws j then Inl TypeError else Inr (toString j))"

subsection \<open>Request parameters\<close>

type_synonym params = "(string \<times> string) list"

text \<open>An array index: the decimal form of an integer below \<open>2^32 - 1\<close>. Properties with
  such keys are enumerated before all others.\<close>

definition digit_value :: "char \<Rightarrow> nat option" where
  "digit_value c = map_of (zip ''0123456789'' [0, 1, 2, 3, 4, 5, 6, 7, 8, 9]) c"

definition digits_value :: "string \<Rightarrow> nat" where
  "digits_value k = foldl (\<lambda>a c. 10 * a + (case digit_value c of Some d \<Rightarrow> d | None \<Rightarrow> 0)) 0 k"

definition is_array_index :: "string \<Rightarrow> bool" where
  "is_array_index k =
     (k \<noteq> [] \<and> list_all (\<lambda>c. digit_value c \<noteq> None) k
      \<and> (if hd k = CHR ''0'' then k = ''0'' else True)
      \<and> digits_value k < 4294967295)"

text \<open>The object literal of seven fixed properties, to which the spread adds the property
  \<open>k\<close>: a key already there keeps its place and takes the new value, an array index goes
  first, any other key goes last. \<open>URLSearchParams\<close> lists the properties in that order.\<close>

definition base_params :: "string \<Rightarrow> params" where
  "base_params page_title =
     [(''action'', ''query''), (''generator'', ''images''), (''gimlimit'', ''500''),
      (''titles'', page_title), (''prop'', ''imageinfo''), (''iiprop'', ''url''),
      (''format'', ''json'')]"

definition set_property :: "params \<Rightarrow> string \<Rightarrow> string \<Rightarrow> params" where
  "set_property ps k v =
     (if k \<in> set (map fst ps) then map (\<lambda>(k', v'). if k' = k then (k', v) else (k', v')) ps
      else if is_array_index k then (k, v) # ps
      else ps @ [(k, v)])"

text \<open>\<open>new URLSearchParams({..., ...(continueToken && { [continueToken.key]:
  continueToken.value })})\<close>, with \<open>None\<close> for the initial \<open>undefined\<close>.\<close>

definition query_params :: "string \<Rightarrow> json option \<Rightarrow> error + params" where
  "query_params page_title continueToken =
     (case continueToken of
        None \<Rightarrow> Inr (base_params page_title)
      | Some tok \<Rightarrow>
          if \<not> truthy tok then Inr (base_params page_title)
          else (case toString_opt (get_prop tok ''key'') of
                  Inl e \<Rightarrow> Inl e
                | Inr k \<Rightarrow>
                    (case toString_opt (get_prop tok ''value'') of
                       Inl e \<Rightarrow> Inl e
                     | Inr v \<Rightarrow> Inr (set_property (base_params page_title) k v))))"

subsection \<open>The HTTP JSON fetcher\<close>

text \<open>What the API answers to a request: a transport error, or a response with its status
  code and the outcome of \<open>JSON.parse\<close> on its buffered body (\<open>None\<close> when it throws).
  A request is the endpoint and the parameters of the query string. The API answers a
  given request in the same way throughout a run. A response whose body breaks off
  before its end is not modelled: the script has no handler for it.\<close>

datatype api_reply =
    ApiError string
  | ApiResponse nat "json option"

type_synonym api = "string \<Rightarrow> params \<Rightarrow> api_reply"

definition fetchJson :: "api \<Rightarrow> string \<Rightarrow> params \<Rightarrow> error + json" where
  "fetchJson net endpoint ps =
     (case net endpoint ps of
        ApiError m \<Rightarrow> Inl (RequestError m)
      | ApiResponse statusCode None \<Rightarrow> Inl SyntaxError
      | ApiResponse statusCode (Some data) \<Rightarrow> Inr data)"

text \<open>\<open>Object.values(data.query?.pages || {})\<close>; reading \<open>query\<close> of \<open>null\<close> throws.\<close>

definition response_pages :: "json \<Rightarrow> error + json list" where
  "response_pages data =
     (if data = JNull then Inl TypeError
      else let q = get_prop data ''query'';
               pages = (if q = Some JNull then None else opt_prop q ''pages'')
           in Inr (if truthy_opt pages then object_values (the pages) else []))"

text \<open>\<open>page.title || ''\<close>, on which a string method is then called: reading \<open>title\<close> of
  \<open>null\<close> throws, and so does the method call when the title is not a string.\<close>

definition title_of_page :: "json \<Rightarrow> error + string" where
  "title_of_page page =
     (if page = JNull then Inl TypeError
      else (case get_prop page ''title'' of
              None \<Rightarrow> Inr []
            | Some t \<Rightarrow>
                if \<not> truthy t then Inr []
                else (case t of JStr s \<Rightarrow> Inr s | _ \<Rightarrow> Inl TypeError)))"

text \<open>\<open>page.imageinfo?.[0]?.url\<close>, for a page that is not \<open>null\<close>.\<close>

definition image_url :: "json \<Rightarrow> json option" where
  "image_url page =
     (let info = get_prop page ''imageinfo'';
          first = (if info = Some JNull then None else opt_index0 info)
      in if first = Some JNull then None else opt_prop first ''url'')"

subsection \<open>The paginated query driver\<close>

text \<open>The \<open>do ... while (continueToken)\<close> loop of both scripts. \<open>collect\<close> is the body of
  the inner \<open>for\<close> loop over the pages of one response, \<open>collected\<close> what it has accumulated. The
  loop also records the parameters of every request it issues. It returns \<open>None\<close> when
  it runs forever.\<close>

partial_function (option) query_loop ::
  "api \<Rightarrow> string \<Rightarrow> string \<Rightarrow> ('a \<Rightarrow> json list \<Rightarrow> error + 'a) \<Rightarrow> 'a \<Rightarrow> json option
     \<Rightarrow> params list \<Rightarrow> (params list \<times> (error + 'a)) option" where
  "query_loop net endpoint page_title collect collected continueToken issued =
     (case query_params page_title continueToken of
        Inl e \<Rightarrow> Some (issued, Inl e)
      | Inr ps \<Rightarrow>
          (case fetchJson net endpoint ps of
             Inl e \<Rightarrow> Some (issued @ [ps], Inl e)
           | Inr data \<Rightarrow>
               (case response_pages data of
                  Inl e \<Rightarrow> Some (issued @ [ps], Inl e)
                | Inr pages \<Rightarrow>
                    (case collect collected pages of
                       Inl e \<Rightarrow> Some (issued @ [ps], Inl e)
                     | Inr collected' \<Rightarrow>
                         if truthy_opt (get_prop data ''continue'')
                         then query_loop net endpoint page_title collect collected'
                                (get_prop data ''continue'') (issued @ [ps])
                         else Some (issued @ [ps], Inr collected')))))"

subsection \<open>fetch-funko-hp.js: item extraction\<close>

record image =
  name :: string
  filename :: string
  url :: json

definition funko_API_URL :: string where
  "funko_API_URL = ''https://funko.fandom.com/api.php''"

definition funko_PAGE_TITLE :: string where
  "funko_PAGE_TITLE = ''Pop!_Harry_Potter''"

text \<open>\<open>title.match(/\.(png|jpg|jpeg|webp)$/i)\<close>.\<close>

definition has_image_extension :: "string \<Rightarrow> bool" where
  "has_image_extension title =
     (endsWith (lower title) ''.png'' \<or> endsWith (lower title) ''.jpg''
      \<or> endsWith (lower title) ''.jpeg'' \<or> endsWith (lower title) ''.webp'')"

text \<open>\<open>title.replace(/^File:/, '')\<close>.\<close>

definition remove_File_prefix :: "string \<Rightarrow> string" where
  "remove_File_prefix title = (if startsWith title ''File:'' then drop 5 title else title)"

text \<open>One turn of the loop over the pages: \<open>Inr None\<close> is \<open>continue\<close>.\<close>

definition funko_item :: "json \<Rightarrow> error + image option" where
  "funko_item page =
     (case title_of_page page of
        Inl e \<Rightarrow> Inl e
      | Inr title \<Rightarrow>
          if \<not> startsWith title ''File:'' then Inr None
          else if \<not> truthy_opt (image_url page) then Inr None
          else if \<not> has_image_extension title then Inr None
          else let fname = trim (remove_File_prefix title)
               in if str_includes fname ''Pack'' \<or> str_includes fname ''poster''
                     \<or> str_includes fname ''Poster'' then Inr None
                  else if str_includes fname ''Deluxe'' \<or> str_includes fname ''Moment''
                  then Inr None
                  else Inr (Some \<lparr>name = underscores_to_spaces (replace_5F (strip_extension fname)),
                                  filename = fname,
                                  url = the (image_url page)\<rparr>))"

fun funko_collect :: "image list \<Rightarrow> json list \<Rightarrow> error + image list" where
  "funko_collect images [] = Inr images"
| "funko_collect images (page # pages) =
     (case funko_item page of
        Inl e \<Rightarrow> Inl e
      | Inr None \<Rightarrow> funko_collect images pages
      | Inr (Some i) \<Rightarrow> funko_collect (images @ [i]) pages)"

definition fetchAllFunkoImages :: "api \<Rightarrow> (params list \<times> (error + image list)) option" where
  "fetchAllFunkoImages net =
     query_loop net funko_API_URL funko_PAGE_TITLE funko_collect [] None []"

subsection \<open>fetch-villagers.js: item extraction\<close>

record villager =
  vname :: string
  vurl :: json
  isSq :: bool

definition villagers_API_URL :: string where
  "villagers_API_URL = ''https://animalcrossing.fandom.com/api.php''"

definition villagers_PAGE_TITLE :: string where
  "villagers_PAGE_TITLE = ''Villager_list_(New_Horizons)''"

text \<open>\<open>title.match(/^File:NH-(.+) poster( ?sq)?\.png$/i)\<close>, giving the first group and
  whether the second took part. The three endings the pattern allows exclude one
  another, so the first group is what lies between the prefix of 8 characters and the
  ending; it must be non-empty and free of line terminators, which the dot refuses.\<close>

definition poster_group :: "string \<Rightarrow> nat \<Rightarrow> bool \<Rightarrow> (string \<times> bool) option" where
  "poster_group title n sq =
     (let g = take (length title - 8 - n) (drop 8 title)
      in if g \<noteq> [] \<and> CHR 0x0A \<notin> set g \<and> CHR 0x0D \<notin> set g then Some (g, sq) else None)"

definition poster_match :: "string \<Rightarrow> (string \<times> bool) option" where
  "poster_match title =
     (if \<not> startsWith (lower title) ''file:nh-'' then None
      else if endsWith (lower title) '' poster.png'' then poster_group title 11 False
      else if endsWith (lower title) '' postersq.png'' then poster_group title 13 True
      else if endsWith (lower title) '' poster sq.png'' then poster_group title 14 True
      else None)"

definition villager_item :: "json \<Rightarrow> error + villager option" where
  "villager_item page =
     (case title_of_page page of
        Inl e \<Rightarrow> Inl e
      | Inr title \<Rightarrow>
          (case poster_match title of
             None \<Rightarrow> Inr None
           | Some (g, sq) \<Rightarrow>
               if \<not> truthy_opt (image_url page) then Inr None
               else Inr (Some \<lparr>vname = trim g, vurl = the (image_url page), isSq = sq\<rparr>)))"

text \<open>The \<open>Map\<close> \<open>byName\<close>, as the list of its entries in insertion order. \<open>set\<close> on a
  key already there keeps the entry's place.\<close>

type_synonym byName = "(string \<times> villager) list"

definition map_set :: "byName \<Rightarrow> string \<Rightarrow> villager \<Rightarrow> byName" where
  "map_set m k v =
     (if k \<in> set (map fst m) then map (\<lambda>(k', v'). if k' = k then (k', v) else (k', v')) m
      else m @ [(k, v)])"

definition villager_put :: "byName \<Rightarrow> villager \<Rightarrow> byName" where
  "villager_put m v =
     (case map_of m (vname v) of
        None \<Rightarrow> map_set m (vname v) v
      | Some existing \<Rightarrow> if isSq existing \<and> \<not> isSq v then map_set m (vname v) v else m)"

fun villager_collect :: "byName \<Rightarrow> json list \<Rightarrow> error + byName" where
  "villager_collect m [] = Inr m"
| "villager_collect m (page # pages) =
     (case villager_item page of
        Inl e \<Rightarrow> Inl e
      | Inr None \<Rightarrow> villager_collect m pages
      | Inr (Some v) \<Rightarrow> villager_collect (villager_put m v) pages)"

text \<open>\<open>Array.prototype.sort\<close> with the comparator \<open>a.name.localeCompare(b.name)\<close>. The
  collation \<open>localeCompare\<close> belongs to the platform and is a parameter. The sort is
  stable.\<close>

fun insert_sorted :: "(string \<Rightarrow> string \<Rightarrow> int) \<Rightarrow> villager \<Rightarrow> villager list \<Rightarrow> villager list" where
  "insert_sorted localeCompare v [] = [v]"
| "insert_sorted localeCompare v (w # ws) =
     (if localeCompare (vname v) (vname w) \<le> 0 then v # w # ws
      else w # insert_sorted localeCompare v ws)"

definition sort_by_name :: "(string \<Rightarrow> string \<Rightarrow> int) \<Rightarrow> villager list \<Rightarrow> villager list" where
  "sort_by_name localeCompare vs = foldr (insert_sorted localeCompare) vs []"

definition fetchAllVillagerImages ::
  "(string \<Rightarrow> string \<Rightarrow> int) \<Rightarrow> api \<Rightarrow> (params list \<times> (error + villager list)) option" where
  "fetchAllVillagerImages localeCompare net =
     (case query_loop net villagers_API_URL villagers_PAGE_TITLE villager_collect [] None [] of
        None \<Rightarrow> None
      | Some (issued, Inl e) \<Rightarrow> Some (issued, Inl e)
      | Some (issued, Inr m) \<Rightarrow> Some (issued, Inr (sort_by_name localeCompare (map snd m))))"

subsection \<open>The outside world\<close>

text \<open>What an image server answers to \<open>https.get(url, ...)\<close>: the request fails (the
  call throws inside the promise or the request emits \<open>error\<close>), or a response arrives
  with its status code, its \<open>Location\<close> header (\<open>None\<close> when absent) and its whole
  body. A response with status 200 may also break off: after a part of the body has
  arrived, either the request emits \<open>error\<close> (the handler of the request is still
  attached while the body streams), or nothing more happens (the script has no handler
  on the response and sets no timeout). The argument is whatever value the script
  passes, \<open>None\<close> for \<open>undefined\<close>. A server answers a given URL in the same way
  throughout a run.\<close>

datatype response =
    RequestFails string
  | Response nat "json option" string
  | BreaksOff string string
  | Stalls string

text \<open>What the write stream opened on a path does with the body piped into it: it
  finishes, it fails to open the file, or it fails once it has written a number of
  characters (at the latest when it is ended, if it was given fewer). A stream that is
  never ended, because the body broke off, fails only if it was given more characters
  than that number.\<close>

datatype write_outcome =
    Finishes
  | OpenFails string
  | WriteFails nat string

record world =
  api_server :: api
  image_server :: "json option \<Rightarrow> response"
  disk :: "string \<Rightarrow> write_outcome"

datatype console_line =
    Log string
  | Error string
  | Write string

text \<open>The state the scripts act on: the files of the output directory by name, the
  manifest file, the console, and the requests sent to image servers so far.\<close>

record io =
  files :: "string \<rightharpoonup> string"
  manifest :: "(string \<times> string) list option"
  console :: "console_line list"
  requests :: "json option list"

subsection \<open>The mirroring downloader\<close>

text \<open>\<open>downloadImage(url, filepath)\<close>. \<open>createWriteStream\<close> opens the file for writing,
  which empties a file already there; what the stream was given stays in the file. The
  function returns \<open>None\<close> when the promise never settles.\<close>

partial_function (option) downloadImage ::
  "world \<Rightarrow> json option \<Rightarrow> string \<Rightarrow> io \<Rightarrow> ((error + unit) \<times> io) option" where
  "downloadImage w target filepath s =
     (case image_server w target of
        RequestFails m \<Rightarrow> Some (Inl (RequestError m), s\<lparr>requests := requests s @ [target]\<rparr>)
      | Response statusCode location body \<Rightarrow>
          if statusCode = 301 \<or> statusCode = 302
          then downloadImage w location filepath (s\<lparr>requests := requests s @ [target]\<rparr>)
          else if statusCode \<noteq> 200
          then Some (Inl (HttpError statusCode), s\<lparr>requests := requests s @ [target]\<rparr>)
          else (case disk w filepath of
                  Finishes \<Rightarrow>
                    Some (Inr (), s\<lparr>requests := requests s @ [target],
                                     files := (files s)(filepath \<mapsto> body)\<rparr>)
                | OpenFails m \<Rightarrow>
                    Some (Inl (WriteError m), s\<lparr>requests := requests s @ [target]\<rparr>)
                | WriteFails n m \<Rightarrow>
                    Some (Inl (WriteError m), s\<lparr>requests := requests s @ [target],
                                                 files := (files s)(filepath \<mapsto> take n body)\<rparr>))
      | BreaksOff part m \<Rightarrow>
          (case disk w filepath of
             Finishes \<Rightarrow>
               Some (Inl (RequestError m), s\<lparr>requests := requests s @ [target],
                                               files := (files s)(filepath \<mapsto> part)\<rparr>)
           | OpenFails m' \<Rightarrow>
               Some (Inl (WriteError m'), s\<lparr>requests := requests s @ [target]\<rparr>)
           | WriteFails n m' \<Rightarrow>
               if n < length part
               then Some (Inl (WriteError m'), s\<lparr>requests := requests s @ [target],
                                                  files := (files s)(filepath \<mapsto> take n part)\<rparr>)
               else Some (Inl (RequestError m), s\<lparr>requests := requests s @ [target],
                                                  files := (files s)(filepath \<mapsto> part)\<rparr>))
      | Stalls part \<Rightarrow>
          (case disk w filepath of
             Finishes \<Rightarrow> None
           | OpenFails m' \<Rightarrow>
               Some (Inl (WriteError m'), s\<lparr>requests := requests s @ [target]\<rparr>)
           | WriteFails n m' \<Rightarrow>
               if n < length part
               then Some (Inl (WriteError m'), s\<lparr>requests := requests s @ [target],
                                                  files := (files s)(filepath \<mapsto> take n part)\<rparr>)
               else None))"

subsection \<open>The run orchestrator\<close>

text \<open>The variables of \<open>main\<close>: the set \<open>seen\<close> (fetch-funko-hp.js only), the array
  written to the manifest (\<open>funko\<close>, \<open>villagers\<close>), and the two counters.\<close>

record tally =
  seen :: "string set"
  entries :: "(string \<times> string) list"
  downloaded :: nat
  skipped :: nat

definition tally0 :: tally where
  "tally0 = \<lparr>seen = {}, entries = [], downloaded = 0, skipped = 0\<rparr>"

definition check_mark :: string where
  "check_mark = [CHR 0xE2, CHR 0x9C, CHR 0x93]"

definition cross_mark :: string where
  "cross_mark = [CHR 0xE2, CHR 0x9C, CHR 0x97]"

text \<open>The part of the loop body the two scripts share, from the \<open>push\<close> on: the entry is
  recorded, then the file is looked for, then the image is downloaded. A file of the
  output directory is addressed by the name given to \<open>join(OUT_DIR, name)\<close>.\<close>

definition mirror_item ::
  "world \<Rightarrow> string \<Rightarrow> string \<Rightarrow> string \<Rightarrow> json \<Rightarrow> tally \<times> io \<Rightarrow> (tally \<times> io) option" where
  "mirror_item w skip_note item_name fname item_url ts =
     (let t = (fst ts)\<lparr>entries := entries (fst ts) @ [(item_name, fname)]\<rparr>; s = snd ts
      in if files s fname \<noteq> None
         then Some (t\<lparr>skipped := skipped t + 1\<rparr>,
                    s\<lparr>console := console s @ [Write (''  - '' @ item_name @ skip_note @ [CHR 0x0D])]\<rparr>)
         else (case downloadImage w (Some item_url) fname s of
                 None \<Rightarrow> None
               | Some (Inr u, s') \<Rightarrow>
                   Some (t\<lparr>downloaded := downloaded t + 1\<rparr>,
                         s'\<lparr>console := console s' @ [Log (''  '' @ check_mark @ '' '' @ item_name)]\<rparr>)
               | Some (Inl err, s') \<Rightarrow>
                   Some (t, s'\<lparr>console := console s' @
                              [Error (''  '' @ cross_mark @ '' '' @ item_name @ '': '' @ message err)]\<rparr>)))"

text \<open>\<open>console.log(`\nDone! Downloaded ${downloaded}, skipped ${skipped}.`)\<close>, the
  summary line of both scripts.\<close>

definition done_line :: "tally \<Rightarrow> console_line" where
  "done_line t =
     Log (CHR 0x0A # ''Done! Downloaded '' @ show_nat (downloaded t)
            @ '', skipped '' @ show_nat (skipped t) @ ''.'')"

subsection \<open>fetch-funko-hp.js: main\<close>

definition funko_JSON :: string where
  "funko_JSON = ''../src/data/funko-hp.json''"

text \<open>\<open>f.replace(/[<>:"/\\|?*]/g, '_').replace(/%5F/g, '_')\<close>.\<close>

definition safeFilename :: "string \<Rightarrow> string" where
  "safeFilename f =
     replace_5F (map (\<lambda>c. if c \<in> set [CHR ''<'', CHR ''>'', CHR '':'', CHR 0x22, CHR ''/'',
                                          CHR 0x5C, CHR ''|'', CHR ''?'', CHR ''*'']
                             then CHR ''_'' else c) f)"

definition fallback_base :: string where
  "fallback_base = ''https://static.wikia.nocookie.net/funko/images''"

definition fallback_items :: "(string \<times> string \<times> string) list" where
  "fallback_items =
     [(''Harry Potter'', ''/9/9c/HarryPotter.png/revision/latest'', ''HarryPotter.png''),
      (''Ron Weasley'', ''/1/14/RonWeasley.png/revision/latest'', ''RonWeasley.png''),
      (''Hermione Granger'', ''/a/a4/HermioneGranger.png/revision/latest'', ''HermioneGranger.png''),
      (''Albus Dumbledore'', ''/d/da/Albus_Dumbledore.png/revision/latest'', ''Albus_Dumbledore.png''),
      (''Severus Snape'', ''/6/65/Severus_Snape.png/revision/latest'', ''Severus_Snape.png''),
      (''Lord Voldemort'', ''/0/01/Lord_Voldemort.png/revision/latest'', ''Lord_Voldemort.png''),
      (''Rubeus Hagrid'', ''/f/fe/Rubeus_Hagrid.png/revision/latest'', ''Rubeus_Hagrid.png''),
      (''Draco Malfoy'', ''/4/41/51KbEmPfiVL._SX355_.jpg/revision/latest'', ''Draco_Malfoy.jpg''),
      (''Luna Lovegood'', ''/2/2e/S-l300.jpg/revision/latest'', ''Luna_Lovegood.jpg''),
      (''Dobby'', ''/a/ae/Funko-Pop-Harry-Potter-17-Dobby.jpg/revision/latest'', ''Dobby.jpg''),
      (''Sirius Black'', ''/c/cd/Figurine-funko-pop-harry-potter-sirius-black.jpg/revision/latest'',
         ''Sirius_Black.jpg''),
      (''Neville Longbottom'',
         ''/1/14/Funko-Pop-Harry-Potter-22-Neville-Longbottom-Barnes-Noble-Pre-Release.jpg/revision/latest'',
         ''Neville_Longbottom.jpg''),
      (''Bellatrix Lestrange'', ''/1/11/Funko-Pop-Harry-Potter-35-Bellatrix-Lestrange.jpg/revision/latest'',
         ''Bellatrix_Lestrange.jpg''),
      (''Minerva McGonagall'', ''/c/ce/Funko-Pop-Harry-Potter-37-Minerva-McGonagall.jpg/revision/latest'',
         ''Minerva_McGonagall.jpg''),
      (''Fred Weasley'', ''/8/8a/Funko-Pop-Harry-Potter-33-Fred-Weasley.jpg/revision/latest'',
         ''Fred_Weasley.jpg''),
      (''George Weasley'', ''/2/26/Funko-Pop-Harry-Potter-34-George-Weasley.jpg/revision/latest'',
         ''George_Weasley.jpg''),
      (''Remus Lupin'', ''/7/72/Funko-Pop-Harry-Potter-45-Remus-Lupin.jpg/revision/latest'',
         ''Remus_Lupin.jpg''),
      (''Ginny Weasley'', ''/4/48/Funko-Pop-Harry-Potter-46-Ginny-Weasley.jpg/revision/latest'',
         ''Ginny_Weasley.jpg''),
      (''Hedwig'', ''/a/a1/76-_Hedwig.jpg/revision/latest'', ''Hedwig.jpg''),
      (''Buckbeak'', ''/c/c1/104-_Buckbeat.jpg/revision/latest'', ''Buckbeak.jpg'')]"

definition getFallbackImages :: "image list" where
  "getFallbackImages =
     map (\<lambda>(n, u, f). \<lparr>name = n, filename = f, url = JStr (fallback_base @ u)\<rparr>) fallback_items"

text \<open>The \<open>for\<close> loop of \<open>main\<close> over the images.\<close>

fun funko_mirror :: "world \<Rightarrow> image list \<Rightarrow> tally \<times> io \<Rightarrow> (tally \<times> io) option" where
  "funko_mirror w [] ts = Some ts"
| "funko_mirror w (i # images) ts =
     (let safe = safeFilename (filename i)
      in if safe \<in> seen (fst ts) then funko_mirror w images ts
         else (case mirror_item w '' (skipped)'' (name i) safe (url i)
                      ((fst ts)\<lparr>seen := insert safe (seen (fst ts))\<rparr>, snd ts) of
                 None \<Rightarrow> None
               | Some ts' \<Rightarrow> funko_mirror w images ts'))"

text \<open>\<open>main\<close>, from the first \<open>console.log\<close> on; \<open>mkdirSync\<close> and \<open>writeFileSync\<close> are
  taken to succeed. The manifest holds the array that \<open>JSON.stringify\<close> serialises. The
  path of the manifest is printed relative to the directory of the script.\<close>

definition funko_harvest :: "world \<Rightarrow> io \<Rightarrow> (image list \<times> io) option" where
  "funko_harvest w s =
     (case fetchAllFunkoImages (api_server w) of
        None \<Rightarrow> None
      | Some (issued, Inr images) \<Rightarrow> Some (images, s)
      | Some (issued, Inl err) \<Rightarrow>
          Some (getFallbackImages,
                s\<lparr>console := console s @
                     [Error (''API failed: '' @ message err),
                      Log ''Using fallback list from page content...'']\<rparr>))"

definition funko_main :: "world \<Rightarrow> io \<Rightarrow> (tally \<times> io) option" where
  "funko_main w s0 =
     (case funko_harvest w
             (s0\<lparr>console := console s0 @
                    [Log ''Fetching Harry Potter Funko list from Fandom API...'']\<rparr>) of
        None \<Rightarrow> None
      | Some (images, s1) \<Rightarrow>
          (case funko_mirror w images (tally0, s1) of
             None \<Rightarrow> None
           | Some (t, s2) \<Rightarrow>
               Some (t, s2\<lparr>manifest := Some (entries t),
                           console := console s2 @
                             [done_line t,
                              Log (''Funko list written to '' @ funko_JSON)]\<rparr>)))"

subsection \<open>fetch-villagers.js: main\<close>

definition villagers_JSON :: string where
  "villagers_JSON = ''../src/data/villagers.json''"

text \<open>\<open>`NH-${name.replace(/\s+/g, '_')}_poster.png`\<close>.\<close>

definition villager_filename :: "string \<Rightarrow> string" where
  "villager_filename n = ''NH-'' @ spaces_to_underscore n @ ''_poster.png''"

fun villagers_mirror :: "world \<Rightarrow> villager list \<Rightarrow> tally \<times> io \<Rightarrow> (tally \<times> io) option" where
  "villagers_mirror w [] ts = Some ts"
| "villagers_mirror w (v # images) ts =
     (case mirror_item w '' (skipped, exists)'' (vname v) (villager_filename (vname v))
             (vurl v) ts of
        None \<Rightarrow> None
      | Some ts' \<Rightarrow> villagers_mirror w images ts')"

text \<open>\<open>main\<close>: a failure of the driver is not caught, and \<open>main\<close> rejects with it.\<close>

definition villagers_main ::
  "(string \<Rightarrow> string \<Rightarrow> int) \<Rightarrow> world \<Rightarrow> io \<Rightarrow> ((error + tally) \<times> io) option" where
  "villagers_main localeCompare w s0 =
     (let s1 = s0\<lparr>console := console s0 @ [Log ''Fetching villager list from Fandom API...'']\<rparr>
      in case fetchAllVillagerImages localeCompare (api_server w) of
           None \<Rightarrow> None
         | Some (issued, Inl err) \<Rightarrow> Some (Inl err, s1)
         | Some (issued, Inr images) \<Rightarrow>
             (case villagers_mirror w images
                     (tally0, s1\<lparr>console := console s1 @
                                    [Log (''Found '' @ show_nat (length images)
                                            @ '' villager posters.'' @ [CHR 0x0A])]\<rparr>) of
                None \<Rightarrow> None
              | Some (t, s2) \<Rightarrow>
                  Some (Inr t,
                        s2\<lparr>manifest := Some (entries t),
                           console := console s2 @
                             [done_line t,
                              Log (''Villager list written to '' @ villagers_JSON)]\<rparr>)))"

section \<open>Auxiliary notions for the statements\<close>

text \<open>The lines by which the loop of \<open>main\<close> reports a failed download.\<close>

fun is_failure_line :: "console_line \<Rightarrow> bool" where
  "is_failure_line (Error m) = startsWith m (''  '' @ cross_mark)"
| "is_failure_line _ = False"

definition failures :: "console_line list \<Rightarrow> nat" where
  "failures con = length (filter is_failure_line con)"

text \<open>What one call of the downloader may change.\<close>

definition dl_effect :: "string \<Rightarrow> io \<Rightarrow> (error + unit) \<times> io \<Rightarrow> bool" where
  "dl_effect f s y =
     (manifest (snd y) = manifest s \<and> console (snd y) = console s
      \<and> (\<forall>g. g \<noteq> f \<longrightarrow> files (snd y) g = files s g)
      \<and> (\<exists>us. us \<noteq> [] \<and> requests (snd y) = requests s @ us)
      \<and> (fst y = Inr () \<longrightarrow> files (snd y) f \<noteq> None))"

text \<open>The loop of \<open>main\<close> over items given by name, file name and URL, and the items of
  fetch-funko-hp.js that pass the test on \<open>seen\<close>, with their sanitised file names.\<close>

fun mirror_all ::
  "world \<Rightarrow> string \<Rightarrow> (string \<times> string \<times> json) list \<Rightarrow> tally \<times> io \<Rightarrow> (tally \<times> io) option" where
  "mirror_all w skip_note [] ts = Some ts"
| "mirror_all w skip_note ((n, f, u) # items) ts =
     (case mirror_item w skip_note n f u ts of
        None \<Rightarrow> None
      | Some ts' \<Rightarrow> mirror_all w skip_note items ts')"

fun funko_new :: "string set \<Rightarrow> image list \<Rightarrow> (string \<times> string \<times> json) list" where
  "funko_new S [] = []"
| "funko_new S (i # images) =
     (if safeFilename (filename i) \<in> S then funko_new S images
      else (name i, safeFilename (filename i), url i)
             # funko_new (insert (safeFilename (filename i)) S) images)"

definition villager_triple :: "villager \<Rightarrow> string \<times> string \<times> json" where
  "villager_triple v = (vname v, villager_filename (vname v), vurl v)"

definition listing :: "(string \<times> string \<times> json) list \<Rightarrow> (string \<times> string) list" where
  "listing items = map (\<lambda>(n, f, u). (n, f)) items"

text \<open>The records of a list of pages that pass the tests of fetch-villagers.js.\<close>

fun candidates :: "json list \<Rightarrow> villager list" where
  "candidates [] = []"
| "candidates (page # pages) =
     (case villager_item page of
        Inr (Some v) \<Rightarrow> v # candidates pages
      | _ \<Rightarrow> candidates pages)"

text \<open>A chain of redirects: every URL of the list but the last answers 301 or 302 with
  the next one as \<open>Location\<close>.\<close>

fun redirects :: "world \<Rightarrow> json option list \<Rightarrow> bool" where
  "redirects w (u # v # us) =
     ((case image_server w u of
         Response c loc b \<Rightarrow> (c = 301 \<or> c = 302) \<and> loc = v
       | _ \<Rightarrow> False)
      \<and> redirects w (v # us))"
| "redirects w us = True"



text \<open>The bodies the API serves along the continuations the driver sends, from the
  request made with the token \<open>tok\<close> to a response without continuation; and the pages
  of these responses, in order.\<close>

fun served :: "api \<Rightarrow> string \<Rightarrow> string \<Rightarrow> json option \<Rightarrow> json list \<Rightarrow> bool" where
  "served net e t tok [] = False"
| "served net e t tok (d # ds) =
     ((case query_params t tok of Inl x \<Rightarrow> False | Inr ps \<Rightarrow> fetchJson net e ps = Inr d)
      \<and> (if ds = [] then \<not> truthy_opt (get_prop d ''continue'')
          else truthy_opt (get_prop d ''continue'')
               \<and> served net e t (get_prop d ''continue'') ds))"

fun pages_of :: "json list \<Rightarrow> error + json list" where
  "pages_of [] = Inr []"
| "pages_of (d # ds) =
     (case response_pages d of
        Inl x \<Rightarrow> Inl x
      | Inr ps \<Rightarrow> (case pages_of ds of Inl x \<Rightarrow> Inl x | Inr qs \<Rightarrow> Inr (ps @ qs)))"

section \<open>Concrete inputs\<close>

definition io0 :: io where
  "io0 = \<lparr>files = Map.empty, manifest = None, console = [], requests = []\<rparr>"

text \<open>A collation under which all names are equal: the stable sort keeps the order of
  insertion.\<close>

definition no_collation :: "string \<Rightarrow> string \<Rightarrow> int" where
  "no_collation a b = 0"

definition file_page :: "string \<Rightarrow> string \<Rightarrow> json" where
  "file_page title u =
     JObj [(''title'', JStr title), (''imageinfo'', JArr [JObj [(''url'', JStr u)]])]"

text \<open>An API that answers every request with one batch of ten files, five for each
  script, and no continuation.\<close>

definition ten_pages :: json where
  "ten_pages = JObj [(''query'', JObj [(''pages'', JObj
     [(''11'', file_page ''File:A.png'' ''u1''), (''12'', file_page ''File:B.png'' ''u2''),
      (''13'', file_page ''File:C.png'' ''u3''), (''14'', file_page ''File:D.png'' ''u4''),
      (''15'', file_page ''File:E.png'' ''u5''),
      (''21'', file_page ''File:NH-Ace poster.png'' ''u1''),
      (''22'', file_page ''File:NH-Bea poster.png'' ''u2''),
      (''23'', file_page ''File:NH-Cat poster.png'' ''u3''),
      (''24'', file_page ''File:NH-Dom poster.png'' ''u4''),
      (''25'', file_page ''File:NH-Eve poster.png'' ''u5'')])])]"

definition ten_api :: api where
  "ten_api endpoint ps = ApiResponse 200 (Some ten_pages)"

definition five_images :: "image list" where
  "five_images =
     [\<lparr>name = ''A'', filename = ''A.png'', url = JStr ''u1''\<rparr>,
      \<lparr>name = ''B'', filename = ''B.png'', url = JStr ''u2''\<rparr>,
      \<lparr>name = ''C'', filename = ''C.png'', url = JStr ''u3''\<rparr>,
      \<lparr>name = ''D'', filename = ''D.png'', url = JStr ''u4''\<rparr>,
      \<lparr>name = ''E'', filename = ''E.png'', url = JStr ''u5''\<rparr>]"

definition five_villagers :: "villager list" where
  "five_villagers =
     [\<lparr>vname = ''Ace'', vurl = JStr ''u1'', isSq = False\<rparr>,
      \<lparr>vname = ''Bea'', vurl = JStr ''u2'', isSq = False\<rparr>,
      \<lparr>vname = ''Cat'', vurl = JStr ''u3'', isSq = False\<rparr>,
      \<lparr>vname = ''Dom'', vurl = JStr ''u4'', isSq = False\<rparr>,
      \<lparr>vname = ''Eve'', vurl = JStr ''u5'', isSq = False\<rparr>]"

text \<open>Image servers: one that serves every URL, one that answers 500 for the third.\<close>

definition all_ok :: world where
  "all_ok = \<lparr>api_server = ten_api, image_server = (\<lambda>u. Response 200 None ''img''),
             disk = (\<lambda>f. Finishes)\<rparr>"

definition third_fails :: world where
  "third_fails =
     \<lparr>api_server = ten_api,
      image_server = (\<lambda>u. if u = Some (JStr ''u3'') then Response 500 None [] else Response 200 None ''img''),
      disk = (\<lambda>f. Finishes)\<rparr>"

text \<open>An API that cannot be reached, and one that answers 503 with an error body.\<close>

definition api_down :: world where
  "api_down = \<lparr>api_server = (\<lambda>endpoint ps. ApiError ''ENOTFOUND''),
               image_server = (\<lambda>u. Response 200 None ''img''), disk = (\<lambda>f. Finishes)\<rparr>"

definition error_body :: json where
  "error_body = JObj [(''error'', JObj [(''code'', JStr ''readonly''),
                                       (''info'', JStr ''The wiki is in read-only mode'')])]"

definition outage :: world where
  "outage = \<lparr>api_server = (\<lambda>endpoint ps. ApiResponse 503 (Some error_body)),
             image_server = (\<lambda>u. Response 200 None ''img''), disk = (\<lambda>f. Finishes)\<rparr>"

text \<open>An image server that redirects six times before it serves the image, one that
  redirects a URL to itself, and a disk that fails after three characters.\<close>

definition six_hops :: world where
  "six_hops =
     \<lparr>api_server = ten_api,
      image_server = (\<lambda>u.
         if u = Some (JStr ''h0'') then Response 302 (Some (JStr ''h1'')) []
         else if u = Some (JStr ''h1'') then Response 302 (Some (JStr ''h2'')) []
         else if u = Some (JStr ''h2'') then Response 302 (Some (JStr ''h3'')) []
         else if u = Some (JStr ''h3'') then Response 302 (Some (JStr ''h4'')) []
         else if u = Some (JStr ''h4'') then Response 302 (Some (JStr ''h5'')) []
         else if u = Some (JStr ''h5'') then Response 302 (Some (JStr ''h6'')) []
         else if u = Some (JStr ''h6'') then Response 200 None ''img''
         else if u = Some (JStr ''loop'') then Response 301 (Some (JStr ''loop'')) []
         else RequestFails ''ENOTFOUND''),
      disk = (\<lambda>f. Finishes)\<rparr>"

definition six_urls :: "json option list" where
  "six_urls = map (\<lambda>h. Some (JStr h)) [''h0'', ''h1'', ''h2'', ''h3'', ''h4'', ''h5'', ''h6'']"


definition old_file :: io where
  "old_file = \<lparr>files = [''A.png'' \<mapsto> ''previous''], manifest = None, console = [], requests = []\<rparr>"


text \<open>An API that answers with the body \<open>null\<close>.\<close>

definition null_body :: world where
  "null_body = \<lparr>api_server = (\<lambda>endpoint ps. ApiResponse 200 (Some JNull)),
                image_server = (\<lambda>u. Response 200 None ''img''), disk = (\<lambda>f. Finishes)\<rparr>"

text \<open>Pages of the villager wiki: a square poster followed by two posters of the same
  villager; and two titles that differ by an underscore.\<close>

definition bob_pages :: "json list" where
  "bob_pages =
     [file_page ''File:NH-Bob poster sq.png'' ''sq'',
      file_page ''File:NH-Bob poster.png'' ''first'',
      file_page ''File:NH-Bob poster.png'' ''second'']"

definition underscore_api :: api where
  "underscore_api endpoint ps =
     ApiResponse 200 (Some (JObj [(''query'', JObj [(''pages'', JObj
       [(''31'', file_page ''File:NH-A B poster.png'' ''u1''),
        (''32'', file_page ''File:NH-A_B poster.png'' ''u2'')])])]))"

definition underscore_world :: world where
  "underscore_world = \<lparr>api_server = underscore_api,
                       image_server = (\<lambda>u. Response 200 None ''img''), disk = (\<lambda>f. Finishes)\<rparr>"

text \<open>An API that serves the square poster of Bob first, with a continuation of the
  form the scripts read, and the two other posters in a second response.\<close>

definition bob_first_batch :: json where
  "bob_first_batch =
     JObj [(''continue'', JObj [(''key'', JStr ''c''), (''value'', JStr ''2'')]),
           (''query'', JObj [(''pages'', JObj
              [(''41'', file_page ''File:NH-Bob poster sq.png'' ''sq'')])])]"

definition bob_last_batch :: json where
  "bob_last_batch =
     JObj [(''query'', JObj [(''pages'', JObj
              [(''42'', file_page ''File:NH-Bob poster.png'' ''first''),
               (''43'', file_page ''File:NH-Bob poster.png'' ''second'')])])]"

definition two_batch_api :: api where
  "two_batch_api endpoint ps =
     (if map_of ps ''c'' = Some ''2'' then ApiResponse 200 (Some bob_last_batch)
      else ApiResponse 200 (Some bob_first_batch))"

text \<open>An API that lists the poster of Bob without \<open>imageinfo\<close> and his square poster
  with it.\<close>

definition missing_url_batch :: json where
  "missing_url_batch =
     JObj [(''query'', JObj [(''pages'', JObj
       [(''51'', JObj [(''title'', JStr ''File:NH-Bob poster.png'')]),
        (''52'', file_page ''File:NH-Bob poster sq.png'' ''sq'')])])]"

definition missing_url_api :: api where
  "missing_url_api endpoint ps = ApiResponse 200 (Some missing_url_batch)"

text \<open>The continuation of the MediaWiki API, and an API that asks for it.\<close>

definition mw_continue :: json where
  "mw_continue = JObj [(''gimcontinue'', JStr ''12|B.png''), (''continue'', JStr ''gimcontinue||'')]"

definition first_batch :: json where
  "first_batch = JObj [(''continue'', mw_continue),
                       (''query'', JObj [(''pages'', JObj [(''11'', file_page ''File:A.png'' ''u1'')])])]"

definition last_batch :: json where
  "last_batch = JObj [(''query'', JObj [(''pages'', JObj [(''12'', file_page ''File:B.png'' ''u2'')])])]"

definition paged_api :: api where
  "paged_api endpoint ps =
     (if map_of ps ''gimcontinue'' = Some ''12|B.png'' then ApiResponse 200 (Some last_batch)
      else ApiResponse 200 (Some first_batch))"

section \<open>Properties\<close>

lemma dl_effect_trans:
  "dl_effect f (s\<lparr>requests := requests s @ [u]\<rparr>) y \<Longrightarrow> dl_effect f s y"
  by (auto simp: dl_effect_def)

lemma downloadImage_effect_aux:
  assumes "downloadImage w u f s = Some y"
  shows "dl_effect f s y"
proof (rule downloadImage.raw_induct [where P = "\<lambda>w u f s y. dl_effect f s y", OF _ assms])
  fix dl :: "world \<Rightarrow> json option \<Rightarrow> string \<Rightarrow> io \<Rightarrow> ((error + unit) \<times> io) option"
    and w u f s y
  assume IH: "\<And>w u f s y. dl w u f s = Some y \<Longrightarrow> dl_effect f s y"
    and step: "(case image_server w u of
        RequestFails m \<Rightarrow> Some (Inl (RequestError m), s\<lparr>requests := requests s @ [u]\<rparr>)
      | Response statusCode location body \<Rightarrow>
          if statusCode = 301 \<or> statusCode = 302
          then dl w location f (s\<lparr>requests := requests s @ [u]\<rparr>)
          else if statusCode \<noteq> 200
          then Some (Inl (HttpError statusCode), s\<lparr>requests := requests s @ [u]\<rparr>)
          else (case disk w f of
                  Finishes \<Rightarrow>
                    Some (Inr (), s\<lparr>requests := requests s @ [u],
                                     files := (files s)(f \<mapsto> body)\<rparr>)
                | OpenFails m \<Rightarrow>
                    Some (Inl (WriteError m), s\<lparr>requests := requests s @ [u]\<rparr>)
                | WriteFails n m \<Rightarrow>
                    Some (Inl (WriteError m), s\<lparr>requests := requests s @ [u],
                                                 files := (files s)(f \<mapsto> take n body)\<rparr>))
      | BreaksOff part m \<Rightarrow>
          (case disk w f of
             Finishes \<Rightarrow>
               Some (Inl (RequestError m), s\<lparr>requests := requests s @ [u],
                                               files := (files s)(f \<mapsto> part)\<rparr>)
           | OpenFails m' \<Rightarrow>
               Some (Inl (WriteError m'), s\<lparr>requests := requests s @ [u]\<rparr>)
           | WriteFails n m' \<Rightarrow>
               if n < length part
               then Some (Inl (WriteError m'), s\<lparr>requests := requests s @ [u],
                                                  files := (files s)(f \<mapsto> take n part)\<rparr>)
               else Some (Inl (RequestError m), s\<lparr>requests := requests s @ [u],
                                                  files := (files s)(f \<mapsto> part)\<rparr>))
      | Stalls part \<Rightarrow>
          (case disk w f of
             Finishes \<Rightarrow> None
           | OpenFails m' \<Rightarrow>
               Some (Inl (WriteError m'), s\<lparr>requests := requests s @ [u]\<rparr>)
           | WriteFails n m' \<Rightarrow>
               if n < length part
               then Some (Inl (WriteError m'), s\<lparr>requests := requests s @ [u],
                                                  files := (files s)(f \<mapsto> take n part)\<rparr>)
               else None)) = Some y"
  show "dl_effect f s y"
  proof (cases "image_server w u")
    case (RequestFails m)
    with step show ?thesis by (auto simp: dl_effect_def)
  next
    case (Response c loc b)
    show ?thesis
    proof (cases "c = 301 \<or> c = 302")
      case True
      with step Response have "dl w loc f (s\<lparr>requests := requests s @ [u]\<rparr>) = Some y" by auto
      from IH[OF this] show ?thesis by (rule dl_effect_trans)
    next
      case False
      with step Response show ?thesis
        by (cases "disk w f") (auto simp: dl_effect_def split: if_splits)
    qed
  next
    case (BreaksOff part m)
    with step show ?thesis
      by (cases "disk w f") (auto simp: dl_effect_def split: if_splits)
  next
    case (Stalls part)
    with step show ?thesis
      by (cases "disk w f") (auto simp: dl_effect_def split: if_splits)
  qed
qed

lemma downloadImage_effect:
  "downloadImage w u f s = Some (r, s') \<Longrightarrow> dl_effect f s (r, s')"
  by (rule downloadImage_effect_aux)




lemma downloadImage_redirect:
  assumes "image_server w u = Response c loc b" and "c = 301 \<or> c = 302"
  shows "downloadImage w u f s = downloadImage w loc f (s\<lparr>requests := requests s @ [u]\<rparr>)"
  using assms by (subst downloadImage.simps) auto

lemma startsWith_append [simp]: "startsWith (p @ s) p"
  by (induction p) auto

lemma failures_append: "failures (xs @ ys) = failures xs + failures ys"
  by (simp add: failures_def)

lemma mirror_item_present:
  assumes "files s f \<noteq> None"
  shows "mirror_item w note n f u (t, s) =
           Some (t\<lparr>entries := entries t @ [(n, f)], skipped := Suc (skipped t)\<rparr>,
                 s\<lparr>console := console s @ [Write (''  - '' @ n @ note @ [CHR 0x0D])]\<rparr>)"
  using assms by (auto simp: mirror_item_def)

lemma mirror_item_effect:
  assumes "mirror_item w note n f u (t, s) = Some (t', s')"
  shows "entries t' = entries t @ [(n, f)]" and "seen t' = seen t"
    and "manifest s' = manifest s"
    and "\<And>g. g \<noteq> f \<Longrightarrow> files s' g = files s g"
    and "downloaded t' + skipped t' + failures (console s')
           = Suc (downloaded t + skipped t + failures (console s))"
proof -
  show "entries t' = entries t @ [(n, f)]" and "seen t' = seen t"
    using assms by (auto simp: mirror_item_def Let_def split: if_splits option.splits sum.splits)
  show "manifest s' = manifest s"
    using assms
    by (auto simp: mirror_item_def Let_def dl_effect_def split: if_splits option.splits sum.splits
        dest!: downloadImage_effect)
  show "\<And>g. g \<noteq> f \<Longrightarrow> files s' g = files s g"
    using assms
    by (auto simp: mirror_item_def Let_def dl_effect_def split: if_splits option.splits sum.splits
        dest!: downloadImage_effect)
  show "downloaded t' + skipped t' + failures (console s')
           = Suc (downloaded t + skipped t + failures (console s))"
    using assms
    by (auto simp: mirror_item_def Let_def dl_effect_def failures_append failures_def
        startsWith_append
        split: if_splits option.splits sum.splits dest!: downloadImage_effect)
qed

lemma mirror_all_effect:
  assumes "mirror_all w nt items (t, s) = Some (t', s')"
  shows "entries t' = entries t @ listing items \<and> seen t' = seen t \<and> manifest s' = manifest s
         \<and> downloaded t' + skipped t' + failures (console s')
             = downloaded t + skipped t + failures (console s) + length items"
  using assms
proof (induction items arbitrary: t s)
  case Nil
  then show ?case by (simp add: listing_def)
next
  case (Cons x items)
  obtain n f u where x: "x = (n, f, u)" by (cases x)
  from Cons.prems x obtain t1 s1 where
    one: "mirror_item w nt n f u (t, s) = Some (t1, s1)"
    and rest: "mirror_all w nt items (t1, s1) = Some (t', s')"
    by (auto split: option.splits)
  from Cons.IH[OF rest] mirror_item_effect[OF one] x show ?case
    by (simp add: listing_def)
qed

lemma mirror_all_present:
  assumes "\<forall>(n, f, u) \<in> set items. files s f \<noteq> None"
  shows "\<exists>t' s'. mirror_all w nt items (t, s) = Some (t', s')
           \<and> requests s' = requests s \<and> files s' = files s
           \<and> skipped t' = skipped t + length items \<and> downloaded t' = downloaded t"
  using assms
proof (induction items arbitrary: t s)
  case Nil
  then show ?case by simp
next
  case (Cons x items)
  obtain n f u where x: "x = (n, f, u)" by (cases x)
  with Cons.prems have pres: "files s f \<noteq> None" by simp
  let ?t1 = "t\<lparr>entries := entries t @ [(n, f)], skipped := Suc (skipped t)\<rparr>"
  let ?s1 = "s\<lparr>console := console s @ [Write (''  - '' @ n @ nt @ [CHR 0x0D])]\<rparr>"
  have "\<forall>(n, f, u) \<in> set items. files ?s1 f \<noteq> None" using Cons.prems by auto
  from Cons.IH[OF this, of ?t1] mirror_item_present[OF pres, of w nt n u t] x
  show ?case by auto
qed

lemma mirror_item_total:
  assumes "downloadImage w (Some u) f (snd ts) \<noteq> None"
  shows "mirror_item w nt n f u ts \<noteq> None"
  using assms by (auto simp: mirror_item_def Let_def split: option.splits sum.splits)

lemma mirror_all_total:
  assumes "\<forall>u f s. downloadImage w u f s \<noteq> None"
  shows "mirror_all w nt items ts \<noteq> None"
proof (induction items arbitrary: ts)
  case Nil
  show ?case by simp
next
  case (Cons x items)
  obtain n f u where x: "x = (n, f, u)" by (cases x)
  from assms have "mirror_item w nt n f u ts \<noteq> None" by (intro mirror_item_total) simp
  with Cons.IH x show ?case by auto
qed

lemma mirror_item_seen:
  "mirror_item w nt n f u (t\<lparr>seen := S\<rparr>, s)
     = map_option (\<lambda>(t', s'). (t'\<lparr>seen := S\<rparr>, s')) (mirror_item w nt n f u (t, s))"
  by (auto simp: mirror_item_def Let_def split: option.splits sum.splits)

lemma mirror_all_seen:
  "mirror_all w nt items (t\<lparr>seen := S\<rparr>, s)
     = map_option (\<lambda>(t', s'). (t'\<lparr>seen := S\<rparr>, s')) (mirror_all w nt items (t, s))"
proof (induction items arbitrary: t s)
  case Nil
  show ?case by simp
next
  case (Cons x items)
  obtain n f u where x: "x = (n, f, u)" by (cases x)
  show ?case
    by (cases "mirror_item w nt n f u (t, s)") (auto simp: x mirror_item_seen Cons.IH)
qed

lemma funko_mirror_eq:
  "funko_mirror w images (t, s)
     = map_option (\<lambda>(t', s'). (t'\<lparr>seen := seen t \<union> safeFilename ` filename ` set images\<rparr>, s'))
         (mirror_all w '' (skipped)'' (funko_new (seen t) images) (t, s))"
proof (induction images arbitrary: t s)
  case Nil
  show ?case by simp
next
  case (Cons i images)
  let ?safe = "safeFilename (filename i)"
  show ?case
  proof (cases "?safe \<in> seen t")
    case True
    then have "seen t \<union> safeFilename ` filename ` set (i # images)
                 = seen t \<union> safeFilename ` filename ` set images" by auto
    with True Cons.IH[of t s] show ?thesis by simp
  next
    case False
    show ?thesis
    proof (cases "mirror_item w '' (skipped)'' (name i) ?safe (url i) (t, s)")
      case None
      with False show ?thesis by (simp add: mirror_item_seen)
    next
      case (Some ts1)
      obtain t1 s1 where ts1: "ts1 = (t1, s1)" by (cases ts1)
      from mirror_item_effect(2)[OF Some[unfolded ts1]] have st: "seen t1 = seen t" .
      have un: "insert ?safe (seen t) \<union> safeFilename ` filename ` set images
                 = seen t \<union> safeFilename ` filename ` set (i # images)" by auto
      have "funko_mirror w (i # images) (t, s)
              = funko_mirror w images (t1\<lparr>seen := insert ?safe (seen t)\<rparr>, s1)"
        using False Some ts1 by (simp add: mirror_item_seen)
      also have "\<dots> = map_option (\<lambda>(t', s'). (t'\<lparr>seen := seen t \<union> safeFilename ` filename ` set (i # images)\<rparr>, s'))
         (mirror_all w '' (skipped)'' (funko_new (insert ?safe (seen t)) images)
            (t1\<lparr>seen := insert ?safe (seen t)\<rparr>, s1))"
        by (simp add: Cons.IH un)
      also have "\<dots> = map_option (\<lambda>(t', s'). (t'\<lparr>seen := seen t \<union> safeFilename ` filename ` set (i # images)\<rparr>, s'))
         (mirror_all w '' (skipped)'' (funko_new (insert ?safe (seen t)) images) (t1, s1))"
        by (simp add: mirror_all_seen option.map_comp comp_def split_def)
      finally show ?thesis using False Some ts1 by simp
    qed
  qed
qed

lemma villagers_mirror_eq:
  "villagers_mirror w vs ts = mirror_all w '' (skipped, exists)'' (map villager_triple vs) ts"
  by (induction vs arbitrary: ts) (auto simp: villager_triple_def split: option.splits)

lemma funko_new_distinct:
  "distinct (map (\<lambda>x. fst (snd x)) (funko_new S images))
   \<and> (\<forall>x \<in> set (funko_new S images). fst (snd x) \<notin> S)"
proof (induction images arbitrary: S)
  case Nil
  show ?case by simp
next
  case (Cons i images)
  from Cons.IH[of S] Cons.IH[of "insert (safeFilename (filename i)) S"]
  show ?case by (auto simp: image_iff)
qed

lemma done_line_seen: "done_line (t\<lparr>seen := S\<rparr>) = done_line t"
  by (simp add: done_line_def)

lemma funko_main_char:
  "funko_main w s =
     (case funko_harvest w (s\<lparr>console := console s @
                [Log ''Fetching Harry Potter Funko list from Fandom API...'']\<rparr>) of
        None \<Rightarrow> None
      | Some (images, s1) \<Rightarrow>
          (case mirror_all w '' (skipped)'' (funko_new {} images) (tally0, s1) of
             None \<Rightarrow> None
           | Some (t, s2) \<Rightarrow>
               Some (t\<lparr>seen := safeFilename ` filename ` set images\<rparr>,
                     s2\<lparr>manifest := Some (entries t),
                        console := console s2 @
                          [done_line t, Log (''Funko list written to '' @ funko_JSON)]\<rparr>)))"
proof -
  have s0: "seen tally0 = {}" by (simp add: tally0_def)
  show ?thesis
    unfolding funko_main_def funko_mirror_eq s0
    by (auto split: option.splits simp: done_line_seen)
qed

lemma villagers_main_char:
  "villagers_main cmp w s =
     (case fetchAllVillagerImages cmp (api_server w) of
        None \<Rightarrow> None
      | Some (issued, Inl err) \<Rightarrow>
          Some (Inl err, s\<lparr>console := console s @ [Log ''Fetching villager list from Fandom API...'']\<rparr>)
      | Some (issued, Inr vs) \<Rightarrow>
          (case mirror_all w '' (skipped, exists)'' (map villager_triple vs)
                  (tally0, s\<lparr>console := console s @
                     [Log ''Fetching villager list from Fandom API...'',
                      Log (''Found '' @ show_nat (length vs) @ '' villager posters.'' @ [CHR 0x0A])]\<rparr>) of
             None \<Rightarrow> None
           | Some (t, s2) \<Rightarrow>
               Some (Inr t,
                     s2\<lparr>manifest := Some (entries t),
                        console := console s2 @
                          [done_line t, Log (''Villager list written to '' @ villagers_JSON)]\<rparr>)))"
  unfolding villagers_main_def villagers_mirror_eq Let_def
  by (auto split: option.splits sum.splits)

lemma not_failure_lines [simp]:
  "\<not> is_failure_line (Error (''API failed: '' @ m))"
  "\<not> is_failure_line (done_line t)"
  by (simp_all add: done_line_def)

lemma failures_Cons [simp]:
  "failures [] = 0"
  "failures (l # ls) = (if is_failure_line l then Suc (failures ls) else failures ls)"
  by (simp_all add: failures_def)

lemma funko_harvest_effect:
  assumes "funko_harvest w s = Some (images, s1)"
  shows "files s1 = files s" and "requests s1 = requests s" and "manifest s1 = manifest s"
    and "failures (console s1) = failures (console s)"
  using assms
  by (auto simp: funko_harvest_def failures_append split: option.splits sum.splits)

lemma funko_harvest_api:
  assumes "funko_harvest w s = Some (images, s1)" and "api_server w2 = api_server w"
  shows "\<exists>s3. funko_harvest w2 s2 = Some (images, s3)"
  using assms by (auto simp: funko_harvest_def split: option.splits sum.splits)

lemma tally0_simps [simp]:
  "seen tally0 = {}" "entries tally0 = []" "downloaded tally0 = 0" "skipped tally0 = 0"
  by (simp_all add: tally0_def)

text \<open>
  C7. An item whose file already exists when the loop reaches it is counted as skipped,
  and no request is sent to an image server for it. Hence, after a run of either script
  that returned, a second run against the same API and an output directory that holds
  the file of every manifest entry returns, sends no request to an image server, leaves
  the files as they are, skips every item and writes the same manifest.
\<close>

theorem second_run_skips_everything:
  "(files s f \<noteq> None \<longrightarrow>
      (\<exists>t' s'. mirror_item w nt n f u (t, s) = Some (t', s')
         \<and> skipped t' = Suc (skipped t) \<and> downloaded t' = downloaded t
         \<and> requests s' = requests s \<and> files s' = files s))
   \<and> (funko_main w s = Some (t1, s1) \<and> api_server w2 = api_server w
        \<and> (\<forall>(n, f) \<in> set (entries t1). files s2 f \<noteq> None) \<longrightarrow>
      (\<exists>t2 s2'. funko_main w2 s2 = Some (t2, s2')
         \<and> requests s2' = requests s2 \<and> files s2' = files s2 \<and> manifest s2' = manifest s1
         \<and> skipped t2 = length (entries t1) \<and> downloaded t2 = 0))
   \<and> (villagers_main cmp w s = Some (Inr t1, s1) \<and> api_server w2 = api_server w
        \<and> (\<forall>(n, f) \<in> set (entries t1). files s2 f \<noteq> None) \<longrightarrow>
      (\<exists>t2 s2'. villagers_main cmp w2 s2 = Some (Inr t2, s2')
         \<and> requests s2' = requests s2 \<and> files s2' = files s2 \<and> manifest s2' = manifest s1
         \<and> skipped t2 = length (entries t1) \<and> downloaded t2 = 0))"
proof (intro conjI impI)
  assume "files s f \<noteq> None"
  from mirror_item_present[OF this, of w nt n u t]
  show "\<exists>t' s'. mirror_item w nt n f u (t, s) = Some (t', s')
         \<and> skipped t' = Suc (skipped t) \<and> downloaded t' = downloaded t
         \<and> requests s' = requests s \<and> files s' = files s"
    by simp
next
  let ?hello = "Log ''Fetching Harry Potter Funko list from Fandom API...''"
  assume a: "funko_main w s = Some (t1, s1) \<and> api_server w2 = api_server w
        \<and> (\<forall>(n, f) \<in> set (entries t1). files s2 f \<noteq> None)"
  then obtain images sa ta sb where
    h: "funko_harvest w (s\<lparr>console := console s @ [?hello]\<rparr>) = Some (images, sa)"
    and m: "mirror_all w '' (skipped)'' (funko_new {} images) (tally0, sa) = Some (ta, sb)"
    and t1: "t1 = ta\<lparr>seen := safeFilename ` filename ` set images\<rparr>"
    and s1: "manifest s1 = Some (entries ta)"
    by (auto simp: funko_main_char split: option.splits)
  from mirror_all_effect[OF m] have ent: "entries ta = listing (funko_new {} images)" by simp
  from funko_harvest_api[OF h, of w2 "s2\<lparr>console := console s2 @ [?hello]\<rparr>"] a
  obtain sc where h2: "funko_harvest w2 (s2\<lparr>console := console s2 @ [?hello]\<rparr>) = Some (images, sc)"
    by auto
  from funko_harvest_effect[OF h2] have fc: "files sc = files s2" "requests sc = requests s2"
    by simp_all
  from a t1 ent have "\<forall>(n, f, u) \<in> set (funko_new {} images). files sc f \<noteq> None"
    by (auto simp: listing_def fc)
  from mirror_all_present[OF this, of w2 "'' (skipped)''" tally0]
  obtain tb sd where m2: "mirror_all w2 '' (skipped)'' (funko_new {} images) (tally0, sc) = Some (tb, sd)"
    and r: "requests sd = requests sc" "files sd = files sc"
      "skipped tb = length (funko_new {} images)" "downloaded tb = 0"
    by auto
  from mirror_all_effect[OF m2] have ent2: "entries tb = listing (funko_new {} images)" by simp
  show "\<exists>t2 s2'. funko_main w2 s2 = Some (t2, s2')
         \<and> requests s2' = requests s2 \<and> files s2' = files s2 \<and> manifest s2' = manifest s1
         \<and> skipped t2 = length (entries t1) \<and> downloaded t2 = 0"
    using h2 m2 r fc ent ent2 s1 t1 by (simp add: funko_main_char listing_def)
next
  let ?hello = "Log ''Fetching villager list from Fandom API...''"
  assume a: "villagers_main cmp w s = Some (Inr t1, s1) \<and> api_server w2 = api_server w
        \<and> (\<forall>(n, f) \<in> set (entries t1). files s2 f \<noteq> None)"
  then obtain issued vs sb where
    h: "fetchAllVillagerImages cmp (api_server w) = Some (issued, Inr vs)"
    and m: "mirror_all w '' (skipped, exists)'' (map villager_triple vs)
              (tally0, s\<lparr>console := console s @ [?hello,
                 Log (''Found '' @ show_nat (length vs) @ '' villager posters.'' @ [CHR 0x0A])]\<rparr>)
              = Some (t1, sb)"
    and s1: "manifest s1 = Some (entries t1)"
    by (auto simp: villagers_main_char split: option.splits sum.splits)
  from mirror_all_effect[OF m] have ent: "entries t1 = listing (map villager_triple vs)" by simp
  let ?sc = "s2\<lparr>console := console s2 @ [?hello,
                 Log (''Found '' @ show_nat (length vs) @ '' villager posters.'' @ [CHR 0x0A])]\<rparr>"
  from a ent have "\<forall>(n, f, u) \<in> set (map villager_triple vs). files ?sc f \<noteq> None"
    by (auto simp: listing_def)
  from mirror_all_present[OF this, of w2 "'' (skipped, exists)''" tally0]
  obtain tb sd where m2: "mirror_all w2 '' (skipped, exists)'' (map villager_triple vs) (tally0, ?sc) = Some (tb, sd)"
    and r: "requests sd = requests ?sc" "files sd = files ?sc"
      "skipped tb = length (map villager_triple vs)" "downloaded tb = 0"
    by auto
  from mirror_all_effect[OF m2] have ent2: "entries tb = listing (map villager_triple vs)" by simp
  show "\<exists>t2 s2'. villagers_main cmp w2 s2 = Some (Inr t2, s2')
         \<and> requests s2' = requests s2 \<and> files s2' = files s2 \<and> manifest s2' = manifest s1
         \<and> skipped t2 = length (entries t1) \<and> downloaded t2 = 0"
    using h m2 r ent ent2 s1 a by (simp add: villagers_main_char listing_def)
qed

lemma mirror_item_download:
  assumes "files s f = None" and "downloadImage w (Some u) f s = Some (r, s1)"
  shows "mirror_item w nt n f u (t, s) =
           Some (case r of
                   Inr x \<Rightarrow> (t\<lparr>entries := entries t @ [(n, f)], downloaded := Suc (downloaded t)\<rparr>,
                             s1\<lparr>console := console s1 @ [Log (''  '' @ check_mark @ '' '' @ n)]\<rparr>)
                 | Inl e \<Rightarrow> (t\<lparr>entries := entries t @ [(n, f)]\<rparr>,
                             s1\<lparr>console := console s1 @
                                  [Error (''  '' @ cross_mark @ '' '' @ n @ '': '' @ message e)]\<rparr>))"
  using assms by (auto simp: mirror_item_def Let_def split: sum.splits)

lemma mirror_all_append:
  "mirror_all w nt (xs @ ys) ts =
     (case mirror_all w nt xs ts of None \<Rightarrow> None | Some ts' \<Rightarrow> mirror_all w nt ys ts')"
proof (induction xs arbitrary: ts)
  case Nil
  show ?case by simp
next
  case (Cons x xs)
  obtain n f u where x: "x = (n, f, u)" by (cases x)
  show ?case by (cases "mirror_item w nt n f u ts") (simp_all add: x Cons.IH)
qed

lemma is_failure_line_cross [simp]:
  "is_failure_line (Error (''  '' @ cross_mark @ rest))"
  "\<not> is_failure_line (Log m)" "\<not> is_failure_line (Write m)"
  using startsWith_append[of "''  '' @ cross_mark" rest] by simp_all

lemma mirror_all_good:
  assumes "distinct (map (\<lambda>x. fst (snd x)) items)"
    and "\<forall>(n, f, u) \<in> set items. files s f = None"
    and "\<forall>(n, f, u) \<in> set items. \<forall>s. \<exists>s'. downloadImage w (Some u) f s = Some (Inr (), s')"
  shows "\<exists>t' s'. mirror_all w nt items (t, s) = Some (t', s')
           \<and> downloaded t' = downloaded t + length items \<and> skipped t' = skipped t
           \<and> failures (console s') = failures (console s)
           \<and> (\<forall>g. g \<notin> set (map (\<lambda>x. fst (snd x)) items) \<longrightarrow> files s' g = files s g)
           \<and> (\<forall>g \<in> set (map (\<lambda>x. fst (snd x)) items). files s' g \<noteq> None)"
  using assms
proof (induction items arbitrary: t s)
  case Nil
  show ?case by simp
next
  case (Cons x items)
  obtain n f u where x: "x = (n, f, u)" by (cases x)
  from Cons.prems x have absent: "files s f = None" by simp
  from Cons.prems(3) x obtain s1 where dl: "downloadImage w (Some u) f s = Some (Inr (), s1)"
    by fastforce
  from downloadImage_effect[OF dl]
  have eff: "console s1 = console s" "\<And>g. g \<noteq> f \<Longrightarrow> files s1 g = files s g"
    "files s1 f \<noteq> None"
    by (simp_all add: dl_effect_def)
  let ?t1 = "t\<lparr>entries := entries t @ [(n, f)], downloaded := Suc (downloaded t)\<rparr>"
  let ?s1 = "s1\<lparr>console := console s1 @ [Log (''  '' @ check_mark @ '' '' @ n)]\<rparr>"
  have one: "mirror_item w nt n f u (t, s) = Some (?t1, ?s1)"
    using mirror_item_download[OF absent dl] by simp
  have d: "distinct (map (\<lambda>x. fst (snd x)) items)" and nf: "f \<notin> set (map (\<lambda>x. fst (snd x)) items)"
    using Cons.prems(1) x by auto
  have "\<forall>(n', f', u') \<in> set items. files ?s1 f' = None"
  proof (clarify)
    fix n' f' u' assume m: "(n', f', u') \<in> set items"
    then have "f' \<noteq> f" using nf by force
    moreover from m Cons.prems(2) have "files s f' = None" by force
    ultimately show "files ?s1 f' = None" using eff(2) by auto
  qed
  moreover have "\<forall>(n, f, u) \<in> set items. \<forall>s. \<exists>s'. downloadImage w (Some u) f s = Some (Inr (), s')"
    using Cons.prems(3) by auto
  ultimately obtain t' s' where r: "mirror_all w nt items (?t1, ?s1) = Some (t', s')"
    "downloaded t' = downloaded ?t1 + length items" "skipped t' = skipped ?t1"
    "failures (console s') = failures (console ?s1)"
    "\<forall>g. g \<notin> set (map (\<lambda>x. fst (snd x)) items) \<longrightarrow> files s' g = files ?s1 g"
    "\<forall>g \<in> set (map (\<lambda>x. fst (snd x)) items). files s' g \<noteq> None"
    using Cons.IH[OF d, of ?s1 ?t1] by blast
  have "files s' f \<noteq> None" using r(5) nf eff(3) by simp
  then show ?case
    using one r eff(1,2) x by (auto simp: failures_append)
qed

lemma mirror_all_one_failure:
  assumes "distinct (map (\<lambda>x. fst (snd x)) (pre @ (n, f, u) # post))"
    and "\<forall>(n, f, u) \<in> set (pre @ (n, f, u) # post). files s f = None"
    and "\<forall>(n, f, u) \<in> set (pre @ post). \<forall>s. \<exists>s'. downloadImage w (Some u) f s = Some (Inr (), s')"
    and "\<forall>s. \<exists>s'. downloadImage w (Some u) f s = Some (Inl (HttpError code), s')"
  shows "\<exists>t' s'. mirror_all w nt (pre @ (n, f, u) # post) (t, s) = Some (t', s')
           \<and> downloaded t' = downloaded t + length pre + length post \<and> skipped t' = skipped t
           \<and> failures (console s') = Suc (failures (console s))"
proof -
  have dpre: "distinct (map (\<lambda>x. fst (snd x)) pre)" and dpost: "distinct (map (\<lambda>x. fst (snd x)) post)"
    and fpre: "f \<notin> set (map (\<lambda>x. fst (snd x)) pre)" and fpost: "f \<notin> set (map (\<lambda>x. fst (snd x)) post)"
    and disj: "set (map (\<lambda>x. fst (snd x)) pre) \<inter> set (map (\<lambda>x. fst (snd x)) post) = {}"
    using assms(1) by auto
  have "\<forall>(n, f, u) \<in> set pre. files s f = None" using assms(2) by auto
  moreover have "\<forall>(n, f, u) \<in> set pre. \<forall>s. \<exists>s'. downloadImage w (Some u) f s = Some (Inr (), s')"
    using assms(3) by auto
  ultimately obtain t1 s1 where r1: "mirror_all w nt pre (t, s) = Some (t1, s1)"
    "downloaded t1 = downloaded t + length pre" "skipped t1 = skipped t"
    "failures (console s1) = failures (console s)"
    "\<forall>g. g \<notin> set (map (\<lambda>x. fst (snd x)) pre) \<longrightarrow> files s1 g = files s g"
    using mirror_all_good[OF dpre, of s w nt t] by blast
  have absent: "files s1 f = None" using r1(5) fpre assms(2) by auto
  from assms(4) obtain s2 where dl: "downloadImage w (Some u) f s1 = Some (Inl (HttpError code), s2)"
    by blast
  from downloadImage_effect[OF dl]
  have eff: "console s2 = console s1" "\<And>g. g \<noteq> f \<Longrightarrow> files s2 g = files s1 g"
    by (simp_all add: dl_effect_def)
  let ?t2 = "t1\<lparr>entries := entries t1 @ [(n, f)]\<rparr>"
  let ?s2 = "s2\<lparr>console := console s2 @
               [Error (''  '' @ cross_mark @ '' '' @ n @ '': '' @ message (HttpError code))]\<rparr>"
  have one: "mirror_item w nt n f u (t1, s1) = Some (?t2, ?s2)"
    using mirror_item_download[OF absent dl] by simp
  have "\<forall>(n', f', u') \<in> set post. files ?s2 f' = None"
  proof (clarify)
    fix n' f' u' assume m: "(n', f', u') \<in> set post"
    then have "f' \<noteq> f" using fpost by force
    moreover from m disj have "f' \<notin> set (map (\<lambda>x. fst (snd x)) pre)" by force
    moreover from m assms(2) have "files s f' = None" by force
    ultimately show "files ?s2 f' = None" using eff(2) r1(5) by auto
  qed
  moreover have "\<forall>(n, f, u) \<in> set post. \<forall>s. \<exists>s'. downloadImage w (Some u) f s = Some (Inr (), s')"
    using assms(3) by auto
  ultimately obtain t3 s3 where r3: "mirror_all w nt post (?t2, ?s2) = Some (t3, s3)"
    "downloaded t3 = downloaded ?t2 + length post" "skipped t3 = skipped ?t2"
    "failures (console s3) = failures (console ?s2)"
    using mirror_all_good[OF dpost, of ?s2 w nt ?t2] by blast
  have "mirror_all w nt (pre @ (n, f, u) # post) (t, s) = Some (t3, s3)"
    using r1(1) one r3(1) by (simp add: mirror_all_append)
  then show ?thesis
    using r1 r3 eff by (auto simp: failures_append)
qed

lemma funko_new_all:
  assumes "distinct (map (\<lambda>i. safeFilename (filename i)) images)"
    and "\<forall>i \<in> set images. safeFilename (filename i) \<notin> S"
  shows "funko_new S images = map (\<lambda>i. (name i, safeFilename (filename i), url i)) images"
  using assms
proof (induction images arbitrary: S)
  case Nil
  show ?case by simp
next
  case (Cons a images)
  have "distinct (map (\<lambda>i. safeFilename (filename i)) images)"
    using Cons.prems by simp
  moreover have "\<forall>i \<in> set images. safeFilename (filename i) \<notin> insert (safeFilename (filename a)) S"
    using Cons.prems by (auto simp: image_iff)
  ultimately have "funko_new (insert (safeFilename (filename a)) S) images
                     = map (\<lambda>i. (name i, safeFilename (filename i), url i)) images"
    by (rule Cons.IH)
  with Cons.prems show ?case by simp
qed

lemma mirror_all_total_items:
  assumes "\<forall>(n, f, u) \<in> set items. \<forall>s. downloadImage w (Some u) f s \<noteq> None"
  shows "mirror_all w nt items ts \<noteq> None"
  using assms
proof (induction items arbitrary: ts)
  case Nil
  show ?case by simp
next
  case (Cons x items)
  obtain n f u where x: "x = (n, f, u)" by (cases x)
  from Cons.prems x have "mirror_item w nt n f u ts \<noteq> None" by (intro mirror_item_total) simp
  with Cons x show ?case by auto
qed

lemma listing_map:
  "listing (map (\<lambda>i. (name i, safeFilename (filename i), url i)) images)
     = map (\<lambda>i. (name i, safeFilename (filename i))) images"
  "listing (map villager_triple vs) = map (\<lambda>v. (vname v, villager_filename (vname v))) vs"
  by (simp_all add: listing_def villager_triple_def)

lemma done_line_4_0:
  "downloaded t = 4 \<Longrightarrow> skipped t = 0
     \<Longrightarrow> done_line t = Log (CHR 0x0A # ''Done! Downloaded 4, skipped 0.'')"
  by (simp add: done_line_def show_nat.simps)

text \<open>
  C8, as amended. The manifest of a run that returned lists every item of the harvested
  list (in fetch-funko-hp.js the fallback list when the driver failed, and one item for
  each sanitised file name), whatever became of its download: the entry is recorded
  before the file is looked for. The number of entries is the number of downloaded
  items plus the number of skipped items plus the number of failures reported.
\<close>

theorem manifest_lists_every_item:
  "(funko_main w s = Some (t, s') \<longrightarrow>
      (\<exists>images s1 es.
          funko_harvest w (s\<lparr>console := console s @
              [Log ''Fetching Harry Potter Funko list from Fandom API...'']\<rparr>) = Some (images, s1)
          \<and> es = listing (funko_new {} images) \<and> manifest s' = Some es \<and> entries t = es
          \<and> downloaded t + skipped t + failures (console s') = length es + failures (console s)))
   \<and> (villagers_main cmp w s = Some (Inr t, s') \<longrightarrow>
      (\<exists>issued vs es.
          fetchAllVillagerImages cmp (api_server w) = Some (issued, Inr vs)
          \<and> es = listing (map villager_triple vs) \<and> manifest s' = Some es \<and> entries t = es
          \<and> downloaded t + skipped t + failures (console s') = length es + failures (console s)))"
proof (intro conjI impI)
  let ?hello = "Log ''Fetching Harry Potter Funko list from Fandom API...''"
  assume "funko_main w s = Some (t, s')"
  then obtain images sa ta sb where
    h: "funko_harvest w (s\<lparr>console := console s @ [?hello]\<rparr>) = Some (images, sa)"
    and m: "mirror_all w '' (skipped)'' (funko_new {} images) (tally0, sa) = Some (ta, sb)"
    and t: "t = ta\<lparr>seen := safeFilename ` filename ` set images\<rparr>"
    and s': "s' = sb\<lparr>manifest := Some (entries ta),
                     console := console sb @ [done_line ta, Log (''Funko list written to '' @ funko_JSON)]\<rparr>"
    by (auto simp: funko_main_char split: option.splits)
  from mirror_all_effect[OF m] funko_harvest_effect(4)[OF h]
  have "entries ta = listing (funko_new {} images)"
    and "downloaded ta + skipped ta + failures (console sb)
           = failures (console s) + length (funko_new {} images)"
    by (simp_all add: failures_append)
  with h t s' show "\<exists>images s1 es.
          funko_harvest w (s\<lparr>console := console s @ [?hello]\<rparr>) = Some (images, s1)
          \<and> es = listing (funko_new {} images) \<and> manifest s' = Some es \<and> entries t = es
          \<and> downloaded t + skipped t + failures (console s') = length es + failures (console s)"
    by (simp add: failures_append listing_def)
next
  assume "villagers_main cmp w s = Some (Inr t, s')"
  then obtain issued vs sb where
    h: "fetchAllVillagerImages cmp (api_server w) = Some (issued, Inr vs)"
    and m: "mirror_all w '' (skipped, exists)'' (map villager_triple vs)
              (tally0, s\<lparr>console := console s @ [Log ''Fetching villager list from Fandom API...'',
                 Log (''Found '' @ show_nat (length vs) @ '' villager posters.'' @ [CHR 0x0A])]\<rparr>)
              = Some (t, sb)"
    and s': "s' = sb\<lparr>manifest := Some (entries t),
                     console := console sb @ [done_line t, Log (''Villager list written to '' @ villagers_JSON)]\<rparr>"
    by (auto simp: villagers_main_char split: option.splits sum.splits)
  from mirror_all_effect[OF m]
  have "entries t = listing (map villager_triple vs)"
    and "downloaded t + skipped t + failures (console sb) = failures (console s) + length vs"
    by (simp_all add: failures_append)
  with h s' show "\<exists>issued vs es.
          fetchAllVillagerImages cmp (api_server w) = Some (issued, Inr vs)
          \<and> es = listing (map villager_triple vs) \<and> manifest s' = Some es \<and> entries t = es
          \<and> downloaded t + skipped t + failures (console s') = length es + failures (console s)"
    by (simp add: failures_append listing_def)
qed

text \<open>
  C5, as amended. In a run over five harvested items with distinct file names, none of
  them on disk, where the download of one item fails with an HTTP status error and the
  other four succeed, the run returns, the other items are processed (four are
  downloaded, none is skipped), the failure is reported on a line of its own, the
  summary line reads \<open>Done! Downloaded 4, skipped 0.\<close> (it has no count of failures),
  and the manifest lists all five items with their file names. This holds for both
  scripts.
\<close>

theorem one_failure_among_five:
  "(fetchAllFunkoImages (api_server w) = Some (issued, Inr (pre @ i # post))
      \<and> length pre + length post = 4
      \<and> distinct (map (\<lambda>j. safeFilename (filename j)) (pre @ i # post))
      \<and> (\<forall>j \<in> set (pre @ i # post). files s (safeFilename (filename j)) = None)
      \<and> (\<forall>j \<in> set (pre @ post). \<forall>s. \<exists>s'.
             downloadImage w (Some (url j)) (safeFilename (filename j)) s = Some (Inr (), s'))
      \<and> (\<forall>s. \<exists>s'. downloadImage w (Some (url i)) (safeFilename (filename i)) s
                      = Some (Inl (HttpError code), s')) \<longrightarrow>
    (\<exists>t s' con. funko_main w s = Some (t, s') \<and> downloaded t = 4 \<and> skipped t = 0
       \<and> failures (console s') = Suc (failures (console s))
       \<and> manifest s' = Some (map (\<lambda>j. (name j, safeFilename (filename j))) (pre @ i # post))
       \<and> console s' = con @ [Log (CHR 0x0A # ''Done! Downloaded 4, skipped 0.''),
                              Log (''Funko list written to '' @ funko_JSON)]))
   \<and> (fetchAllVillagerImages cmp (api_server w) = Some (issued, Inr (vpre @ v # vpost))
      \<and> length vpre + length vpost = 4
      \<and> distinct (map (\<lambda>j. villager_filename (vname j)) (vpre @ v # vpost))
      \<and> (\<forall>j \<in> set (vpre @ v # vpost). files s (villager_filename (vname j)) = None)
      \<and> (\<forall>j \<in> set (vpre @ vpost). \<forall>s. \<exists>s'.
             downloadImage w (Some (vurl j)) (villager_filename (vname j)) s = Some (Inr (), s'))
      \<and> (\<forall>s. \<exists>s'. downloadImage w (Some (vurl v)) (villager_filename (vname v)) s
                      = Some (Inl (HttpError code), s')) \<longrightarrow>
    (\<exists>t s' con. villagers_main cmp w s = Some (Inr t, s') \<and> downloaded t = 4 \<and> skipped t = 0
       \<and> failures (console s') = Suc (failures (console s))
       \<and> manifest s' = Some (map (\<lambda>j. (vname j, villager_filename (vname j))) (vpre @ v # vpost))
       \<and> console s' = con @ [Log (CHR 0x0A # ''Done! Downloaded 4, skipped 0.''),
                              Log (''Villager list written to '' @ villagers_JSON)]))"
proof (intro conjI impI)
  let ?hello = "Log ''Fetching Harry Potter Funko list from Fandom API...''"
  let ?tr = "\<lambda>i. (name i, safeFilename (filename i), url i)"
  let ?s1 = "s\<lparr>console := console s @ [?hello]\<rparr>"
  assume a: "fetchAllFunkoImages (api_server w) = Some (issued, Inr (pre @ i # post))
      \<and> length pre + length post = 4
      \<and> distinct (map (\<lambda>j. safeFilename (filename j)) (pre @ i # post))
      \<and> (\<forall>j \<in> set (pre @ i # post). files s (safeFilename (filename j)) = None)
      \<and> (\<forall>j \<in> set (pre @ post). \<forall>s. \<exists>s'.
             downloadImage w (Some (url j)) (safeFilename (filename j)) s = Some (Inr (), s'))
      \<and> (\<forall>s. \<exists>s'. downloadImage w (Some (url i)) (safeFilename (filename i)) s
                      = Some (Inl (HttpError code), s'))"
  then have h: "funko_harvest w ?s1 = Some (pre @ i # post, ?s1)"
    by (simp add: funko_harvest_def)
  have new: "funko_new {} (pre @ i # post) = map ?tr pre @ ?tr i # map ?tr post"
    using a funko_new_all[of "pre @ i # post" "{}"] by simp
  have d: "distinct (map (\<lambda>x. fst (snd x)) (map ?tr pre @ ?tr i # map ?tr post))"
    using a by (simp add: comp_def)
  have ab: "\<forall>(n, f, u) \<in> set (map ?tr pre @ ?tr i # map ?tr post). files ?s1 f = None"
    using a by auto
  have good: "\<forall>(n, f, u) \<in> set (map ?tr pre @ map ?tr post).
                \<forall>s. \<exists>s'. downloadImage w (Some u) f s = Some (Inr (), s')"
    using a by auto
  have bad: "\<forall>s. \<exists>s'. downloadImage w (Some (url i)) (safeFilename (filename i)) s
                      = Some (Inl (HttpError code), s')"
    using a by blast
  from mirror_all_one_failure[OF d ab good bad, of "'' (skipped)''" tally0]
  obtain ta sb where m: "mirror_all w '' (skipped)'' (funko_new {} (pre @ i # post)) (tally0, ?s1) = Some (ta, sb)"
    and c: "downloaded ta = length pre + length post" "skipped ta = 0"
      "failures (console sb) = Suc (failures (console ?s1))"
    unfolding new by auto
  from mirror_all_effect[OF m] have ent: "entries ta = listing (funko_new {} (pre @ i # post))"
    by simp
  have dl: "done_line ta = Log (CHR 0x0A # ''Done! Downloaded 4, skipped 0.'')"
    using c a by (intro done_line_4_0) simp_all
  show "\<exists>t s' con. funko_main w s = Some (t, s') \<and> downloaded t = 4 \<and> skipped t = 0
       \<and> failures (console s') = Suc (failures (console s))
       \<and> manifest s' = Some (map (\<lambda>j. (name j, safeFilename (filename j))) (pre @ i # post))
       \<and> console s' = con @ [Log (CHR 0x0A # ''Done! Downloaded 4, skipped 0.''),
                              Log (''Funko list written to '' @ funko_JSON)]"
    using h m c a ent dl
    by (simp add: funko_main_char failures_append new listing_def)
next
  let ?hello = "Log ''Fetching villager list from Fandom API...''"
  let ?vs = "vpre @ v # vpost"
  let ?s1 = "s\<lparr>console := console s @ [?hello,
                 Log (''Found '' @ show_nat (length ?vs) @ '' villager posters.'' @ [CHR 0x0A])]\<rparr>"
  assume a: "fetchAllVillagerImages cmp (api_server w) = Some (issued, Inr (vpre @ v # vpost))
      \<and> length vpre + length vpost = 4
      \<and> distinct (map (\<lambda>j. villager_filename (vname j)) (vpre @ v # vpost))
      \<and> (\<forall>j \<in> set (vpre @ v # vpost). files s (villager_filename (vname j)) = None)
      \<and> (\<forall>j \<in> set (vpre @ vpost). \<forall>s. \<exists>s'.
             downloadImage w (Some (vurl j)) (villager_filename (vname j)) s = Some (Inr (), s'))
      \<and> (\<forall>s. \<exists>s'. downloadImage w (Some (vurl v)) (villager_filename (vname v)) s
                      = Some (Inl (HttpError code), s'))"
  have new: "map villager_triple ?vs
               = map villager_triple vpre @ (vname v, villager_filename (vname v), vurl v)
                   # map villager_triple vpost"
    by (simp add: villager_triple_def)
  have d: "distinct (map (\<lambda>x. fst (snd x)) (map villager_triple vpre
             @ (vname v, villager_filename (vname v), vurl v) # map villager_triple vpost))"
    using a by (simp add: comp_def villager_triple_def)
  have ab: "\<forall>(n, f, u) \<in> set (map villager_triple vpre
             @ (vname v, villager_filename (vname v), vurl v) # map villager_triple vpost).
               files ?s1 f = None"
    using a by (auto simp: villager_triple_def)
  have good: "\<forall>(n, f, u) \<in> set (map villager_triple vpre @ map villager_triple vpost).
                \<forall>s. \<exists>s'. downloadImage w (Some u) f s = Some (Inr (), s')"
    using a by (auto simp: villager_triple_def)
  have bad: "\<forall>s. \<exists>s'. downloadImage w (Some (vurl v)) (villager_filename (vname v)) s
                      = Some (Inl (HttpError code), s')"
    using a by blast
  from mirror_all_one_failure[OF d ab good bad, of "'' (skipped, exists)''" tally0]
  obtain ta sb where m: "mirror_all w '' (skipped, exists)'' (map villager_triple ?vs) (tally0, ?s1) = Some (ta, sb)"
    and c: "downloaded ta = length vpre + length vpost" "skipped ta = 0"
      "failures (console sb) = Suc (failures (console ?s1))"
    unfolding new by auto
  from mirror_all_effect[OF m] have ent: "entries ta = listing (map villager_triple ?vs)"
    by simp
  have dl: "done_line ta = Log (CHR 0x0A # ''Done! Downloaded 4, skipped 0.'')"
    using c a by (intro done_line_4_0) simp_all
  show "\<exists>t s' con. villagers_main cmp w s = Some (Inr t, s') \<and> downloaded t = 4 \<and> skipped t = 0
       \<and> failures (console s') = Suc (failures (console s))
       \<and> manifest s' = Some (map (\<lambda>j. (vname j, villager_filename (vname j))) (vpre @ v # vpost))
       \<and> console s' = con @ [Log (CHR 0x0A # ''Done! Downloaded 4, skipped 0.''),
                              Log (''Villager list written to '' @ villagers_JSON)]"
    using m c a ent dl
    by (simp add: villagers_main_char failures_append listing_def villager_triple_def)
qed

declare query_loop.simps [code]

declare downloadImage.simps [code]

lemmas string_defs = endsWith_def lower_def toLowerAscii_def trim_def is_space_def WhiteSpace_def
  strip_extension_def underscores_to_spaces_def remove_File_prefix_def has_image_extension_def
  safeFilename_def villager_filename_def

lemmas json_defs = title_of_page_def image_url_def opt_prop_def truthy_opt_def response_pages_def
  toString_opt_def file_page_def

lemma ten_funko:
  "fetchAllFunkoImages ten_api = Some ([base_params funko_PAGE_TITLE], Inr five_images)"
  by code_simp

lemma ten_villagers:
  "fetchAllVillagerImages no_collation ten_api
     = Some ([base_params villagers_PAGE_TITLE], Inr five_villagers)"
  by code_simp

lemma downloadImage_served:
  assumes "image_server w u = Response 200 loc b" and "disk w f = Finishes"
  shows "downloadImage w u f s
           = Some (Inr (), s\<lparr>requests := requests s @ [u], files := (files s)(f \<mapsto> b)\<rparr>)"
  using assms by (subst downloadImage.simps) simp

lemma downloadImage_status:
  assumes "image_server w u = Response c loc b" and "c \<noteq> 200" and "c \<noteq> 301" and "c \<noteq> 302"
  shows "downloadImage w u f s = Some (Inl (HttpError c), s\<lparr>requests := requests s @ [u]\<rparr>)"
  using assms by (subst downloadImage.simps) simp

lemma third_fails_simps:
  "api_server third_fails = ten_api"
  "image_server third_fails (Some (JStr ''u3'')) = Response 500 None []"
  "u \<noteq> Some (JStr ''u3'') \<Longrightarrow> image_server third_fails u = Response 200 None ''img''"
  "disk third_fails f = Finishes"
  by (simp_all add: third_fails_def)

lemma five_names:
  "map (\<lambda>j. safeFilename (filename j)) five_images = [''A.png'', ''B.png'', ''C.png'', ''D.png'', ''E.png'']"
  "map (\<lambda>j. villager_filename (vname j)) five_villagers
     = [''NH-Ace_poster.png'', ''NH-Bea_poster.png'', ''NH-Cat_poster.png'', ''NH-Dom_poster.png'',
        ''NH-Eve_poster.png'']"
  by code_simp+

text \<open>C5, witness: the API serves five items to each script, and the image server
  answers 500 for the third one.\<close>

theorem one_failure_among_five_witness:
  "(\<exists>t s' con. funko_main third_fails io0 = Some (t, s') \<and> downloaded t = 4 \<and> skipped t = 0
       \<and> failures (console s') = Suc (failures (console io0))
       \<and> manifest s' = Some [(''A'', ''A.png''), (''B'', ''B.png''), (''C'', ''C.png''),
                              (''D'', ''D.png''), (''E'', ''E.png'')]
       \<and> console s' = con @ [Log (CHR 0x0A # ''Done! Downloaded 4, skipped 0.''),
                              Log (''Funko list written to '' @ funko_JSON)])
   \<and> (\<exists>t s' con. villagers_main no_collation third_fails io0 = Some (Inr t, s')
       \<and> downloaded t = 4 \<and> skipped t = 0
       \<and> failures (console s') = Suc (failures (console io0))
       \<and> manifest s' = Some [(''Ace'', ''NH-Ace_poster.png''), (''Bea'', ''NH-Bea_poster.png''),
                              (''Cat'', ''NH-Cat_poster.png''), (''Dom'', ''NH-Dom_poster.png''),
                              (''Eve'', ''NH-Eve_poster.png'')]
       \<and> console s' = con @ [Log (CHR 0x0A # ''Done! Downloaded 4, skipped 0.''),
                              Log (''Villager list written to '' @ villagers_JSON)])"
proof -
  let ?pre = "take 2 five_images" and ?i = "five_images ! 2" and ?post = "drop 3 five_images"
  let ?vpre = "take 2 five_villagers" and ?v = "five_villagers ! 2" and ?vpost = "drop 3 five_villagers"
  have split: "?pre @ ?i # ?post = five_images" "?vpre @ ?v # ?vpost = five_villagers"
    by (simp_all add: five_images_def five_villagers_def)
  have f1: "fetchAllFunkoImages (api_server third_fails)
              = Some ([base_params funko_PAGE_TITLE], Inr (?pre @ ?i # ?post))"
    unfolding split by (simp add: third_fails_simps ten_funko)
  have f2: "length ?pre + length ?post = 4" by (simp add: five_images_def)
  have f3: "distinct (map (\<lambda>j. safeFilename (filename j)) (?pre @ ?i # ?post))"
    unfolding split five_names by simp
  have f4: "\<forall>j \<in> set (?pre @ ?i # ?post). files io0 (safeFilename (filename j)) = None"
    by (simp add: io0_def)
  have f5: "\<forall>j \<in> set (?pre @ ?post). \<forall>s. \<exists>s'.
             downloadImage third_fails (Some (url j)) (safeFilename (filename j)) s = Some (Inr (), s')"
    by (simp add: five_images_def downloadImage_served[OF third_fails_simps(3) third_fails_simps(4)])
  have f6: "\<forall>s. \<exists>s'. downloadImage third_fails (Some (url ?i)) (safeFilename (filename ?i)) s
                      = Some (Inl (HttpError 500), s')"
    by (simp add: five_images_def downloadImage_status[OF third_fails_simps(2)])
  have v1: "fetchAllVillagerImages no_collation (api_server third_fails)
              = Some ([base_params villagers_PAGE_TITLE], Inr (?vpre @ ?v # ?vpost))"
    unfolding split by (simp add: third_fails_simps ten_villagers)
  have v2: "length ?vpre + length ?vpost = 4" by (simp add: five_villagers_def)
  have v3: "distinct (map (\<lambda>j. villager_filename (vname j)) (?vpre @ ?v # ?vpost))"
    unfolding split five_names by simp
  have v4: "\<forall>j \<in> set (?vpre @ ?v # ?vpost). files io0 (villager_filename (vname j)) = None"
    by (simp add: io0_def)
  have v5: "\<forall>j \<in> set (?vpre @ ?vpost). \<forall>s. \<exists>s'.
             downloadImage third_fails (Some (vurl j)) (villager_filename (vname j)) s = Some (Inr (), s')"
    by (simp add: five_villagers_def downloadImage_served[OF third_fails_simps(3) third_fails_simps(4)])
  have v6: "\<forall>s. \<exists>s'. downloadImage third_fails (Some (vurl ?v)) (villager_filename (vname ?v)) s
                      = Some (Inl (HttpError 500), s')"
    by (simp add: five_villagers_def downloadImage_status[OF third_fails_simps(2)])
  have m1: "map (\<lambda>j. (name j, safeFilename (filename j))) five_images
              = [(''A'', ''A.png''), (''B'', ''B.png''), (''C'', ''C.png''),
                 (''D'', ''D.png''), (''E'', ''E.png'')]"
    by code_simp
  have m2: "map (\<lambda>j. (vname j, villager_filename (vname j))) five_villagers
              = [(''Ace'', ''NH-Ace_poster.png''), (''Bea'', ''NH-Bea_poster.png''),
                 (''Cat'', ''NH-Cat_poster.png''), (''Dom'', ''NH-Dom_poster.png''),
                 (''Eve'', ''NH-Eve_poster.png'')]"
    by code_simp
  from one_failure_among_five
    [where w = third_fails and s = io0 and code = 500
       and pre = ?pre and i = ?i and post = ?post
       and issued = "[base_params funko_PAGE_TITLE]", THEN conjunct1] f1 f2 f3 f4 f5 f6
  have c1: "\<exists>t s' con. funko_main third_fails io0 = Some (t, s') \<and> downloaded t = 4 \<and> skipped t = 0
       \<and> failures (console s') = Suc (failures (console io0))
       \<and> manifest s' = Some (map (\<lambda>j. (name j, safeFilename (filename j))) (?pre @ ?i # ?post))
       \<and> console s' = con @ [Log (CHR 0x0A # ''Done! Downloaded 4, skipped 0.''),
                              Log (''Funko list written to '' @ funko_JSON)]"
    by blast
  from one_failure_among_five
    [where w = third_fails and s = io0 and code = 500 and cmp = no_collation
       and vpre = ?vpre and v = ?v and vpost = ?vpost
       and issued = "[base_params villagers_PAGE_TITLE]", THEN conjunct2] v1 v2 v3 v4 v5 v6
  have c2: "\<exists>t s' con. villagers_main no_collation third_fails io0 = Some (Inr t, s')
       \<and> downloaded t = 4 \<and> skipped t = 0
       \<and> failures (console s') = Suc (failures (console io0))
       \<and> manifest s' = Some (map (\<lambda>j. (vname j, villager_filename (vname j))) (?vpre @ ?v # ?vpost))
       \<and> console s' = con @ [Log (CHR 0x0A # ''Done! Downloaded 4, skipped 0.''),
                              Log (''Villager list written to '' @ villagers_JSON)]"
    by blast
  from c1 c2 show ?thesis unfolding split m1 m2 by blast
qed

lemma five_new:
  "funko_new {} five_images =
     [(''A'', ''A.png'', JStr ''u1''), (''B'', ''B.png'', JStr ''u2''), (''C'', ''C.png'', JStr ''u3''),
      (''D'', ''D.png'', JStr ''u4''), (''E'', ''E.png'', JStr ''u5'')]"
  by (simp add: five_images_def string_defs)

lemma third_fails_downloads:
  "downloadImage third_fails (Some (JStr ''u3'')) f s
     = Some (Inl (HttpError 500), s\<lparr>requests := requests s @ [Some (JStr ''u3'')]\<rparr>)"
  "u \<noteq> Some (JStr ''u3'') \<Longrightarrow> downloadImage third_fails u f s
     = Some (Inr (), s\<lparr>requests := requests s @ [u], files := (files s)(f \<mapsto> ''img'')\<rparr>)"
  by (simp_all add: downloadImage_status[OF third_fails_simps(2)]
      downloadImage_served[OF third_fails_simps(3) third_fails_simps(4)])

lemma third_fails_mirror:
  "mirror_all third_fails '' (skipped)'' (funko_new {} five_images) (tally0, s\<lparr>files := Map.empty\<rparr>)
     = Some (tally0\<lparr>entries := [(''A'', ''A.png''), (''B'', ''B.png''), (''C'', ''C.png''),
                                 (''D'', ''D.png''), (''E'', ''E.png'')],
                    downloaded := 4\<rparr>,
             s\<lparr>files := [''A.png'' \<mapsto> ''img'', ''B.png'' \<mapsto> ''img'', ''D.png'' \<mapsto> ''img'',
                        ''E.png'' \<mapsto> ''img''],
               requests := requests s @ map (\<lambda>u. Some (JStr u)) [''u1'', ''u2'', ''u3'', ''u4'', ''u5''],
               console := console s @
                 [Log (''  '' @ check_mark @ '' A''), Log (''  '' @ check_mark @ '' B''),
                  Error (''  '' @ cross_mark @ '' C: HTTP 500''),
                  Log (''  '' @ check_mark @ '' D''), Log (''  '' @ check_mark @ '' E'')]\<rparr>)"
  by (simp add: five_new mirror_item_def third_fails_downloads tally0_def show_nat.simps)

lemma third_fails_run:
  "\<exists>t. funko_main third_fails io0 =
     Some (t, \<lparr>files = [''A.png'' \<mapsto> ''img'', ''B.png'' \<mapsto> ''img'', ''D.png'' \<mapsto> ''img'',
                        ''E.png'' \<mapsto> ''img''],
               manifest = Some [(''A'', ''A.png''), (''B'', ''B.png''), (''C'', ''C.png''),
                                (''D'', ''D.png''), (''E'', ''E.png'')],
               console =
                 [Log ''Fetching Harry Potter Funko list from Fandom API...'',
                  Log (''  '' @ check_mark @ '' A''), Log (''  '' @ check_mark @ '' B''),
                  Error (''  '' @ cross_mark @ '' C: HTTP 500''),
                  Log (''  '' @ check_mark @ '' D''), Log (''  '' @ check_mark @ '' E''),
                  Log (CHR 0x0A # ''Done! Downloaded 4, skipped 0.''),
                  Log (''Funko list written to '' @ funko_JSON)],
               requests = map (\<lambda>u. Some (JStr u)) [''u1'', ''u2'', ''u3'', ''u4'', ''u5'']\<rparr>)"
proof -
  let ?s = "io0\<lparr>console := console io0 @ [Log ''Fetching Harry Potter Funko list from Fandom API...'']\<rparr>"
  have h: "funko_harvest third_fails ?s = Some (five_images, ?s)"
    by (simp add: funko_harvest_def third_fails_simps ten_funko)
  have e: "?s\<lparr>files := Map.empty\<rparr> = ?s" by (simp add: io0_def)
  note m = third_fails_mirror[of ?s, unfolded e]
  show ?thesis
    unfolding funko_main_char h
    by (simp add: m) (simp add: io0_def done_line_def show_nat.simps tally0_def)
qed

text \<open>
  C5, counterexample. Five items are harvested and the download of the third fails with
  status 500. The console then holds one line for each item and the summary line
  \<open>Done! Downloaded 4, skipped 0.\<close>: the summary counts the downloaded and the skipped
  items, and no line reports a count of failed items.
\<close>

theorem summary_without_failed_count:
  "map_option (console \<circ> snd) (funko_main third_fails io0) =
     Some [Log ''Fetching Harry Potter Funko list from Fandom API...'',
           Log (''  '' @ check_mark @ '' A''), Log (''  '' @ check_mark @ '' B''),
           Error (''  '' @ cross_mark @ '' C: HTTP 500''),
           Log (''  '' @ check_mark @ '' D''), Log (''  '' @ check_mark @ '' E''),
           Log (CHR 0x0A # ''Done! Downloaded 4, skipped 0.''),
           Log (''Funko list written to '' @ funko_JSON)]"
  using third_fails_run by auto

text \<open>
  C8, counterexample. In the same run the manifest lists the third item, \<open>C.png\<close>,
  whose download failed and whose file is absent from the output directory.
\<close>

theorem manifest_entry_without_file:
  "map_option (manifest \<circ> snd) (funko_main third_fails io0) =
     Some (Some [(''A'', ''A.png''), (''B'', ''B.png''), (''C'', ''C.png''),
                 (''D'', ''D.png''), (''E'', ''E.png'')])
   \<and> map_option (files \<circ> snd) (funko_main third_fails io0) =
     Some [''A.png'' \<mapsto> ''img'', ''B.png'' \<mapsto> ''img'', ''D.png'' \<mapsto> ''img'', ''E.png'' \<mapsto> ''img'']
   \<and> [''A.png'' \<mapsto> ''img'', ''B.png'' \<mapsto> ''img'', ''D.png'' \<mapsto> ''img'', ''E.png'' \<mapsto> ''img''] ''C.png''
       = None"
  using third_fails_run by auto

lemma funko_new_subset:
  "(n, f, u) \<in> set (funko_new S images)
     \<Longrightarrow> \<exists>i \<in> set images. n = name i \<and> u = url i \<and> f = safeFilename (filename i)"
proof (induction images arbitrary: S)
  case Nil
  then show ?case by simp
next
  case (Cons a images)
  show ?case
  proof (cases "safeFilename (filename a) \<in> S")
    case True
    with Cons.prems have "(n, f, u) \<in> set (funko_new S images)" by simp
    from Cons.IH[OF this] show ?thesis by auto
  next
    case False
    with Cons.prems have "(n, f, u) = (name a, safeFilename (filename a), url a)
        \<or> (n, f, u) \<in> set (funko_new (insert (safeFilename (filename a)) S) images)" by simp
    then show ?thesis
    proof
      assume "(n, f, u) = (name a, safeFilename (filename a), url a)"
      then show ?thesis by simp
    next
      assume "(n, f, u) \<in> set (funko_new (insert (safeFilename (filename a)) S) images)"
      from Cons.IH[OF this] show ?thesis by auto
    qed
  qed
qed

lemma listing_files:
  assumes "\<forall>g \<in> set (map (\<lambda>x. fst (snd x)) items). P g"
  shows "\<forall>(n, f) \<in> set (listing items). P f"
  using assms by (force simp: listing_def)

lemma funko_main_returns:
  assumes "funko_harvest w (s\<lparr>console := console s @
              [Log ''Fetching Harry Potter Funko list from Fandom API...'']\<rparr>) = Some (images, s1)"
    and "\<forall>i \<in> set images. \<forall>s. downloadImage w (Some (url i)) (safeFilename (filename i)) s \<noteq> None"
  shows "\<exists>t s'. funko_main w s = Some (t, s')"
proof -
  have "\<forall>(n, f, u) \<in> set (funko_new {} images). \<forall>s. downloadImage w (Some u) f s \<noteq> None"
    using funko_new_subset[of _ _ _ "{}" images] assms(2) by fastforce
  from mirror_all_total_items[OF this, of "'' (skipped)''" "(tally0, s1)"] assms(1)
  show ?thesis by (auto simp: funko_main_char)
qed

lemma villagers_main_returns:
  assumes "fetchAllVillagerImages cmp (api_server w) = Some (issued, Inr vs)"
    and "\<forall>v \<in> set vs. \<forall>s. downloadImage w (Some (vurl v)) (villager_filename (vname v)) s \<noteq> None"
  shows "\<exists>t s'. villagers_main cmp w s = Some (Inr t, s')"
proof -
  have "\<forall>(n, f, u) \<in> set (map villager_triple vs). \<forall>s. downloadImage w (Some u) f s \<noteq> None"
    using assms(2) by (auto simp: villager_triple_def)
  from mirror_all_total_items[OF this, of "'' (skipped, exists)''"
      "(tally0, s\<lparr>console := console s @ [Log ''Fetching villager list from Fandom API...'',
          Log (''Found '' @ show_nat (length vs) @ '' villager posters.'' @ [CHR 0x0A])]\<rparr>)"]
    assms(1)
  show ?thesis by (auto simp: villagers_main_char)
qed

lemma all_ok_simps:
  "api_server all_ok = ten_api"
  "image_server all_ok u = Response 200 None ''img''"
  "disk all_ok f = Finishes"
  by (simp_all add: all_ok_def)

lemma all_ok_download:
  "downloadImage all_ok u f s
     = Some (Inr (), s\<lparr>requests := requests s @ [u], files := (files s)(f \<mapsto> ''img'')\<rparr>)"
  by (rule downloadImage_served[OF all_ok_simps(2) all_ok_simps(3)])

lemma all_good_present:
  assumes "mirror_all w nt items (t, s) = Some (t', s')"
    and "distinct (map (\<lambda>x. fst (snd x)) items)"
    and "\<forall>(n, f, u) \<in> set items. files s f = None"
    and "\<forall>(n, f, u) \<in> set items. \<forall>s. \<exists>s'. downloadImage w (Some u) f s = Some (Inr (), s')"
  shows "\<forall>g \<in> set (map (\<lambda>x. fst (snd x)) items). files s' g \<noteq> None"
  using mirror_all_good[OF assms(2,3,4), of nt t] assms(1) by auto

lemma five_triples:
  "map villager_triple five_villagers =
     [(''Ace'', ''NH-Ace_poster.png'', JStr ''u1''), (''Bea'', ''NH-Bea_poster.png'', JStr ''u2''),
      (''Cat'', ''NH-Cat_poster.png'', JStr ''u3''), (''Dom'', ''NH-Dom_poster.png'', JStr ''u4''),
      (''Eve'', ''NH-Eve_poster.png'', JStr ''u5'')]"
  by code_simp

lemma all_ok_funko_run:
  "\<exists>t s. funko_main all_ok io0 = Some (t, s) \<and> (\<forall>(n, f) \<in> set (entries t). files s f \<noteq> None)"
proof -
  let ?s = "io0\<lparr>console := console io0 @ [Log ''Fetching Harry Potter Funko list from Fandom API...'']\<rparr>"
  have h: "funko_harvest all_ok ?s = Some (five_images, ?s)"
    by (simp add: funko_harvest_def all_ok_simps ten_funko)
  have d: "distinct (map (\<lambda>x. fst (snd x)) (funko_new {} five_images))"
    and a: "\<forall>(n, f, u) \<in> set (funko_new {} five_images). files ?s f = None"
    and g: "\<forall>(n, f, u) \<in> set (funko_new {} five_images).
              \<forall>s. \<exists>s'. downloadImage all_ok (Some u) f s = Some (Inr (), s')"
    by (simp_all add: five_new io0_def all_ok_download)
  from mirror_all_good[OF d a g, of "'' (skipped)''" tally0]
  obtain ta sb where m: "mirror_all all_ok '' (skipped)'' (funko_new {} five_images) (tally0, ?s) = Some (ta, sb)"
    and p: "\<forall>g \<in> set (map (\<lambda>x. fst (snd x)) (funko_new {} five_images)). files sb g \<noteq> None"
    by blast
  from mirror_all_effect[OF m] have e: "entries ta = listing (funko_new {} five_images)" by simp
  from listing_files[OF p] e have "\<forall>(n, f) \<in> set (entries ta). files sb f \<noteq> None" by simp
  then show ?thesis
    using h m by (simp add: funko_main_char)
qed

lemma all_ok_villagers_run:
  "\<exists>t s. villagers_main no_collation all_ok io0 = Some (Inr t, s)
     \<and> (\<forall>(n, f) \<in> set (entries t). files s f \<noteq> None)"
proof -
  let ?s = "io0\<lparr>console := console io0 @ [Log ''Fetching villager list from Fandom API...'',
                 Log (''Found '' @ show_nat (length five_villagers) @ '' villager posters.'' @ [CHR 0x0A])]\<rparr>"
  have h: "fetchAllVillagerImages no_collation (api_server all_ok)
             = Some ([base_params villagers_PAGE_TITLE], Inr five_villagers)"
    by (simp add: all_ok_simps ten_villagers)
  have d: "distinct (map (\<lambda>x. fst (snd x)) (map villager_triple five_villagers))"
    and a: "\<forall>(n, f, u) \<in> set (map villager_triple five_villagers). files ?s f = None"
    and g: "\<forall>(n, f, u) \<in> set (map villager_triple five_villagers).
              \<forall>s. \<exists>s'. downloadImage all_ok (Some u) f s = Some (Inr (), s')"
    unfolding five_triples by (simp_all add: io0_def all_ok_download)
  from mirror_all_good[OF d a g, of "'' (skipped, exists)''" tally0]
  obtain ta sb where m: "mirror_all all_ok '' (skipped, exists)'' (map villager_triple five_villagers) (tally0, ?s) = Some (ta, sb)"
    and p: "\<forall>g \<in> set (map (\<lambda>x. fst (snd x)) (map villager_triple five_villagers)). files sb g \<noteq> None"
    by blast
  from mirror_all_effect[OF m] have e: "entries ta = listing (map villager_triple five_villagers)" by simp
  from listing_files[OF p] e have "\<forall>(n, f) \<in> set (entries ta). files sb f \<noteq> None" by simp
  then show ?thesis
    using h m by (simp add: villagers_main_char five_villagers_def[THEN arg_cong, of length])
qed

text \<open>C7, witness: a file that exists is skipped; and each script is run twice against
  an API that serves five items and an image server that serves every URL, the second
  run starting where the first one ended.\<close>

theorem second_run_skips_everything_witness:
  "(\<exists>t' s'. mirror_item all_ok '' (skipped)'' ''A'' ''A.png'' (JStr ''u1'') (tally0, old_file)
                = Some (t', s')
       \<and> skipped t' = Suc (skipped tally0) \<and> downloaded t' = downloaded tally0
       \<and> requests s' = requests old_file \<and> files s' = files old_file)
   \<and> (\<exists>t1 s1 t2 s2. funko_main all_ok io0 = Some (t1, s1) \<and> funko_main all_ok s1 = Some (t2, s2)
       \<and> requests s2 = requests s1 \<and> files s2 = files s1 \<and> manifest s2 = manifest s1
       \<and> skipped t2 = length (entries t1) \<and> downloaded t2 = 0)
   \<and> (\<exists>t1 s1 t2 s2. villagers_main no_collation all_ok io0 = Some (Inr t1, s1)
       \<and> villagers_main no_collation all_ok s1 = Some (Inr t2, s2)
       \<and> requests s2 = requests s1 \<and> files s2 = files s1 \<and> manifest s2 = manifest s1
       \<and> skipped t2 = length (entries t1) \<and> downloaded t2 = 0)"
proof (intro conjI)
  have "files old_file ''A.png'' \<noteq> None" by (simp add: old_file_def)
  with second_run_skips_everything
    [where s = old_file and f = "''A.png''" and w = all_ok and nt = "'' (skipped)''"
       and n = "''A''" and u = "JStr ''u1''" and t = tally0, THEN conjunct1]
  show "\<exists>t' s'. mirror_item all_ok '' (skipped)'' ''A'' ''A.png'' (JStr ''u1'') (tally0, old_file)
                = Some (t', s')
       \<and> skipped t' = Suc (skipped tally0) \<and> downloaded t' = downloaded tally0
       \<and> requests s' = requests old_file \<and> files s' = files old_file"
    by blast
next
  from all_ok_funko_run obtain t1 s1 where
    r: "funko_main all_ok io0 = Some (t1, s1)" and p: "\<forall>(n, f) \<in> set (entries t1). files s1 f \<noteq> None"
    by blast
  from second_run_skips_everything
    [where w = all_ok and s = io0 and ?t1.0 = t1 and ?s1.0 = s1 and ?w2.0 = all_ok and ?s2.0 = s1,
      THEN conjunct2, THEN conjunct1] r p
  show "\<exists>t1 s1 t2 s2. funko_main all_ok io0 = Some (t1, s1) \<and> funko_main all_ok s1 = Some (t2, s2)
       \<and> requests s2 = requests s1 \<and> files s2 = files s1 \<and> manifest s2 = manifest s1
       \<and> skipped t2 = length (entries t1) \<and> downloaded t2 = 0"
    by blast
next
  from all_ok_villagers_run obtain t1 s1 where
    r: "villagers_main no_collation all_ok io0 = Some (Inr t1, s1)"
    and p: "\<forall>(n, f) \<in> set (entries t1). files s1 f \<noteq> None"
    by blast
  from second_run_skips_everything
    [where w = all_ok and s = io0 and ?t1.0 = t1 and ?s1.0 = s1 and ?w2.0 = all_ok and ?s2.0 = s1
       and cmp = no_collation, THEN conjunct2, THEN conjunct2] r p
  show "\<exists>t1 s1 t2 s2. villagers_main no_collation all_ok io0 = Some (Inr t1, s1)
       \<and> villagers_main no_collation all_ok s1 = Some (Inr t2, s2)
       \<and> requests s2 = requests s1 \<and> files s2 = files s1 \<and> manifest s2 = manifest s1
       \<and> skipped t2 = length (entries t1) \<and> downloaded t2 = 0"
    by blast
qed

text \<open>C8, witness: the runs of both scripts in which the third download fails.\<close>

theorem manifest_lists_every_item_witness:
  "(\<exists>t s' es. funko_main third_fails io0 = Some (t, s')
       \<and> es = listing (funko_new {} five_images) \<and> manifest s' = Some es \<and> entries t = es
       \<and> downloaded t + skipped t + failures (console s') = length es + failures (console io0))
   \<and> (\<exists>t s' es. villagers_main no_collation third_fails io0 = Some (Inr t, s')
       \<and> es = listing (map villager_triple five_villagers) \<and> manifest s' = Some es \<and> entries t = es
       \<and> downloaded t + skipped t + failures (console s') = length es + failures (console io0))"
proof (intro conjI)
  let ?s = "io0\<lparr>console := console io0 @ [Log ''Fetching Harry Potter Funko list from Fandom API...'']\<rparr>"
  have h: "funko_harvest third_fails ?s = Some (five_images, ?s)"
    by (simp add: funko_harvest_def third_fails_simps ten_funko)
  from third_fails_run obtain t s' where r: "funko_main third_fails io0 = Some (t, s')" by blast
  from manifest_lists_every_item[where w = third_fails and s = io0 and t = t and s' = s',
      THEN conjunct1] r h
  show "\<exists>t s' es. funko_main third_fails io0 = Some (t, s')
       \<and> es = listing (funko_new {} five_images) \<and> manifest s' = Some es \<and> entries t = es
       \<and> downloaded t + skipped t + failures (console s') = length es + failures (console io0)"
    by auto
next
  have h: "fetchAllVillagerImages no_collation (api_server third_fails)
             = Some ([base_params villagers_PAGE_TITLE], Inr five_villagers)"
    by (simp add: third_fails_simps ten_villagers)
  have "\<forall>v \<in> set five_villagers. \<forall>s.
          downloadImage third_fails (Some (vurl v)) (villager_filename (vname v)) s \<noteq> None"
    by (simp add: five_villagers_def third_fails_downloads)
  from villagers_main_returns[OF h this, of io0]
  obtain t s' where r: "villagers_main no_collation third_fails io0 = Some (Inr t, s')" by blast
  from manifest_lists_every_item[where w = third_fails and s = io0 and t = t and s' = s'
      and cmp = no_collation, THEN conjunct2] r h
  show "\<exists>t s' es. villagers_main no_collation third_fails io0 = Some (Inr t, s')
       \<and> es = listing (map villager_triple five_villagers) \<and> manifest s' = Some es \<and> entries t = es
       \<and> downloaded t + skipped t + failures (console s') = length es + failures (console io0)"
    by auto
qed

lemma query_params_first: "query_params t None = Inr (base_params t)"
  by (simp add: query_params_def)

lemma query_loop_last:
  assumes "query_params t tok = Inr ps" and "fetchJson net e ps = Inr data"
    and "response_pages data = Inr pages" and "collect a pages = Inr a'"
    and "\<not> truthy_opt (get_prop data ''continue'')"
  shows "query_loop net e t collect a tok issued = Some (issued @ [ps], Inr a')"
  using assms by (subst query_loop.simps) simp

lemma query_loop_fetch_fails:
  assumes "query_params t tok = Inr ps" and "fetchJson net e ps = Inl err"
  shows "query_loop net e t collect a tok issued = Some (issued @ [ps], Inl err)"
  using assms by (subst query_loop.simps) simp

lemma fallback_listing:
  "listing (funko_new {} getFallbackImages) = map (\<lambda>(n, u, f). (n, f)) fallback_items"
  by code_simp

lemma fallback_items_not_empty: "map (\<lambda>(n, u, f). (n, f)) fallback_items \<noteq> []"
  by (simp add: fallback_items_def)

text \<open>
  C2, as amended. In fetch-funko-hp.js, when the driver fails and the downloads of the
  fallback items return, the run returns with the manifest of the twenty fallback items;
  when the driver succeeds with no item, the fallback list is not used and the manifest
  is empty. fetch-villagers.js has no fallback list: when its driver fails, \<open>main\<close>
  rejects with the driver's error and leaves the manifest and the files as they were;
  when its driver succeeds with no item, it writes an empty manifest.
\<close>

theorem fallback_only_in_funko:
  "(fetchAllFunkoImages (api_server w) = Some (issued, Inl err)
      \<and> (\<forall>i \<in> set getFallbackImages. \<forall>s.
            downloadImage w (Some (url i)) (safeFilename (filename i)) s \<noteq> None) \<longrightarrow>
    (\<exists>t s'. funko_main w s = Some (t, s')
       \<and> manifest s' = Some (map (\<lambda>(n, u, f). (n, f)) fallback_items) \<and> manifest s' \<noteq> Some []))
   \<and> (fetchAllFunkoImages (api_server w) = Some (issued, Inr []) \<longrightarrow>
    (\<exists>t s'. funko_main w s = Some (t, s') \<and> manifest s' = Some [] \<and> entries t = []
       \<and> files s' = files s \<and> requests s' = requests s))
   \<and> (fetchAllVillagerImages cmp (api_server w) = Some (issued, Inl err) \<longrightarrow>
    (\<exists>s'. villagers_main cmp w s = Some (Inl err, s') \<and> manifest s' = manifest s
       \<and> files s' = files s \<and> requests s' = requests s))
   \<and> (fetchAllVillagerImages cmp (api_server w) = Some (issued, Inr []) \<longrightarrow>
    (\<exists>t s'. villagers_main cmp w s = Some (Inr t, s') \<and> manifest s' = Some [] \<and> entries t = []))"
proof (intro conjI impI)
  let ?s = "s\<lparr>console := console s @ [Log ''Fetching Harry Potter Funko list from Fandom API...'']\<rparr>"
  assume a: "fetchAllFunkoImages (api_server w) = Some (issued, Inl err)
      \<and> (\<forall>i \<in> set getFallbackImages. \<forall>s.
            downloadImage w (Some (url i)) (safeFilename (filename i)) s \<noteq> None)"
  then obtain s1 where h: "funko_harvest w ?s = Some (getFallbackImages, s1)"
    by (simp add: funko_harvest_def)
  from funko_main_returns[OF h] a obtain t s' where r: "funko_main w s = Some (t, s')" by blast
  from r h have "manifest s' = Some (listing (funko_new {} getFallbackImages))"
    by (auto simp: funko_main_char split: option.splits dest: mirror_all_effect)
  with r show "\<exists>t s'. funko_main w s = Some (t, s')
       \<and> manifest s' = Some (map (\<lambda>(n, u, f). (n, f)) fallback_items) \<and> manifest s' \<noteq> Some []"
    using fallback_items_not_empty by (simp add: fallback_listing)
next
  assume "fetchAllFunkoImages (api_server w) = Some (issued, Inr [])"
  then show "\<exists>t s'. funko_main w s = Some (t, s') \<and> manifest s' = Some [] \<and> entries t = []
       \<and> files s' = files s \<and> requests s' = requests s"
    by (simp add: funko_main_char funko_harvest_def)
next
  assume "fetchAllVillagerImages cmp (api_server w) = Some (issued, Inl err)"
  then show "\<exists>s'. villagers_main cmp w s = Some (Inl err, s') \<and> manifest s' = manifest s
       \<and> files s' = files s \<and> requests s' = requests s"
    by (simp add: villagers_main_char)
next
  assume "fetchAllVillagerImages cmp (api_server w) = Some (issued, Inr [])"
  then show "\<exists>t s'. villagers_main cmp w s = Some (Inr t, s') \<and> manifest s' = Some [] \<and> entries t = []"
    by (simp add: villagers_main_char)
qed

lemma api_down_simps:
  "api_server api_down e ps = ApiError ''ENOTFOUND''"
  "image_server api_down u = Response 200 None ''img''"
  "disk api_down f = Finishes"
  by (simp_all add: api_down_def)

lemma outage_simps:
  "api_server outage e ps = ApiResponse 503 (Some error_body)"
  "image_server outage u = Response 200 None ''img''"
  "disk outage f = Finishes"
  by (simp_all add: outage_def)

lemma api_down_harvests:
  "fetchAllFunkoImages (api_server api_down)
     = Some ([base_params funko_PAGE_TITLE], Inl (RequestError ''ENOTFOUND''))"
  "fetchAllVillagerImages no_collation (api_server api_down)
     = Some ([base_params villagers_PAGE_TITLE], Inl (RequestError ''ENOTFOUND''))"
  by (simp_all add: fetchAllFunkoImages_def fetchAllVillagerImages_def
      query_loop_fetch_fails[OF query_params_first] fetchJson_def api_down_simps)

lemma error_body_simps:
  "error_body \<noteq> JNull" "get_prop error_body ''query'' = None"
  "get_prop error_body ''continue'' = None" "response_pages error_body = Inr []"
  by (simp_all add: error_body_def response_pages_def opt_prop_def truthy_opt_def)

lemma outage_harvests:
  "fetchAllFunkoImages (api_server outage) = Some ([base_params funko_PAGE_TITLE], Inr [])"
  "fetchAllVillagerImages no_collation (api_server outage)
     = Some ([base_params villagers_PAGE_TITLE], Inr [])"
  by (simp_all add: fetchAllFunkoImages_def fetchAllVillagerImages_def
      query_loop_last[OF query_params_first, where data = error_body and pages = "[]"]
      fetchJson_def outage_simps error_body_simps truthy_opt_def sort_by_name_def)

text \<open>C2, witness: an API that cannot be reached, and an API that answers with an error
  body and so yields no item; the image server serves every URL.\<close>

theorem fallback_only_in_funko_witness:
  "(\<exists>t s'. funko_main api_down io0 = Some (t, s')
       \<and> manifest s' = Some (map (\<lambda>(n, u, f). (n, f)) fallback_items) \<and> manifest s' \<noteq> Some [])
   \<and> (\<exists>t s'. funko_main outage io0 = Some (t, s') \<and> manifest s' = Some [] \<and> entries t = []
       \<and> files s' = files io0 \<and> requests s' = requests io0)
   \<and> (\<exists>s'. villagers_main no_collation api_down io0 = Some (Inl (RequestError ''ENOTFOUND''), s')
       \<and> manifest s' = manifest io0 \<and> files s' = files io0 \<and> requests s' = requests io0)
   \<and> (\<exists>t s'. villagers_main no_collation outage io0 = Some (Inr t, s')
       \<and> manifest s' = Some [] \<and> entries t = [])"
proof (intro conjI)
  have "\<forall>i \<in> set getFallbackImages. \<forall>s.
          downloadImage api_down (Some (url i)) (safeFilename (filename i)) s \<noteq> None"
    by (simp add: downloadImage_served[OF api_down_simps(2) api_down_simps(3)])
  with fallback_only_in_funko[where w = api_down and s = io0
      and issued = "[base_params funko_PAGE_TITLE]" and err = "RequestError ''ENOTFOUND''",
      THEN conjunct1] api_down_harvests(1)
  show "\<exists>t s'. funko_main api_down io0 = Some (t, s')
       \<and> manifest s' = Some (map (\<lambda>(n, u, f). (n, f)) fallback_items) \<and> manifest s' \<noteq> Some []"
    by blast
next
  from fallback_only_in_funko[where w = outage and s = io0
      and issued = "[base_params funko_PAGE_TITLE]", THEN conjunct2, THEN conjunct1]
    outage_harvests(1)
  show "\<exists>t s'. funko_main outage io0 = Some (t, s') \<and> manifest s' = Some [] \<and> entries t = []
       \<and> files s' = files io0 \<and> requests s' = requests io0"
    by blast
next
  from fallback_only_in_funko[where w = api_down and s = io0 and cmp = no_collation
      and issued = "[base_params villagers_PAGE_TITLE]" and err = "RequestError ''ENOTFOUND''",
      THEN conjunct2, THEN conjunct2, THEN conjunct1] api_down_harvests(2)
  show "\<exists>s'. villagers_main no_collation api_down io0 = Some (Inl (RequestError ''ENOTFOUND''), s')
       \<and> manifest s' = manifest io0 \<and> files s' = files io0 \<and> requests s' = requests io0"
    by blast
next
  from fallback_only_in_funko[where w = outage and s = io0 and cmp = no_collation
      and issued = "[base_params villagers_PAGE_TITLE]",
      THEN conjunct2, THEN conjunct2, THEN conjunct2] outage_harvests(2)
  show "\<exists>t s'. villagers_main no_collation outage io0 = Some (Inr t, s')
       \<and> manifest s' = Some [] \<and> entries t = []"
    by blast
qed

text \<open>
  C2, counterexample. The API cannot be reached and fetch-villagers.js is run: the
  driver fails, no fallback list takes its place, \<open>main\<close> rejects with the driver's
  error after its first line of output, and no manifest is written.
\<close>

theorem villagers_run_without_fallback:
  "villagers_main no_collation api_down io0
     = Some (Inl (RequestError ''ENOTFOUND''),
             io0\<lparr>console := [Log ''Fetching villager list from Fandom API...'']\<rparr>)
   \<and> manifest (io0\<lparr>console := [Log ''Fetching villager list from Fandom API...'']\<rparr>) = None"
  by (simp add: villagers_main_char api_down_harvests io0_def)

lemma query_loop_null_body:
  assumes "query_params t tok = Inr ps" and "fetchJson net e ps = Inr JNull"
  shows "query_loop net e t collect a tok issued = Some (issued @ [ps], Inl TypeError)"
  using assms by (subst query_loop.simps) (simp add: response_pages_def)

lemma fallback_run:
  assumes "fetchAllFunkoImages (api_server w) = Some (issued, Inl err)"
    and "\<forall>i \<in> set getFallbackImages. \<forall>s.
            downloadImage w (Some (url i)) (safeFilename (filename i)) s \<noteq> None"
  shows "\<exists>t s'. funko_main w s = Some (t, s')
           \<and> manifest s' = Some (listing (funko_new {} getFallbackImages))"
proof -
  let ?s = "s\<lparr>console := console s @ [Log ''Fetching Harry Potter Funko list from Fandom API...'']\<rparr>"
  from assms(1) obtain s1 where h: "funko_harvest w ?s = Some (getFallbackImages, s1)"
    by (simp add: funko_harvest_def)
  from funko_main_returns[OF h] assms(2) obtain t s' where r: "funko_main w s = Some (t, s')"
    by blast
  from r h have "manifest s' = Some (listing (funko_new {} getFallbackImages))"
    by (auto simp: funko_main_char split: option.splits dest: mirror_all_effect)
  with r show ?thesis by blast
qed

lemma fallback_listing_length: "length (listing (funko_new {} getFallbackImages)) = 20"
  unfolding fallback_listing by (simp add: fallback_items_def)

lemma null_body_simps:
  "api_server null_body e ps = ApiResponse 200 (Some JNull)"
  "image_server null_body u = Response 200 None ''img''"
  "disk null_body f = Finishes"
  by (simp_all add: null_body_def)

lemma null_body_harvests:
  "fetchJson (api_server null_body) funko_API_URL (base_params funko_PAGE_TITLE) = Inr JNull"
  "fetchAllFunkoImages (api_server null_body)
     = Some ([base_params funko_PAGE_TITLE], Inl TypeError)"
  "fetchAllVillagerImages no_collation (api_server null_body)
     = Some ([base_params villagers_PAGE_TITLE], Inl TypeError)"
  by (simp_all add: fetchAllFunkoImages_def fetchAllVillagerImages_def
      query_loop_null_body[OF query_params_first] fetchJson_def null_body_simps)

lemma null_body_downloads:
  "\<forall>i \<in> set getFallbackImages. \<forall>s.
     downloadImage null_body (Some (url i)) (safeFilename (filename i)) s \<noteq> None"
  by (simp add: downloadImage_served[OF null_body_simps(2) null_body_simps(3)])

text \<open>
  C10, as amended. The JSON fetcher resolves with the parsed body of any response whose
  body parses, whatever the status code. When the API answers the first request with
  any status code and a body that parses to a value other than \<open>null\<close>, with no
  \<open>query.pages\<close> and with \<open>continue\<close> absent or falsy, the driver of either script
  succeeds with no item after that one request, and \<open>main\<close> returns having written an
  empty manifest: fetch-funko-hp.js does not use its fallback list. When the body
  parses to \<open>null\<close>, reading \<open>data.query\<close> throws: the driver of either script rejects
  with a \<open>TypeError\<close> after that one request; fetch-funko-hp.js then uses its fallback
  list and, when the downloads of the fallback items return, writes the manifest of the
  fallback items; \<open>main\<close> of fetch-villagers.js rejects after its first line of output
  and writes no manifest.
\<close>

theorem error_body_is_an_empty_harvest:
  "(net endpoint ps = ApiResponse code (Some data) \<longrightarrow> fetchJson net endpoint ps = Inr data)
   \<and> (api_server w funko_API_URL (base_params funko_PAGE_TITLE) = ApiResponse code (Some data)
        \<and> data \<noteq> JNull \<and> opt_prop (get_prop data ''query'') ''pages'' = None
        \<and> \<not> truthy_opt (get_prop data ''continue'') \<longrightarrow>
      fetchAllFunkoImages (api_server w) = Some ([base_params funko_PAGE_TITLE], Inr [])
      \<and> funko_main w s =
          Some (tally0,
                s\<lparr>manifest := Some [],
                  console := console s @
                    [Log ''Fetching Harry Potter Funko list from Fandom API...'',
                     Log (CHR 0x0A # ''Done! Downloaded 0, skipped 0.''),
                     Log (''Funko list written to '' @ funko_JSON)]\<rparr>))
   \<and> (api_server w villagers_API_URL (base_params villagers_PAGE_TITLE) = ApiResponse code (Some data)
        \<and> data \<noteq> JNull \<and> opt_prop (get_prop data ''query'') ''pages'' = None
        \<and> \<not> truthy_opt (get_prop data ''continue'') \<longrightarrow>
      fetchAllVillagerImages cmp (api_server w) = Some ([base_params villagers_PAGE_TITLE], Inr [])
      \<and> villagers_main cmp w s =
          Some (Inr tally0,
                s\<lparr>manifest := Some [],
                  console := console s @
                    [Log ''Fetching villager list from Fandom API...'',
                     Log (''Found 0 villager posters.'' @ [CHR 0x0A]),
                     Log (CHR 0x0A # ''Done! Downloaded 0, skipped 0.''),
                     Log (''Villager list written to '' @ villagers_JSON)]\<rparr>))
   \<and> (api_server w funko_API_URL (base_params funko_PAGE_TITLE) = ApiResponse code (Some JNull)
        \<longrightarrow> fetchAllFunkoImages (api_server w)
               = Some ([base_params funko_PAGE_TITLE], Inl TypeError))
   \<and> (api_server w funko_API_URL (base_params funko_PAGE_TITLE) = ApiResponse code (Some JNull)
        \<and> (\<forall>i \<in> set getFallbackImages. \<forall>s.
              downloadImage w (Some (url i)) (safeFilename (filename i)) s \<noteq> None) \<longrightarrow>
      (\<exists>t s'. funko_main w s = Some (t, s')
         \<and> manifest s' = Some (listing (funko_new {} getFallbackImages))
         \<and> length (listing (funko_new {} getFallbackImages)) = 20))
   \<and> (api_server w villagers_API_URL (base_params villagers_PAGE_TITLE) = ApiResponse code (Some JNull)
        \<longrightarrow>
      fetchAllVillagerImages cmp (api_server w)
        = Some ([base_params villagers_PAGE_TITLE], Inl TypeError)
      \<and> villagers_main cmp w s =
          Some (Inl TypeError,
                s\<lparr>console := console s @ [Log ''Fetching villager list from Fandom API...'']\<rparr>))"
proof (intro conjI impI)
  assume "net endpoint ps = ApiResponse code (Some data)"
  then show "fetchJson net endpoint ps = Inr data" by (simp add: fetchJson_def)
next
  assume a: "api_server w funko_API_URL (base_params funko_PAGE_TITLE) = ApiResponse code (Some data)
        \<and> data \<noteq> JNull \<and> opt_prop (get_prop data ''query'') ''pages'' = None
        \<and> \<not> truthy_opt (get_prop data ''continue'')"
  then have f: "fetchJson (api_server w) funko_API_URL (base_params funko_PAGE_TITLE) = Inr data"
    and p: "response_pages data = Inr []" and c: "\<not> truthy_opt (get_prop data ''continue'')"
    by (auto simp: fetchJson_def response_pages_def truthy_opt_def opt_prop_def Let_def)
  show h: "fetchAllFunkoImages (api_server w) = Some ([base_params funko_PAGE_TITLE], Inr [])"
    unfolding fetchAllFunkoImages_def
    using query_loop_last[OF query_params_first f p _ c, of funko_collect "[]" "[]" "[]"] by simp
  show "funko_main w s =
          Some (tally0,
                s\<lparr>manifest := Some [],
                  console := console s @
                    [Log ''Fetching Harry Potter Funko list from Fandom API...'',
                     Log (CHR 0x0A # ''Done! Downloaded 0, skipped 0.''),
                     Log (''Funko list written to '' @ funko_JSON)]\<rparr>)"
    by (simp add: funko_main_char funko_harvest_def h done_line_def show_nat.simps tally0_def)
next
  assume a: "api_server w villagers_API_URL (base_params villagers_PAGE_TITLE) = ApiResponse code (Some data)
        \<and> data \<noteq> JNull \<and> opt_prop (get_prop data ''query'') ''pages'' = None
        \<and> \<not> truthy_opt (get_prop data ''continue'')"
  then have f: "fetchJson (api_server w) villagers_API_URL (base_params villagers_PAGE_TITLE) = Inr data"
    and p: "response_pages data = Inr []" and c: "\<not> truthy_opt (get_prop data ''continue'')"
    by (auto simp: fetchJson_def response_pages_def truthy_opt_def opt_prop_def Let_def)
  show h: "fetchAllVillagerImages cmp (api_server w) = Some ([base_params villagers_PAGE_TITLE], Inr [])"
    unfolding fetchAllVillagerImages_def
    using query_loop_last[OF query_params_first f p _ c, of villager_collect "[]" "[]" "[]"]
    by (simp add: sort_by_name_def)
  show "villagers_main cmp w s =
          Some (Inr tally0,
                s\<lparr>manifest := Some [],
                  console := console s @
                    [Log ''Fetching villager list from Fandom API...'',
                     Log (''Found 0 villager posters.'' @ [CHR 0x0A]),
                     Log (CHR 0x0A # ''Done! Downloaded 0, skipped 0.''),
                     Log (''Villager list written to '' @ villagers_JSON)]\<rparr>)"
    by (simp add: villagers_main_char h done_line_def show_nat.simps tally0_def)
next
  assume "api_server w funko_API_URL (base_params funko_PAGE_TITLE) = ApiResponse code (Some JNull)"
  then show "fetchAllFunkoImages (api_server w)
               = Some ([base_params funko_PAGE_TITLE], Inl TypeError)"
    by (simp add: fetchAllFunkoImages_def query_loop_null_body[OF query_params_first]
        fetchJson_def)
next
  assume a: "api_server w funko_API_URL (base_params funko_PAGE_TITLE) = ApiResponse code (Some JNull)
        \<and> (\<forall>i \<in> set getFallbackImages. \<forall>s.
              downloadImage w (Some (url i)) (safeFilename (filename i)) s \<noteq> None)"
  then have h: "fetchAllFunkoImages (api_server w)
               = Some ([base_params funko_PAGE_TITLE], Inl TypeError)"
    by (simp add: fetchAllFunkoImages_def query_loop_null_body[OF query_params_first]
        fetchJson_def)
  from fallback_run[OF h, of s] a fallback_listing_length
  show "\<exists>t s'. funko_main w s = Some (t, s')
         \<and> manifest s' = Some (listing (funko_new {} getFallbackImages))
         \<and> length (listing (funko_new {} getFallbackImages)) = 20"
    by blast
next
  assume a: "api_server w villagers_API_URL (base_params villagers_PAGE_TITLE)
               = ApiResponse code (Some JNull)"
  then show h: "fetchAllVillagerImages cmp (api_server w)
        = Some ([base_params villagers_PAGE_TITLE], Inl TypeError)"
    by (simp add: fetchAllVillagerImages_def query_loop_null_body[OF query_params_first]
        fetchJson_def)
  show "villagers_main cmp w s =
          Some (Inl TypeError,
                s\<lparr>console := console s @ [Log ''Fetching villager list from Fandom API...'']\<rparr>)"
    by (simp add: villagers_main_char h)
qed

text \<open>C10, witness: an API that answers 503 with the body
  \<open>{"error": {"code": "readonly", "info": ...}}\<close>, and an API that answers with the
  body \<open>null\<close>; the image server serves every URL.\<close>

theorem error_body_is_an_empty_harvest_witness:
  "fetchJson (api_server outage) funko_API_URL (base_params funko_PAGE_TITLE) = Inr error_body
   \<and> fetchAllFunkoImages (api_server outage) = Some ([base_params funko_PAGE_TITLE], Inr [])
   \<and> funko_main outage io0 =
          Some (tally0,
                io0\<lparr>manifest := Some [],
                  console := console io0 @
                    [Log ''Fetching Harry Potter Funko list from Fandom API...'',
                     Log (CHR 0x0A # ''Done! Downloaded 0, skipped 0.''),
                     Log (''Funko list written to '' @ funko_JSON)]\<rparr>)
   \<and> fetchAllVillagerImages no_collation (api_server outage)
        = Some ([base_params villagers_PAGE_TITLE], Inr [])
   \<and> villagers_main no_collation outage io0 =
          Some (Inr tally0,
                io0\<lparr>manifest := Some [],
                  console := console io0 @
                    [Log ''Fetching villager list from Fandom API...'',
                     Log (''Found 0 villager posters.'' @ [CHR 0x0A]),
                     Log (CHR 0x0A # ''Done! Downloaded 0, skipped 0.''),
                     Log (''Villager list written to '' @ villagers_JSON)]\<rparr>)
   \<and> fetchAllFunkoImages (api_server null_body)
        = Some ([base_params funko_PAGE_TITLE], Inl TypeError)
   \<and> (\<exists>t s'. funko_main null_body io0 = Some (t, s')
         \<and> manifest s' = Some (listing (funko_new {} getFallbackImages))
         \<and> length (listing (funko_new {} getFallbackImages)) = 20)
   \<and> fetchAllVillagerImages no_collation (api_server null_body)
        = Some ([base_params villagers_PAGE_TITLE], Inl TypeError)
   \<and> villagers_main no_collation null_body io0 =
          Some (Inl TypeError,
                io0\<lparr>console := console io0 @ [Log ''Fetching villager list from Fandom API...'']\<rparr>)"
proof -
  have q: "opt_prop (get_prop error_body ''query'') ''pages'' = None"
    "\<not> truthy_opt (get_prop error_body ''continue'')"
    by (simp_all add: error_body_simps opt_prop_def truthy_opt_def)
  note inst = error_body_is_an_empty_harvest[where w = outage and s = io0 and code = 503
      and data = error_body and cmp = no_collation and net = "api_server outage"
      and endpoint = funko_API_URL and ps = "base_params funko_PAGE_TITLE"]
  note null = error_body_is_an_empty_harvest[where w = null_body and s = io0 and code = 200
      and cmp = no_collation, THEN conjunct2, THEN conjunct2, THEN conjunct2]
  from inst[THEN conjunct1] inst[THEN conjunct2, THEN conjunct1]
    inst[THEN conjunct2, THEN conjunct2, THEN conjunct1]
    outage_simps(1) error_body_simps(1) q
  have 1: "fetchJson (api_server outage) funko_API_URL (base_params funko_PAGE_TITLE) = Inr error_body
   \<and> fetchAllFunkoImages (api_server outage) = Some ([base_params funko_PAGE_TITLE], Inr [])
   \<and> funko_main outage io0 =
          Some (tally0,
                io0\<lparr>manifest := Some [],
                  console := console io0 @
                    [Log ''Fetching Harry Potter Funko list from Fandom API...'',
                     Log (CHR 0x0A # ''Done! Downloaded 0, skipped 0.''),
                     Log (''Funko list written to '' @ funko_JSON)]\<rparr>)
   \<and> fetchAllVillagerImages no_collation (api_server outage)
        = Some ([base_params villagers_PAGE_TITLE], Inr [])
   \<and> villagers_main no_collation outage io0 =
          Some (Inr tally0,
                io0\<lparr>manifest := Some [],
                  console := console io0 @
                    [Log ''Fetching villager list from Fandom API...'',
                     Log (''Found 0 villager posters.'' @ [CHR 0x0A]),
                     Log (CHR 0x0A # ''Done! Downloaded 0, skipped 0.''),
                     Log (''Villager list written to '' @ villagers_JSON)]\<rparr>)"
    by blast
  from null[THEN conjunct1] null[THEN conjunct2, THEN conjunct1] null[THEN conjunct2, THEN conjunct2]
    null_body_simps(1) null_body_downloads
  have 2: "fetchAllFunkoImages (api_server null_body)
        = Some ([base_params funko_PAGE_TITLE], Inl TypeError)
   \<and> (\<exists>t s'. funko_main null_body io0 = Some (t, s')
         \<and> manifest s' = Some (listing (funko_new {} getFallbackImages))
         \<and> length (listing (funko_new {} getFallbackImages)) = 20)
   \<and> fetchAllVillagerImages no_collation (api_server null_body)
        = Some ([base_params villagers_PAGE_TITLE], Inl TypeError)
   \<and> villagers_main no_collation null_body io0 =
          Some (Inl TypeError,
                io0\<lparr>console := console io0 @ [Log ''Fetching villager list from Fandom API...'']\<rparr>)"
    by blast
  from 1 2 show ?thesis by (simp only: conj_assoc)
qed

text \<open>
  C10, counterexample. The API answers every request with status 200 and the body
  \<open>null\<close>, which parses as JSON and has no \<open>query.pages\<close>. The fetcher resolves with
  it, and the driver of either script rejects with a \<open>TypeError\<close>, since it reads
  \<open>data.query\<close>: the harvest fails. fetch-funko-hp.js then uses its fallback list and
  writes a manifest of twenty entries; \<open>main\<close> of fetch-villagers.js rejects and writes
  no manifest.
\<close>

theorem null_body_uses_fallback:
  "fetchJson (api_server null_body) funko_API_URL (base_params funko_PAGE_TITLE) = Inr JNull
   \<and> fetchAllFunkoImages (api_server null_body)
        = Some ([base_params funko_PAGE_TITLE], Inl TypeError)
   \<and> map_option (manifest \<circ> snd) (funko_main null_body io0)
        = Some (Some (listing (funko_new {} getFallbackImages)))
   \<and> length (listing (funko_new {} getFallbackImages)) = 20
   \<and> fetchAllVillagerImages no_collation (api_server null_body)
        = Some ([base_params villagers_PAGE_TITLE], Inl TypeError)
   \<and> villagers_main no_collation null_body io0
        = Some (Inl TypeError, io0\<lparr>console := [Log ''Fetching villager list from Fandom API...'']\<rparr>)
   \<and> manifest (io0\<lparr>console := [Log ''Fetching villager list from Fandom API...'']\<rparr>) = None"
proof -
  from fallback_run[OF null_body_harvests(2) null_body_downloads, of io0]
  have "map_option (manifest \<circ> snd) (funko_main null_body io0)
        = Some (Some (listing (funko_new {} getFallbackImages)))"
    by auto
  moreover have "villagers_main no_collation null_body io0
        = Some (Inl TypeError, io0\<lparr>console := [Log ''Fetching villager list from Fandom API...'']\<rparr>)"
    by (simp add: villagers_main_char null_body_harvests io0_def)
  moreover have "manifest (io0\<lparr>console := [Log ''Fetching villager list from Fandom API...'']\<rparr>) = None"
    by (simp add: io0_def)
  ultimately show ?thesis
    using null_body_harvests fallback_listing_length by blast
qed

lemma redirect_chain:
  assumes "redirects w (u # us)"
  shows "downloadImage w u f s
           = downloadImage w (last (u # us)) f (s\<lparr>requests := requests s @ butlast (u # us)\<rparr>)"
  using assms
proof (induction us arbitrary: u s)
  case Nil
  show ?case by simp
next
  case (Cons v us)
  from Cons.prems obtain c b where
    r: "image_server w u = Response c v b" "c = 301 \<or> c = 302" and rest: "redirects w (v # us)"
    by (auto split: response.splits)
  have "downloadImage w u f s = downloadImage w v f (s\<lparr>requests := requests s @ [u]\<rparr>)"
    by (rule downloadImage_redirect[OF r])
  also have "\<dots> = downloadImage w (last (v # us)) f
                      (s\<lparr>requests := requests s @ [u]\<rparr>\<lparr>requests :=
                          requests (s\<lparr>requests := requests s @ [u]\<rparr>) @ butlast (v # us)\<rparr>)"
    by (rule Cons.IH[OF rest])
  finally show ?case by simp
qed

lemma redirect_cycle_closed:
  assumes "redirects w (xs @ [z])" and "u \<in> set xs"
  shows "\<exists>c loc b. image_server w u = Response c loc b \<and> (c = 301 \<or> c = 302)
           \<and> loc \<in> set (xs @ [z])"
  using assms
proof (induction xs)
  case Nil
  then show ?case by simp
next
  case (Cons x xs)
  obtain y ys where nxt: "xs @ [z] = y # ys" by (cases "xs @ [z]") auto
  from Cons.prems(1) nxt obtain c b where
    r: "image_server w x = Response c y b" "c = 301 \<or> c = 302" and rest: "redirects w (xs @ [z])"
    by (auto split: response.splits)
  show ?case
  proof (cases "u = x")
    case True
    from nxt have "y \<in> set (xs @ [z])" by simp
    with r True show ?thesis by auto
  next
    case False
    with Cons.prems(2) have "u \<in> set xs" by simp
    from Cons.IH[OF rest this] show ?thesis by auto
  qed
qed

lemma redirect_cycle_never:
  assumes closed: "\<forall>u \<in> R. \<exists>c loc b. image_server w0 u = Response c loc b \<and> (c = 301 \<or> c = 302)
                      \<and> loc \<in> R"
    and ret: "downloadImage w u f s = Some y"
  shows "\<not> (w = w0 \<and> u \<in> R)"
proof (rule downloadImage.raw_induct [where P = "\<lambda>w u f s y. \<not> (w = w0 \<and> u \<in> R)", OF _ ret])
  fix dl :: "world \<Rightarrow> json option \<Rightarrow> string \<Rightarrow> io \<Rightarrow> ((error + unit) \<times> io) option"
    and w u f s y
  assume IH: "\<And>w u f s y. dl w u f s = Some y \<Longrightarrow> \<not> (w = w0 \<and> u \<in> R)"
    and step: "(case image_server w u of
        RequestFails m \<Rightarrow> Some (Inl (RequestError m), s\<lparr>requests := requests s @ [u]\<rparr>)
      | Response statusCode location body \<Rightarrow>
          if statusCode = 301 \<or> statusCode = 302
          then dl w location f (s\<lparr>requests := requests s @ [u]\<rparr>)
          else if statusCode \<noteq> 200
          then Some (Inl (HttpError statusCode), s\<lparr>requests := requests s @ [u]\<rparr>)
          else (case disk w f of
                  Finishes \<Rightarrow>
                    Some (Inr (), s\<lparr>requests := requests s @ [u],
                                     files := (files s)(f \<mapsto> body)\<rparr>)
                | OpenFails m \<Rightarrow>
                    Some (Inl (WriteError m), s\<lparr>requests := requests s @ [u]\<rparr>)
                | WriteFails n m \<Rightarrow>
                    Some (Inl (WriteError m), s\<lparr>requests := requests s @ [u],
                                                 files := (files s)(f \<mapsto> take n body)\<rparr>))
      | BreaksOff part m \<Rightarrow>
          (case disk w f of
             Finishes \<Rightarrow>
               Some (Inl (RequestError m), s\<lparr>requests := requests s @ [u],
                                               files := (files s)(f \<mapsto> part)\<rparr>)
           | OpenFails m' \<Rightarrow>
               Some (Inl (WriteError m'), s\<lparr>requests := requests s @ [u]\<rparr>)
           | WriteFails n m' \<Rightarrow>
               if n < length part
               then Some (Inl (WriteError m'), s\<lparr>requests := requests s @ [u],
                                                  files := (files s)(f \<mapsto> take n part)\<rparr>)
               else Some (Inl (RequestError m), s\<lparr>requests := requests s @ [u],
                                                  files := (files s)(f \<mapsto> part)\<rparr>))
      | Stalls part \<Rightarrow>
          (case disk w f of
             Finishes \<Rightarrow> None
           | OpenFails m' \<Rightarrow>
               Some (Inl (WriteError m'), s\<lparr>requests := requests s @ [u]\<rparr>)
           | WriteFails n m' \<Rightarrow>
               if n < length part
               then Some (Inl (WriteError m'), s\<lparr>requests := requests s @ [u],
                                                  files := (files s)(f \<mapsto> take n part)\<rparr>)
               else None)) = Some y"
  show "\<not> (w = w0 \<and> u \<in> R)"
  proof
    assume a: "w = w0 \<and> u \<in> R"
    with closed obtain c loc b where
      r: "image_server w u = Response c loc b" "c = 301 \<or> c = 302" "loc \<in> R" by blast
    with step have "dl w loc f (s\<lparr>requests := requests s @ [u]\<rparr>) = Some y" by auto
    from IH[OF this] a r(3) show False by simp
  qed
qed

text \<open>
  C3, as amended. The downloader follows every 301 or 302 to the URL of the
  \<open>Location\<close> header and counts no hops: through a chain of redirects of any length that
  ends in a response 200 whose body is written, it mirrors that body, having sent one
  request for each URL of the chain; on a cycle of redirects it never returns. No
  error reports too many redirects.
\<close>

theorem redirects_followed_without_bound:
  "(redirects w us \<and> us \<noteq> [] \<and> image_server w (last us) = Response 200 loc body
      \<and> disk w f = Finishes \<longrightarrow>
    downloadImage w (hd us) f s
      = Some (Inr (), s\<lparr>requests := requests s @ us, files := (files s)(f \<mapsto> body)\<rparr>))
   \<and> (redirects w (us @ [hd us]) \<and> us \<noteq> [] \<longrightarrow> downloadImage w (hd us) f s = None)"
proof (intro conjI impI)
  assume a: "redirects w us \<and> us \<noteq> [] \<and> image_server w (last us) = Response 200 loc body
      \<and> disk w f = Finishes"
  then obtain u vs where us: "us = u # vs" by (cases us) auto
  with a have "downloadImage w (hd us) f s
      = downloadImage w (last us) f (s\<lparr>requests := requests s @ butlast us\<rparr>)"
    using redirect_chain[of w u vs f s] by simp
  also have "\<dots> = Some (Inr (), s\<lparr>requests := requests s @ butlast us\<rparr>
                 \<lparr>requests := requests (s\<lparr>requests := requests s @ butlast us\<rparr>) @ [last us],
                  files := (files (s\<lparr>requests := requests s @ butlast us\<rparr>))(f \<mapsto> body)\<rparr>)"
    using a by (intro downloadImage_served) auto
  also have "\<dots> = Some (Inr (), s\<lparr>requests := requests s @ us, files := (files s)(f \<mapsto> body)\<rparr>)"
    using a by simp
  finally show "downloadImage w (hd us) f s
      = Some (Inr (), s\<lparr>requests := requests s @ us, files := (files s)(f \<mapsto> body)\<rparr>)" .
next
  assume a: "redirects w (us @ [hd us]) \<and> us \<noteq> []"
  have closed: "\<forall>u \<in> set us. \<exists>c loc b. image_server w u = Response c loc b \<and> (c = 301 \<or> c = 302)
                      \<and> loc \<in> set us"
  proof
    fix u assume "u \<in> set us"
    from redirect_cycle_closed[OF _ this, of w "hd us"] a
    show "\<exists>c loc b. image_server w u = Response c loc b \<and> (c = 301 \<or> c = 302) \<and> loc \<in> set us"
      by auto
  qed
  show "downloadImage w (hd us) f s = None"
  proof (cases "downloadImage w (hd us) f s")
    case None
    then show ?thesis .
  next
    case (Some y)
    from redirect_cycle_never[OF closed Some] a show ?thesis by simp
  qed
qed

lemma six_hops_chain: "redirects six_hops six_urls" "redirects six_hops ([Some (JStr ''loop'')] @ [hd [Some (JStr ''loop'')]])"
  by code_simp+

text \<open>C3, witness: a chain of six redirects that ends in the image, and a URL that
  redirects to itself.\<close>

theorem redirects_followed_without_bound_witness:
  "downloadImage six_hops (Some (JStr ''h0'')) ''A.png'' io0
     = Some (Inr (), io0\<lparr>requests := requests io0 @ six_urls,
                         files := (files io0)(''A.png'' \<mapsto> ''img'')\<rparr>)
   \<and> downloadImage six_hops (Some (JStr ''loop'')) ''A.png'' io0 = None"
proof -
  have l: "image_server six_hops (last six_urls) = Response 200 None ''img''"
    and d: "disk six_hops ''A.png'' = Finishes" and n: "six_urls \<noteq> []"
    and h: "hd six_urls = Some (JStr ''h0'')"
    by (simp_all add: six_hops_def six_urls_def)
  from redirects_followed_without_bound[where w = six_hops and us = six_urls and f = "''A.png''"
      and s = io0 and loc = None and body = "''img''", THEN conjunct1] six_hops_chain(1) l d n h
  have 1: "downloadImage six_hops (Some (JStr ''h0'')) ''A.png'' io0
     = Some (Inr (), io0\<lparr>requests := requests io0 @ six_urls,
                         files := (files io0)(''A.png'' \<mapsto> ''img'')\<rparr>)"
    by simp
  from redirects_followed_without_bound[where w = six_hops and us = "[Some (JStr ''loop'')]"
      and f = "''A.png''" and s = io0, THEN conjunct2] six_hops_chain(2)
  have 2: "downloadImage six_hops (Some (JStr ''loop'')) ''A.png'' io0 = None"
    by simp
  from 1 2 show ?thesis by simp
qed

text \<open>
  C3, counterexample. An image URL answers 302 six times in a row, each time with a new
  location, before the image is served: the downloader sends seven requests and
  succeeds, with the image written to the destination. It does not stop after five
  hops and does not fail.
\<close>

theorem six_redirects_succeed:
  "downloadImage six_hops (Some (JStr ''h0'')) ''A.png'' io0
     = Some (Inr (),
             io0\<lparr>requests := [Some (JStr ''h0''), Some (JStr ''h1''), Some (JStr ''h2''),
                               Some (JStr ''h3''), Some (JStr ''h4''), Some (JStr ''h5''),
                               Some (JStr ''h6'')],
                 files := [''A.png'' \<mapsto> ''img'']\<rparr>)"
  by (simp add: downloadImage.simps six_hops_def io0_def)






lemma mw_continue_params:
  "query_params t (Some mw_continue) = Inr (base_params t @ [(''undefined'', ''undefined'')])"
  by (simp add: query_params_def mw_continue_def toString_opt_def set_property_def base_params_def
      is_array_index_def digit_value_def)

lemma paged_api_first:
  "fetchJson paged_api e (base_params t) = Inr first_batch"
  "fetchJson paged_api e (base_params t @ [(''undefined'', ''undefined'')]) = Inr first_batch"
  by (simp_all add: fetchJson_def paged_api_def base_params_def)

lemma first_batch_simps:
  "response_pages first_batch = Inr [file_page ''File:A.png'' ''u1'']"
  "get_prop first_batch ''continue'' = Some mw_continue"
  "truthy_opt (Some mw_continue)"
  by (simp_all add: first_batch_def response_pages_def opt_prop_def truthy_opt_def mw_continue_def)

lemma paged_api_never:
  assumes total: "\<forall>a. \<exists>a'. cl a [file_page ''File:A.png'' ''u1''] = Inr a'"
    and ret: "query_loop net e t c a tok issued = Some y"
  shows "\<not> (net = paged_api \<and> c = cl \<and> (tok = None \<or> tok = Some mw_continue))"
proof (rule query_loop.raw_induct
    [where P = "\<lambda>net e t c a tok issued y.
                  \<not> (net = paged_api \<and> c = cl \<and> (tok = None \<or> tok = Some mw_continue))",
      OF _ ret])
  fix loop :: "api \<Rightarrow> string \<Rightarrow> string \<Rightarrow> ('a \<Rightarrow> json list \<Rightarrow> error + 'a) \<Rightarrow> 'a \<Rightarrow> json option
                 \<Rightarrow> params list \<Rightarrow> (params list \<times> (error + 'a)) option"
    and net e t c a tok issued y
  assume IH: "\<And>net e t c a tok issued y. loop net e t c a tok issued = Some y \<Longrightarrow>
      \<not> (net = paged_api \<and> c = cl \<and> (tok = None \<or> tok = Some mw_continue))"
    and step: "(case query_params t tok of
        Inl e \<Rightarrow> Some (issued, Inl e)
      | Inr ps \<Rightarrow>
          (case fetchJson net e ps of
             Inl e \<Rightarrow> Some (issued @ [ps], Inl e)
           | Inr data \<Rightarrow>
               (case response_pages data of
                  Inl e \<Rightarrow> Some (issued @ [ps], Inl e)
                | Inr pages \<Rightarrow>
                    (case c a pages of
                       Inl e \<Rightarrow> Some (issued @ [ps], Inl e)
                     | Inr collected' \<Rightarrow>
                         if truthy_opt (get_prop data ''continue'')
                         then loop net e t c collected' (get_prop data ''continue'') (issued @ [ps])
                         else Some (issued @ [ps], Inr collected'))))) = Some y"
  show "\<not> (net = paged_api \<and> c = cl \<and> (tok = None \<or> tok = Some mw_continue))"
  proof
    assume a: "net = paged_api \<and> c = cl \<and> (tok = None \<or> tok = Some mw_continue)"
    from total obtain a' where col: "cl a [file_page ''File:A.png'' ''u1''] = Inr a'" by blast
    from a step col obtain issued' where
      "loop paged_api e t cl a' (Some mw_continue) issued' = Some y"
      by (auto simp: mw_continue_params query_params_first paged_api_first first_batch_simps)
    from IH[OF this] show False by simp
  qed
qed

lemma collect_first_batch:
  "\<forall>a. \<exists>a'. funko_collect a [file_page ''File:A.png'' ''u1''] = Inr a'"
  "\<forall>a. \<exists>a'. villager_collect a [file_page ''File:A.png'' ''u1''] = Inr a'"
  by (simp_all add: funko_item_def villager_item_def poster_match_def json_defs string_defs Let_def)

text \<open>
  C1, the code at a response of the MediaWiki API. The response carries
  \<open>continue = {"gimcontinue": "12|B.png", "continue": "gimcontinue||"}\<close>. The next
  request has the seven fixed parameters and \<open>undefined=undefined\<close>: the script reads the
  properties \<open>key\<close> and \<open>value\<close> of the \<open>continue\<close> object, which has neither, and none of
  the two continuation pairs is sent. An API that serves the second batch only when it
  is asked for it with \<open>gimcontinue\<close> then answers every request with the first batch,
  and the driver of either script never returns.
\<close>

theorem continuation_pairs_not_sent:
  "query_params funko_PAGE_TITLE (Some mw_continue)
     = Inr (base_params funko_PAGE_TITLE @ [(''undefined'', ''undefined'')])
   \<and> map_of (base_params funko_PAGE_TITLE @ [(''undefined'', ''undefined'')]) ''gimcontinue'' = None
   \<and> map_of (base_params funko_PAGE_TITLE @ [(''undefined'', ''undefined'')]) ''continue'' = None
   \<and> fetchAllFunkoImages paged_api = None
   \<and> fetchAllVillagerImages no_collation paged_api = None"
proof (intro conjI)
  show "query_params funko_PAGE_TITLE (Some mw_continue)
     = Inr (base_params funko_PAGE_TITLE @ [(''undefined'', ''undefined'')])"
    by (rule mw_continue_params)
  show "map_of (base_params funko_PAGE_TITLE @ [(''undefined'', ''undefined'')]) ''gimcontinue'' = None"
    and "map_of (base_params funko_PAGE_TITLE @ [(''undefined'', ''undefined'')]) ''continue'' = None"
    by (simp_all add: base_params_def)
  show "fetchAllFunkoImages paged_api = None"
    using paged_api_never[where cl = funko_collect and net = paged_api and e = funko_API_URL
        and t = funko_PAGE_TITLE and c = funko_collect and a = "[]" and tok = None and issued = "[]",
        OF collect_first_batch(1)]
    by (cases "fetchAllFunkoImages paged_api") (auto simp: fetchAllFunkoImages_def)
  have "query_loop paged_api villagers_API_URL villagers_PAGE_TITLE villager_collect [] None [] = None"
    using paged_api_never[where cl = villager_collect and net = paged_api and e = villagers_API_URL
        and t = villagers_PAGE_TITLE and c = villager_collect and a = "[]" and tok = None
        and issued = "[]", OF collect_first_batch(2)]
    by (cases "query_loop paged_api villagers_API_URL villagers_PAGE_TITLE villager_collect [] None []")
      auto
  then show "fetchAllVillagerImages no_collation paged_api = None"
    by (simp add: fetchAllVillagerImages_def)
qed

lemma map_of_map_set:
  "map_of (map_set m k v) n = (if n = k then Some v else map_of m n)"
proof -
  have "map_of (map (\<lambda>(k', v'). if k' = k then (k', v) else (k', v')) m) n
          = (if n = k then (case map_of m k of None \<Rightarrow> None | Some e \<Rightarrow> Some v) else map_of m n)"
    by (induction m) auto
  moreover have "k \<in> set (map fst m) \<longleftrightarrow> map_of m k \<noteq> None"
    by (simp add: map_of_eq_None_iff)
  ultimately show ?thesis by (auto simp: map_set_def map_add_def split: option.splits)
qed

lemma keys_map_set:
  "map fst (map_set m k v) = (if k \<in> set (map fst m) then map fst m else map fst m @ [k])"
proof -
  have "map fst (map (\<lambda>(k', v'). if k' = k then (k', v) else (k', v')) m) = map fst m"
    by (induction m) auto
  then show ?thesis by (simp add: map_set_def)
qed

lemma keys_villager_put:
  "distinct (map fst m) \<Longrightarrow> distinct (map fst (villager_put m v))"
  by (auto simp: villager_put_def keys_map_set split: option.splits dest: map_of_SomeD)

lemma names_villager_put:
  "\<forall>(k, e) \<in> set m. vname e = k \<Longrightarrow> \<forall>(k, e) \<in> set (villager_put m v). vname e = k"
  by (auto simp: villager_put_def map_set_def split: option.splits if_splits)

lemma villager_collect_fold:
  "villager_collect m pages = Inr m' \<Longrightarrow> m' = foldl villager_put m (candidates pages)"
proof (induction pages arbitrary: m)
  case Nil
  then show ?case by simp
next
  case (Cons page pages)
  then show ?case by (cases "villager_item page") (auto split: option.splits)
qed

lemma villager_fold_keys:
  "distinct (map fst m) \<Longrightarrow> distinct (map fst (foldl villager_put m vs))"
  by (induction vs arbitrary: m) (simp_all add: keys_villager_put)

lemma villager_fold_names:
  "\<forall>(k, e) \<in> set m. vname e = k \<Longrightarrow> \<forall>(k, e) \<in> set (foldl villager_put m vs). vname e = k"
proof (induction vs arbitrary: m)
  case Nil
  then show ?case by simp
next
  case (Cons v vs)
  from Cons.IH[OF names_villager_put[OF Cons.prems]] show ?case by simp
qed

lemma villager_fold_lookup:
  "map_of (foldl villager_put m vs) n =
     (case map_of m n of
        None \<Rightarrow>
          (case find (\<lambda>v. vname v = n \<and> \<not> isSq v) vs of
             Some v \<Rightarrow> Some v
           | None \<Rightarrow> find (\<lambda>v. vname v = n) vs)
      | Some e \<Rightarrow>
          if isSq e then
            (case find (\<lambda>v. vname v = n \<and> \<not> isSq v) vs of Some v \<Rightarrow> Some v | None \<Rightarrow> Some e)
          else Some e)"
proof (induction vs arbitrary: m)
  case Nil
  show ?case by (simp split: option.splits)
next
  case (Cons v vs)
  have put: "map_of (villager_put m v) n =
               (if vname v = n \<and> (map_of m n = None \<or> (isSq (the (map_of m n)) \<and> \<not> isSq v))
                then Some v else map_of m n)"
    by (auto simp: villager_put_def map_of_map_set split: option.splits)
  show ?case
    unfolding foldl_Cons Cons.IH put
    by (cases "map_of m n") (auto split: option.splits)
qed

lemma villager_collect_append:
  "villager_collect m (ps @ qs) =
     (case villager_collect m ps of Inl e \<Rightarrow> Inl e | Inr m' \<Rightarrow> villager_collect m' qs)"
proof (induction ps arbitrary: m)
  case Nil
  show ?case by simp
next
  case (Cons page ps)
  show ?case by (cases "villager_item page") (auto simp: Cons.IH split: option.splits)
qed

lemma query_loop_invariant:
  assumes keep: "\<And>a pages a'. I a \<Longrightarrow> c0 a pages = Inr a' \<Longrightarrow> I a'"
    and ret: "query_loop net e t c a tok issued = Some y"
  shows "c = c0 \<and> I a \<longrightarrow> (\<forall>a'. snd y = Inr a' \<longrightarrow> I a')"
proof (rule query_loop.raw_induct
    [where P = "\<lambda>net e t c a tok issued y. c = c0 \<and> I a \<longrightarrow> (\<forall>a'. snd y = Inr a' \<longrightarrow> I a')",
      OF _ ret])
  fix loop :: "api \<Rightarrow> string \<Rightarrow> string \<Rightarrow> ('a \<Rightarrow> json list \<Rightarrow> error + 'a) \<Rightarrow> 'a \<Rightarrow> json option
                 \<Rightarrow> params list \<Rightarrow> (params list \<times> (error + 'a)) option"
    and net e t c a tok issued y
  assume IH: "\<And>net e t c a tok issued y. loop net e t c a tok issued = Some y \<Longrightarrow>
      c = c0 \<and> I a \<longrightarrow> (\<forall>a'. snd y = Inr a' \<longrightarrow> I a')"
    and step: "(case query_params t tok of
        Inl e \<Rightarrow> Some (issued, Inl e)
      | Inr ps \<Rightarrow>
          (case fetchJson net e ps of
             Inl e \<Rightarrow> Some (issued @ [ps], Inl e)
           | Inr data \<Rightarrow>
               (case response_pages data of
                  Inl e \<Rightarrow> Some (issued @ [ps], Inl e)
                | Inr pages \<Rightarrow>
                    (case c a pages of
                       Inl e \<Rightarrow> Some (issued @ [ps], Inl e)
                     | Inr collected' \<Rightarrow>
                         if truthy_opt (get_prop data ''continue'')
                         then loop net e t c collected' (get_prop data ''continue'') (issued @ [ps])
                         else Some (issued @ [ps], Inr collected'))))) = Some y"
  show "c = c0 \<and> I a \<longrightarrow> (\<forall>a'. snd y = Inr a' \<longrightarrow> I a')"
  proof (intro impI allI)
    fix a' assume ci: "c = c0 \<and> I a" and res: "snd y = Inr a'"
    from step res obtain ps data pages a1 where
      col: "c a pages = Inr a1"
      and alt: "(truthy_opt (get_prop data ''continue'')
                  \<and> loop net e t c a1 (get_prop data ''continue'') (issued @ [ps]) = Some y)
                \<or> y = (issued @ [ps], Inr a1)"
      by (auto split: sum.splits if_splits)
    from keep[of a pages a1] ci col have i1: "I a1" by simp
    from alt show "I a'"
    proof
      assume "truthy_opt (get_prop data ''continue'')
                  \<and> loop net e t c a1 (get_prop data ''continue'') (issued @ [ps]) = Some y"
      with IH[of net e t c a1 "get_prop data ''continue''" "issued @ [ps]" y] ci i1 res
      show "I a'" by blast
    next
      assume "y = (issued @ [ps], Inr a1)"
      with res i1 show "I a'" by simp
    qed
  qed
qed

lemma villager_collect_keeps:
  assumes "distinct (map fst m) \<and> (\<forall>(k, e) \<in> set m. vname e = k)"
    and "villager_collect m pages = Inr m'"
  shows "distinct (map fst m') \<and> (\<forall>(k, e) \<in> set m'. vname e = k)"
  using assms villager_collect_fold[OF assms(2)] villager_fold_keys villager_fold_names
  by blast

lemma insert_sorted_names:
  "set (map vname (insert_sorted cmp v ws)) = insert (vname v) (set (map vname ws))"
  "distinct (map vname (insert_sorted cmp v ws))
     \<longleftrightarrow> vname v \<notin> set (map vname ws) \<and> distinct (map vname ws)"
  by (induction ws) auto

lemma sort_by_name_names:
  "set (map vname (sort_by_name cmp vs)) = set (map vname vs)
   \<and> (distinct (map vname (sort_by_name cmp vs)) \<longleftrightarrow> distinct (map vname vs))"
  unfolding sort_by_name_def
  by (induction vs) (simp_all add: insert_sorted_names del: set_map)

lemma harvested_names_distinct:
  assumes "fetchAllVillagerImages cmp net = Some (issued, Inr vs)"
  shows "distinct (map vname vs)"
proof -
  from assms obtain m where
    q: "query_loop net villagers_API_URL villagers_PAGE_TITLE villager_collect [] None []
          = Some (issued, Inr m)"
    and vs: "vs = sort_by_name cmp (map snd m)"
    by (auto simp: fetchAllVillagerImages_def split: option.splits sum.splits)
  have "distinct (map fst m) \<and> (\<forall>(k, e) \<in> set m. vname e = k)"
    using query_loop_invariant[where I = "\<lambda>m. distinct (map fst m) \<and> (\<forall>(k, e) \<in> set m. vname e = k)"
        and ?c0.0 = villager_collect, OF villager_collect_keeps q]
    by simp
  then have "map vname (map snd m) = map fst m" and "distinct (map fst m)" by auto
  then have "distinct (map vname (map snd m))" by (simp only:)
  with sort_by_name_names[of cmp "map snd m"] show ?thesis unfolding vs by blast
qed

lemma query_loop_served:
  assumes app: "\<And>a ps qs. collect a (ps @ qs)
                  = (case collect a ps of Inl x \<Rightarrow> Inl x | Inr a' \<Rightarrow> collect a' qs)"
  shows "served net e t tok ds \<Longrightarrow> pages_of ds = Inr pages \<Longrightarrow>
         \<exists>issued'. query_loop net e t collect a tok issued = Some (issued', collect a pages)
                    \<and> (\<forall>a'. collect a pages = Inr a' \<longrightarrow> length issued' = length issued + length ds)"
proof (induction ds arbitrary: tok pages a issued)
  case Nil
  then show ?case by simp
next
  case (Cons d ds)
  from Cons.prems(1) obtain ps where qp: "query_params t tok = Inr ps"
    and fj: "fetchJson net e ps = Inr d"
    by (auto split: sum.splits)
  from Cons.prems(2) obtain p1 qs where rp: "response_pages d = Inr p1"
    and po: "pages_of ds = Inr qs" and pg: "pages = p1 @ qs"
    by (auto split: sum.splits)
  show ?case
  proof (cases "ds = []")
    case True
    with Cons.prems(1) have nc: "\<not> truthy_opt (get_prop d ''continue'')" by simp
    from True po pg have "pages = p1" by simp
    with True show ?thesis
      by (subst query_loop.simps) (simp add: qp fj rp nc split: sum.splits)
  next
    case False
    with Cons.prems(1) have c: "truthy_opt (get_prop d ''continue'')"
      and sv: "served net e t (get_prop d ''continue'') ds" by simp_all
    show ?thesis
    proof (cases "collect a p1")
      case (Inl x)
      then have "collect a pages = Inl x" unfolding pg app by simp
      then show ?thesis
        by (subst query_loop.simps) (simp add: qp fj rp Inl)
    next
      case (Inr a1)
      then have cp: "collect a pages = collect a1 qs" unfolding pg app by simp
      from Cons.IH[OF sv po, of a1 "issued @ [ps]"] obtain issued' where
        ql: "query_loop net e t collect a1 (get_prop d ''continue'') (issued @ [ps])
               = Some (issued', collect a1 qs)"
        and len: "\<forall>a'. collect a1 qs = Inr a' \<longrightarrow>
                    length issued' = length (issued @ [ps]) + length ds"
        by blast
      have "query_loop net e t collect a tok issued = Some (issued', collect a pages)"
        by (subst query_loop.simps) (simp add: qp fj rp Inr c ql cp)
      moreover from len have "\<forall>a'. collect a pages = Inr a' \<longrightarrow>
                           length issued' = length issued + length (d # ds)"
        unfolding cp by simp
      ultimately show ?thesis by blast
    qed
  qed
qed

lemma insert_sorted_set: "set (insert_sorted cmp v ws) = insert v (set ws)"
  by (induction ws) auto

lemma sort_by_name_set: "set (sort_by_name cmp vs) = set vs"
  unfolding sort_by_name_def by (induction vs) (simp_all add: insert_sorted_set)

lemma find_by_key:
  "distinct (map f xs) \<Longrightarrow> v \<in> set xs \<Longrightarrow> find (\<lambda>x. f x = f v) xs = Some v"
  by (induction xs) (auto simp: image_iff)

lemma find_no_key: "n \<notin> f ` set xs \<Longrightarrow> find (\<lambda>x. f x = n) xs = None"
  by (induction xs) auto

lemma find_in_sorted:
  assumes d: "distinct (map fst m)" and nm: "\<forall>(k, e) \<in> set m. vname e = k"
  shows "find (\<lambda>v. vname v = n) (sort_by_name cmp (map snd m)) = map_of m n"
proof -
  from nm have eq: "map vname (map snd m) = map fst m" by auto
  with d have "distinct (map vname (map snd m))" by (simp only:)
  with sort_by_name_names[of cmp "map snd m"]
  have ds: "distinct (map vname (sort_by_name cmp (map snd m)))" by blast
  show ?thesis
  proof (cases "map_of m n")
    case None
    then have "n \<notin> fst ` set m" by (simp add: map_of_eq_None_iff)
    with nm have "n \<notin> vname ` set (sort_by_name cmp (map snd m))"
      unfolding sort_by_name_set by force
    then show ?thesis unfolding None by (rule find_no_key)
  next
    case (Some v)
    then have in_m: "(n, v) \<in> set m" by (rule map_of_SomeD)
    with nm have n: "vname v = n" by auto
    from in_m have "v \<in> set (sort_by_name cmp (map snd m))"
      unfolding sort_by_name_set by force
    from find_by_key[OF ds this] show ?thesis unfolding Some n .
  qed
qed

lemma two_batch_served:
  "served two_batch_api villagers_API_URL villagers_PAGE_TITLE None [bob_first_batch, bob_last_batch]"
  "pages_of [bob_first_batch, bob_last_batch] = Inr bob_pages"
  "fetchAllVillagerImages no_collation two_batch_api
     = Some ([base_params villagers_PAGE_TITLE,
              base_params villagers_PAGE_TITLE @ [(''c'', ''2'')]],
             Inr [\<lparr>vname = ''Bob'', vurl = JStr ''first'', isSq = False\<rparr>])"
  by code_simp+

lemma bob_collected:
  "villager_collect [] bob_pages
     = Inr [(''Bob'', \<lparr>vname = ''Bob'', vurl = JStr ''first'', isSq = False\<rparr>)]"
  "candidates bob_pages =
     [\<lparr>vname = ''Bob'', vurl = JStr ''sq'', isSq = True\<rparr>,
      \<lparr>vname = ''Bob'', vurl = JStr ''first'', isSq = False\<rparr>,
      \<lparr>vname = ''Bob'', vurl = JStr ''second'', isSq = False\<rparr>]"
  by code_simp+

lemma missing_url_harvest:
  "fetchJson missing_url_api villagers_API_URL (base_params villagers_PAGE_TITLE)
     = Inr missing_url_batch"
  "response_pages missing_url_batch
     = Inr [JObj [(''title'', JStr ''File:NH-Bob poster.png'')],
            file_page ''File:NH-Bob poster sq.png'' ''sq'']"
  "poster_match ''File:NH-Bob poster.png'' = Some (''Bob'', False)"
  "poster_match ''File:NH-Bob poster sq.png'' = Some (''Bob'', True)"
  "villager_item (JObj [(''title'', JStr ''File:NH-Bob poster.png'')]) = Inr None"
  "fetchAllVillagerImages no_collation missing_url_api
     = Some ([base_params villagers_PAGE_TITLE],
             Inr [\<lparr>vname = ''Bob'', vurl = JStr ''sq'', isSq = True\<rparr>])"
  by code_simp+

text \<open>
  C6, as amended. Let the API serve fetch-villagers.js a run of responses, each but the
  last with a continuation, whose bodies are objects, and let \<open>pages\<close> be the pages of
  these responses in order. A record takes part when it passes the tests of the script:
  its title matches the pattern of a poster and it carries an image URL (\<open>candidates\<close>);
  a record without an image URL is passed over before the preference is looked at. If
  no page makes the loop throw, the driver returns, after one request for each response,
  a list that holds each name once, and the entry for a name is: the first record of
  that name that is not square, if there is one among the records that take part,
  wherever the square ones stand and in whichever response they arrive; the first square
  record otherwise; none when no record of that name takes part. So a poster that is not
  square wins over a square one in either order of arrival, and a later record of the
  same class does not replace the first. If a page makes the loop throw, the driver
  rejects with that error. The same holds of one pass of the loop over a list of pages,
  pages that arrive in several responses are treated as one list, and every list the
  driver returns holds each name once.
\<close>

theorem primary_variant_preferred:
  "(served net villagers_API_URL villagers_PAGE_TITLE None ds \<and> pages_of ds = Inr pages
      \<and> villager_collect [] pages = Inr m \<longrightarrow>
      (\<exists>issued vs. fetchAllVillagerImages cmp net = Some (issued, Inr vs)
         \<and> length issued = length ds
         \<and> distinct (map vname vs)
         \<and> set vs = snd ` set m
         \<and> (\<forall>n. find (\<lambda>v. vname v = n) vs =
               (case find (\<lambda>v. vname v = n \<and> \<not> isSq v) (candidates pages) of
                  Some v \<Rightarrow> Some v
                | None \<Rightarrow> find (\<lambda>v. vname v = n) (candidates pages)))))
   \<and> (served net villagers_API_URL villagers_PAGE_TITLE None ds \<and> pages_of ds = Inr pages
      \<and> villager_collect [] pages = Inl x \<longrightarrow>
      (\<exists>issued. fetchAllVillagerImages cmp net = Some (issued, Inl x)))
   \<and> (villager_collect [] pages = Inr m \<longrightarrow>
      distinct (map fst m)
      \<and> map_of m n =
          (case find (\<lambda>v. vname v = n \<and> \<not> isSq v) (candidates pages) of
             Some v \<Rightarrow> Some v
           | None \<Rightarrow> find (\<lambda>v. vname v = n) (candidates pages)))
   \<and> villager_collect m0 (ps @ qs) =
       (case villager_collect m0 ps of Inl e \<Rightarrow> Inl e | Inr m' \<Rightarrow> villager_collect m' qs)
   \<and> (fetchAllVillagerImages cmp net = Some (issued0, Inr vs0) \<longrightarrow> distinct (map vname vs0))"
proof (intro conjI impI)
  assume a: "served net villagers_API_URL villagers_PAGE_TITLE None ds \<and> pages_of ds = Inr pages
      \<and> villager_collect [] pages = Inr m"
  from query_loop_served[of villager_collect net villagers_API_URL villagers_PAGE_TITLE None ds
      pages "[]" "[]", OF villager_collect_append] a
  obtain issued where
    q: "query_loop net villagers_API_URL villagers_PAGE_TITLE villager_collect [] None []
          = Some (issued, Inr m)"
    and len: "length issued = length ds"
    by auto
  from a have m: "m = foldl villager_put [] (candidates pages)"
    by (simp add: villager_collect_fold)
  have d: "distinct (map fst m)" unfolding m by (rule villager_fold_keys) simp
  have nm: "\<forall>(k, e) \<in> set m. vname e = k" unfolding m by (rule villager_fold_names) simp
  have lookup: "map_of m n =
          (case find (\<lambda>v. vname v = n \<and> \<not> isSq v) (candidates pages) of
             Some v \<Rightarrow> Some v
           | None \<Rightarrow> find (\<lambda>v. vname v = n) (candidates pages))" for n
    unfolding m villager_fold_lookup by simp
  let ?vs = "sort_by_name cmp (map snd m)"
  have r: "fetchAllVillagerImages cmp net = Some (issued, Inr ?vs)"
    by (simp add: fetchAllVillagerImages_def q)
  from nm have "map vname (map snd m) = map fst m" by auto
  with d have "distinct (map vname (map snd m))" by (simp only:)
  with sort_by_name_names[of cmp "map snd m"] have dv: "distinct (map vname ?vs)" by blast
  have sv: "set ?vs = snd ` set m" by (simp add: sort_by_name_set)
  have fv: "\<forall>n. find (\<lambda>v. vname v = n) ?vs =
               (case find (\<lambda>v. vname v = n \<and> \<not> isSq v) (candidates pages) of
                  Some v \<Rightarrow> Some v
                | None \<Rightarrow> find (\<lambda>v. vname v = n) (candidates pages))"
    using find_in_sorted[OF d nm] lookup by simp
  from r len dv sv fv
  show "\<exists>issued vs. fetchAllVillagerImages cmp net = Some (issued, Inr vs)
         \<and> length issued = length ds
         \<and> distinct (map vname vs)
         \<and> set vs = snd ` set m
         \<and> (\<forall>n. find (\<lambda>v. vname v = n) vs =
               (case find (\<lambda>v. vname v = n \<and> \<not> isSq v) (candidates pages) of
                  Some v \<Rightarrow> Some v
                | None \<Rightarrow> find (\<lambda>v. vname v = n) (candidates pages)))"
    by blast
next
  assume a: "served net villagers_API_URL villagers_PAGE_TITLE None ds \<and> pages_of ds = Inr pages
      \<and> villager_collect [] pages = Inl x"
  from query_loop_served[of villager_collect net villagers_API_URL villagers_PAGE_TITLE None ds
      pages "[]" "[]", OF villager_collect_append] a
  obtain issued where
    "query_loop net villagers_API_URL villagers_PAGE_TITLE villager_collect [] None []
          = Some (issued, Inl x)"
    by auto
  then show "\<exists>issued. fetchAllVillagerImages cmp net = Some (issued, Inl x)"
    by (simp add: fetchAllVillagerImages_def)
next
  assume "villager_collect [] pages = Inr m"
  then have m: "m = foldl villager_put [] (candidates pages)" by (rule villager_collect_fold)
  show "distinct (map fst m)" unfolding m by (rule villager_fold_keys) simp
  show "map_of m n =
          (case find (\<lambda>v. vname v = n \<and> \<not> isSq v) (candidates pages) of
             Some v \<Rightarrow> Some v
           | None \<Rightarrow> find (\<lambda>v. vname v = n) (candidates pages))"
    unfolding m villager_fold_lookup by simp
next
  show "villager_collect m0 (ps @ qs) =
       (case villager_collect m0 ps of Inl e \<Rightarrow> Inl e | Inr m' \<Rightarrow> villager_collect m' qs)"
    by (rule villager_collect_append)
next
  assume "fetchAllVillagerImages cmp net = Some (issued0, Inr vs0)"
  then show "distinct (map vname vs0)" by (rule harvested_names_distinct)
qed

text \<open>C6, witness: the API serves the square poster of Bob in a first response and two
  posters of Bob that are not square in a second one; after two requests the driver
  returns one entry for Bob, the first of the latter. And the driver, against an API
  that lists five villagers, returns five distinct names.\<close>

theorem primary_variant_preferred_witness:
  "served two_batch_api villagers_API_URL villagers_PAGE_TITLE None [bob_first_batch, bob_last_batch]
   \<and> pages_of [bob_first_batch, bob_last_batch] = Inr bob_pages
   \<and> candidates bob_pages =
     [\<lparr>vname = ''Bob'', vurl = JStr ''sq'', isSq = True\<rparr>,
      \<lparr>vname = ''Bob'', vurl = JStr ''first'', isSq = False\<rparr>,
      \<lparr>vname = ''Bob'', vurl = JStr ''second'', isSq = False\<rparr>]
   \<and> fetchAllVillagerImages no_collation two_batch_api
     = Some ([base_params villagers_PAGE_TITLE,
              base_params villagers_PAGE_TITLE @ [(''c'', ''2'')]],
             Inr [\<lparr>vname = ''Bob'', vurl = JStr ''first'', isSq = False\<rparr>])
   \<and> find (\<lambda>v. vname v = ''Bob'') [\<lparr>vname = ''Bob'', vurl = JStr ''first'', isSq = False\<rparr>]
       = find (\<lambda>v. vname v = ''Bob'' \<and> \<not> isSq v) (candidates bob_pages)
   \<and> map_of [(''Bob'', \<lparr>vname = ''Bob'', vurl = JStr ''first'', isSq = False\<rparr>)] ''Bob''
       = find (\<lambda>v. vname v = ''Bob'' \<and> \<not> isSq v) (candidates bob_pages)
   \<and> fetchAllVillagerImages no_collation ten_api
       = Some ([base_params villagers_PAGE_TITLE], Inr five_villagers)
   \<and> distinct (map vname five_villagers)"
proof -
  note inst = primary_variant_preferred[where pages = bob_pages and n = "''Bob''"
      and m = "[(''Bob'', \<lparr>vname = ''Bob'', vurl = JStr ''first'', isSq = False\<rparr>)]"
      and cmp = no_collation and net = two_batch_api
      and ds = "[bob_first_batch, bob_last_batch]"]
  from inst[THEN conjunct1] two_batch_served(1,2) bob_collected(1)
  obtain issued vs where
    r: "fetchAllVillagerImages no_collation two_batch_api = Some (issued, Inr vs)"
    and f: "\<forall>n. find (\<lambda>v. vname v = n) vs =
               (case find (\<lambda>v. vname v = n \<and> \<not> isSq v) (candidates bob_pages) of
                  Some v \<Rightarrow> Some v
                | None \<Rightarrow> find (\<lambda>v. vname v = n) (candidates bob_pages))"
    by blast
  from r two_batch_served(3)
  have "vs = [\<lparr>vname = ''Bob'', vurl = JStr ''first'', isSq = False\<rparr>]" by simp
  with f[THEN spec, of "''Bob''"]
  have 1: "find (\<lambda>v. vname v = ''Bob'') [\<lparr>vname = ''Bob'', vurl = JStr ''first'', isSq = False\<rparr>]
       = find (\<lambda>v. vname v = ''Bob'' \<and> \<not> isSq v) (candidates bob_pages)"
    by (simp add: bob_collected(2))
  from inst[THEN conjunct2, THEN conjunct2, THEN conjunct1] bob_collected
  have 2: "map_of [(''Bob'', \<lparr>vname = ''Bob'', vurl = JStr ''first'', isSq = False\<rparr>)] ''Bob''
       = find (\<lambda>v. vname v = ''Bob'' \<and> \<not> isSq v) (candidates bob_pages)"
    by simp
  from primary_variant_preferred[where cmp = no_collation and net = ten_api
      and ?issued0.0 = "[base_params villagers_PAGE_TITLE]" and ?vs0.0 = five_villagers,
      THEN conjunct2, THEN conjunct2, THEN conjunct2, THEN conjunct2] ten_villagers
  have 3: "distinct (map vname five_villagers)" by blast
  from 1 2 3 two_batch_served bob_collected(2) ten_villagers show ?thesis by blast
qed

text \<open>
  C6, counterexample. The API lists two records of Bob: his poster
  \<open>File:NH-Bob poster.png\<close>, which is not square, without \<open>imageinfo\<close>, and his square
  poster \<open>File:NH-Bob poster sq.png\<close> with an image URL. Both titles match the pattern
  and give the name \<open>Bob\<close>; the first record is passed over for want of an image URL,
  and the one entry the driver returns for Bob is the square poster.
\<close>

theorem square_survives_without_primary_url:
  "fetchJson missing_url_api villagers_API_URL (base_params villagers_PAGE_TITLE)
     = Inr missing_url_batch
   \<and> response_pages missing_url_batch
     = Inr [JObj [(''title'', JStr ''File:NH-Bob poster.png'')],
            file_page ''File:NH-Bob poster sq.png'' ''sq'']
   \<and> poster_match ''File:NH-Bob poster.png'' = Some (''Bob'', False)
   \<and> poster_match ''File:NH-Bob poster sq.png'' = Some (''Bob'', True)
   \<and> villager_item (JObj [(''title'', JStr ''File:NH-Bob poster.png'')]) = Inr None
   \<and> fetchAllVillagerImages no_collation missing_url_api
     = Some ([base_params villagers_PAGE_TITLE],
             Inr [\<lparr>vname = ''Bob'', vurl = JStr ''sq'', isSq = True\<rparr>])"
  using missing_url_harvest by blast

lemma villager_filename_inj: "villager_filename a = villager_filename b \<longleftrightarrow>
    spaces_to_underscore a = spaces_to_underscore b"
  by (simp add: villager_filename_def)

text \<open>
  C9, as amended. In fetch-funko-hp.js the file names of the manifest are pairwise
  distinct: the set \<open>seen\<close> holds the sanitised file names, and an item whose file name
  is in it is passed over. In fetch-villagers.js the items are keyed on the display
  name: the names of the manifest are pairwise distinct, and its file names are
  pairwise distinct whenever no two of these names become equal when their white space
  is replaced by underscores.
\<close>

theorem unique_filenames_by_script:
  "(funko_main w s = Some (t, s') \<longrightarrow>
      manifest s' = Some (entries t) \<and> distinct (map snd (entries t)))
   \<and> (villagers_main cmp w s = Some (Inr t, s') \<longrightarrow>
      manifest s' = Some (entries t) \<and> distinct (map fst (entries t))
      \<and> (inj_on spaces_to_underscore (set (map fst (entries t)))
           \<longrightarrow> distinct (map snd (entries t))))"
proof (intro conjI impI)
  assume r: "funko_main w s = Some (t, s')"
  then obtain images sa ta sb where
    ma: "mirror_all w '' (skipped)'' (funko_new {} images) (tally0, sa) = Some (ta, sb)"
    and t: "t = ta\<lparr>seen := safeFilename ` filename ` set images\<rparr>"
    and s': "manifest s' = Some (entries ta)"
    by (auto simp: funko_main_char split: option.splits)
  from mirror_all_effect[OF ma] t s' have e: "entries t = listing (funko_new {} images)"
    and m: "manifest s' = Some (entries t)"
    by simp_all
  from m show "manifest s' = Some (entries t)" .
  have "map snd (listing (funko_new {} images)) = map (\<lambda>x. fst (snd x)) (funko_new {} images)"
    by (simp add: listing_def split_def)
  with funko_new_distinct[of "{}" images] e show "distinct (map snd (entries t))" by simp
next
  assume r: "villagers_main cmp w s = Some (Inr t, s')"
  then obtain issued vs s1 sb where h: "fetchAllVillagerImages cmp (api_server w) = Some (issued, Inr vs)"
    and ma: "mirror_all w '' (skipped, exists)'' (map villager_triple vs) (tally0, s1) = Some (t, sb)"
    and m: "manifest s' = Some (entries t)"
    by (auto simp: villagers_main_char split: option.splits sum.splits)
  from mirror_all_effect[OF ma] have e: "entries t = listing (map villager_triple vs)" by simp
  from m show "manifest s' = Some (entries t)" .
  have f: "map fst (entries t) = map vname vs"
    and g: "map snd (entries t) = map villager_filename (map vname vs)"
    unfolding e by (simp_all add: listing_def villager_triple_def)
  from harvested_names_distinct[OF h] f show d: "distinct (map fst (entries t))" by simp
  assume "inj_on spaces_to_underscore (set (map fst (entries t)))"
  then have "inj_on villager_filename (set (map vname vs))"
    unfolding f by (auto simp: inj_on_def villager_filename_inj)
  moreover from d f have "distinct (map vname vs)" by simp
  ultimately have "distinct (map villager_filename (map vname vs))"
    by (subst distinct_map) blast
  then show "distinct (map snd (entries t))" unfolding g .
qed

lemma five_entries:
  "listing (funko_new {} five_images)
     = [(''A'', ''A.png''), (''B'', ''B.png''), (''C'', ''C.png''), (''D'', ''D.png''), (''E'', ''E.png'')]"
  "listing (map villager_triple five_villagers)
     = [(''Ace'', ''NH-Ace_poster.png''), (''Bea'', ''NH-Bea_poster.png''),
        (''Cat'', ''NH-Cat_poster.png''), (''Dom'', ''NH-Dom_poster.png''),
        (''Eve'', ''NH-Eve_poster.png'')]"
  by code_simp+

lemma five_names_inj:
  "inj_on spaces_to_underscore (set [''Ace'', ''Bea'', ''Cat'', ''Dom'', ''Eve''])"
  by (simp add: is_space_def WhiteSpace_def)

text \<open>C9, witness: the runs of both scripts over five items each.\<close>

theorem unique_filenames_by_script_witness:
  "(\<exists>t s'. funko_main all_ok io0 = Some (t, s')
       \<and> manifest s' = Some (entries t) \<and> distinct (map snd (entries t)))
   \<and> (\<exists>t s'. villagers_main no_collation all_ok io0 = Some (Inr t, s')
       \<and> manifest s' = Some (entries t) \<and> distinct (map fst (entries t))
       \<and> distinct (map snd (entries t)))"
proof (intro conjI)
  from all_ok_funko_run obtain t s' where r: "funko_main all_ok io0 = Some (t, s')" by blast
  from unique_filenames_by_script[where w = all_ok and s = io0 and t = t and s' = s',
      THEN conjunct1] r
  show "\<exists>t s'. funko_main all_ok io0 = Some (t, s')
       \<and> manifest s' = Some (entries t) \<and> distinct (map snd (entries t))"
    by blast
next
  from all_ok_villagers_run obtain t s' where
    r: "villagers_main no_collation all_ok io0 = Some (Inr t, s')" by blast
  then obtain s1 sb where
    "mirror_all all_ok '' (skipped, exists)'' (map villager_triple five_villagers) (tally0, s1)
       = Some (t, sb)"
    by (auto simp: villagers_main_char all_ok_simps ten_villagers split: option.splits)
  from mirror_all_effect[OF this]
  have "entries t = listing (map villager_triple five_villagers)" by simp
  then have "inj_on spaces_to_underscore (set (map fst (entries t)))"
    using five_names_inj by (simp add: five_entries)
  with unique_filenames_by_script[where w = all_ok and s = io0 and t = t and s' = s'
      and cmp = no_collation, THEN conjunct2] r
  show "\<exists>t s'. villagers_main no_collation all_ok io0 = Some (Inr t, s')
       \<and> manifest s' = Some (entries t) \<and> distinct (map fst (entries t))
       \<and> distinct (map snd (entries t))"
    by blast
qed

lemma underscore_harvest:
  "fetchAllVillagerImages no_collation (api_server underscore_world)
     = Some ([base_params villagers_PAGE_TITLE],
             Inr [\<lparr>vname = ''A B'', vurl = JStr ''u1'', isSq = False\<rparr>,
                  \<lparr>vname = ''A_B'', vurl = JStr ''u2'', isSq = False\<rparr>])"
  by code_simp

lemma underscore_download:
  "downloadImage underscore_world u f s
     = Some (Inr (), s\<lparr>requests := requests s @ [u], files := (files s)(f \<mapsto> ''img'')\<rparr>)"
  by (rule downloadImage_served) (simp_all add: underscore_world_def)

text \<open>
  C9, counterexample. The API lists the posters \<open>File:NH-A B poster.png\<close> and
  \<open>File:NH-A_B poster.png\<close>. fetch-villagers.js keeps both, since their names \<open>A B\<close>
  and \<open>A_B\<close> differ, and gives both the file name \<open>NH-A_B_poster.png\<close>: the manifest
  holds the same file name twice, and the second item is skipped because the download of
  the first has created its file.
\<close>

theorem villagers_share_a_filename:
  "map_option (manifest \<circ> snd) (villagers_main no_collation underscore_world io0)
     = Some (Some [(''A B'', ''NH-A_B_poster.png''), (''A_B'', ''NH-A_B_poster.png'')])
   \<and> map_option (skipped \<circ> projr \<circ> fst) (villagers_main no_collation underscore_world io0) = Some 1
   \<and> map_option (requests \<circ> snd) (villagers_main no_collation underscore_world io0)
     = Some [Some (JStr ''u1'')]"
  unfolding villagers_main_char underscore_harvest
  by (simp add: villager_triple_def villager_filename_def is_space_def WhiteSpace_def
      mirror_item_def underscore_download io0_def tally0_def)

end
